(* ===== verification/Prelude.thy ===== *)
theory Prelude
  imports Main "HOL-Library.Word"
begin

unbundle bit_operations_syntax

text \<open>
  Shared vocabulary of the development: machine integers, the outcome of running a piece of
  the emulator (a value or a crash of the host process), C arrays with their bounds,
  the little-endian byte view of integers that \<open>memcpy\<close> exposes, and C bit-fields.
\<close>

section \<open>Machine integers\<close>

type_synonym u8 = "8 word"
type_synonym u16 = "16 word"
type_synonym u32 = "32 word"
type_synonym u64 = "64 word"
type_synonym u128 = "128 word"

lemma unat_lt64: "unat (w :: u64) < 2 ^ 64"
  by (rule order.strict_trans2 [OF unsigned_less]) simp

lemma unat_lt32: "unat (w :: u32) < 2 ^ 32"
  by (rule order.strict_trans2 [OF unsigned_less]) simp

lemma unat_ucast_up: "LENGTH('a) \<le> LENGTH('b) \<Longrightarrow> unat (ucast (w :: 'a::len word) :: 'b::len word) = unat w"
  by (simp add: unsigned_ucast_eq take_bit_nat_eq_self_iff)
    (metis less_le_trans one_le_numeral power_increasing unsigned_less)

lemma of_nat_u64_inj: "i < 2 ^ 64 \<Longrightarrow> j < 2 ^ 64 \<Longrightarrow> (of_nat i :: u64) = of_nat j \<longleftrightarrow> i = j"
  by (simp add: word_of_nat_eq_iff take_bit_nat_eq_self)

lemma unat_offset: "unat (a :: u64) + i < 2 ^ 64 \<Longrightarrow> unat (a + of_nat i) = unat a + i"
  by (simp add: unat_word_ariths unat_of_nat)

named_theorems res_simps \<open>rewriting of outcomes through binds, assertions and array accesses\<close>
named_theorems res_intros \<open>partial-correctness rules for outcomes\<close>
named_theorems field_defs \<open>positions of the named bit-fields\<close>

section \<open>Status codes\<close>

datatype FuncReturnFeedback_e =
    MEMU_OK
  | MEMU_INVALID_PARAM
  | MEMU_NULL_PTR
  | MEMU_ADDR_CONFLICT
  | MEMU_INTNUM_CONFLICT
  | MEMU_INVALID_STATE
  | MEMU_NOT_FOUND
  | MEMU_NOT_ACCESSIBLE
  | MEMU_DATA_MODIFIED
  | MEMU_FILE_OPEN_ERR
  | MEMU_TIMEOUT
  | MEMU_ALIGNMENT_ERROR
  | MEMU_INVALID_ADDR
  | MEMU_PANIC
  | MEMU_UNKNOWN
  | MEMU_NOT_IMPL
  | MEMU_PROTOCOL_ERR
  | MEMU_CHKSUM_ERR
  | MEMU_MODULE_MISSING_ENV

section \<open>Outcomes\<close>

text \<open>
  Running C++ code either yields a value or ends the host process: a failed \<open>assert\<close>
  (the build sets no \<open>NDEBUG\<close>), an access outside an array or a heap block, the use of an
  uninitialised local, the use of a null pointer or of one of another type, an exception nobody
  catches, or a call of \<open>exit\<close>. The categories that are undefined behaviour (\<open>OutOfBounds\<close>,
  \<open>IndeterminateValue\<close>, \<open>InvalidPointer\<close>) are kept apart from the defined ends of the process.
\<close>

datatype crash =
    AssertionFailure | OutOfBounds | IndeterminateValue | InvalidPointer | UncaughtException | ProcessExit

type_synonym 'a res = "crash + 'a"

definition bindR :: "'a res \<Rightarrow> ('a \<Rightarrow> 'b res) \<Rightarrow> 'b res" where
  "bindR m f = (case m of Inl c \<Rightarrow> Inl c | Inr x \<Rightarrow> f x)"

definition assertR :: "bool \<Rightarrow> 'a res \<Rightarrow> 'a res" where
  "assertR b m = (if b then m else Inl AssertionFailure)"

text \<open>Reading a local variable that may never have been written.\<close>

definition initialised :: "'a option \<Rightarrow> 'a res" where
  "initialised v = (case v of None \<Rightarrow> Inl IndeterminateValue | Some x \<Rightarrow> Inr x)"

text \<open>Following a pointer that may be null.\<close>

definition deref :: "'a option \<Rightarrow> 'a res" where
  "deref p = (case p of None \<Rightarrow> Inl InvalidPointer | Some x \<Rightarrow> Inr x)"

lemma deref_simps [simp, res_simps]:
  "deref (Some x) = Inr x"
  "deref None = Inl InvalidPointer"
  by (simp_all add: deref_def)

lemma bindR_simps [simp, res_simps]:
  "bindR (Inl c) f = Inl c"
  "bindR (Inr x) f = f x"
  by (simp_all add: bindR_def)

lemma assertR_simps [simp, res_simps]:
  "assertR True m = m"
  "assertR False m = Inl AssertionFailure"
  by (simp_all add: assertR_def)

lemma initialised_simps [simp, res_simps]:
  "initialised (Some x) = Inr x"
  "initialised None = Inl IndeterminateValue"
  by (simp_all add: initialised_def)

lemma bindR_eq_Inr: "bindR m f = Inr y \<longleftrightarrow> (\<exists>x. m = Inr x \<and> f x = Inr y)"
  by (cases m) auto

lemma assertR_eq_Inr: "assertR b m = Inr y \<longleftrightarrow> b \<and> m = Inr y"
  by (cases b) auto

lemma initialised_eq_Inr: "initialised v = Inr x \<longleftrightarrow> v = Some x"
  by (cases v) auto

lemmas res_eq_Inr = bindR_eq_Inr assertR_eq_Inr initialised_eq_Inr

lemma bindR_cong [fundef_cong]:
  "m = m' \<Longrightarrow> (\<And>x. m' = Inr x \<Longrightarrow> f x = f' x) \<Longrightarrow> bindR m f = bindR m' f'"
  by (cases m') auto

lemma bindR_assoc: "bindR (bindR m f) g = bindR m (\<lambda>x. bindR (f x) g)"
  by (cases m) auto

text \<open>\<open>holdsR m P\<close>: if \<open>m\<close> returns, its value satisfies \<open>P\<close>.
  \<open>returnsR m P\<close>: \<open>m\<close> returns, with a value that satisfies \<open>P\<close>.\<close>

definition holdsR :: "'a res \<Rightarrow> ('a \<Rightarrow> bool) \<Rightarrow> bool" where
  "holdsR m P = (case m of Inl _ \<Rightarrow> True | Inr x \<Rightarrow> P x)"

definition returnsR :: "'a res \<Rightarrow> ('a \<Rightarrow> bool) \<Rightarrow> bool" where
  "returnsR m P = (case m of Inl _ \<Rightarrow> False | Inr x \<Rightarrow> P x)"

lemma holdsR_simps [simp, res_simps]:
  "holdsR (Inl c) P" "holdsR (Inr x) P = P x"
  by (simp_all add: holdsR_def)

lemma holdsR_bindR [simp, res_simps]: "holdsR (bindR m f) P = holdsR m (\<lambda>x. holdsR (f x) P)"
  by (simp add: holdsR_def bindR_def split: sum.split)

lemma holdsR_assertR [simp, res_simps]: "holdsR (assertR b m) P = (b \<longrightarrow> holdsR m P)"
  by (simp add: holdsR_def assertR_def)

lemma returnsR_simps [simp, res_simps]:
  "\<not> returnsR (Inl c) P" "returnsR (Inr x) P = P x"
  by (simp_all add: returnsR_def)

lemma returnsR_bindR [simp, res_simps]: "returnsR (bindR m f) P = returnsR m (\<lambda>x. returnsR (f x) P)"
  by (simp add: returnsR_def bindR_def split: sum.split)

lemma returnsR_assertR [simp, res_simps]: "returnsR (assertR b m) P = (b \<and> returnsR m P)"
  by (simp add: returnsR_def assertR_def)

lemma holdsR_initialised [simp, res_simps]:
  "holdsR (initialised v) P = (\<forall>x. v = Some x \<longrightarrow> P x)"
  by (cases v) auto

lemma holdsR_mono: "holdsR m Q \<Longrightarrow> (\<And>x. Q x \<Longrightarrow> P x) \<Longrightarrow> holdsR m P"
  by (cases m) auto

lemma holdsR_conj: "holdsR m P \<Longrightarrow> holdsR m Q \<Longrightarrow> holdsR m (\<lambda>x. P x \<and> Q x)"
  by (cases m) auto

lemma returnsR_mono: "returnsR m Q \<Longrightarrow> (\<And>x. Q x \<Longrightarrow> P x) \<Longrightarrow> returnsR m P"
  by (cases m) auto

lemma holdsR_bindI [res_intros]: "holdsR m Q \<Longrightarrow> (\<And>x. Q x \<Longrightarrow> holdsR (f x) P) \<Longrightarrow> holdsR (bindR m f) P"
  by (cases m) auto

lemma holdsR_assertI [res_intros]: "(b \<Longrightarrow> holdsR m P) \<Longrightarrow> holdsR (assertR b m) P"
  by (cases b) auto

lemma holdsR_D: "holdsR m P \<Longrightarrow> m = Inr x \<Longrightarrow> P x"
  by simp

lemma holdsR_I: "(\<And>x. m = Inr x \<Longrightarrow> P x) \<Longrightarrow> holdsR m P"
  by (cases m) auto

lemma returnsR_iff: "returnsR m P \<longleftrightarrow> (\<exists>x. m = Inr x \<and> P x)"
  by (cases m) auto

lemma returnsR_holdsR: "returnsR m P \<Longrightarrow> holdsR m P"
  by (cases m) auto

section \<open>C arrays\<close>

text \<open>An access outside the array is undefined behaviour, so it ends the run.\<close>

definition aget :: "'a list \<Rightarrow> nat \<Rightarrow> 'a res" where
  "aget xs i = (if i < length xs then Inr (xs ! i) else Inl OutOfBounds)"

definition aset :: "'a list \<Rightarrow> nat \<Rightarrow> 'a \<Rightarrow> 'a list res" where
  "aset xs i v = (if i < length xs then Inr (xs[i := v]) else Inl OutOfBounds)"

text \<open>\<open>memcpy\<close> out of and into a byte array.\<close>

definition mem_get :: "'a list \<Rightarrow> nat \<Rightarrow> nat \<Rightarrow> 'a list res" where
  "mem_get xs off n = (if off + n \<le> length xs then Inr (take n (drop off xs)) else Inl OutOfBounds)"

definition mem_put :: "'a list \<Rightarrow> nat \<Rightarrow> 'a list \<Rightarrow> 'a list res" where
  "mem_put xs off ys =
     (if off + length ys \<le> length xs
      then Inr (take off xs @ ys @ drop (off + length ys) xs) else Inl OutOfBounds)"

lemma aget_in [simp, res_simps]: "i < length xs \<Longrightarrow> aget xs i = Inr (xs ! i)"
  by (simp add: aget_def)

lemma aset_in [simp, res_simps]: "i < length xs \<Longrightarrow> aset xs i v = Inr (xs[i := v])"
  by (simp add: aset_def)

lemma aget_eq_Inr: "aget xs i = Inr x \<longleftrightarrow> i < length xs \<and> x = xs ! i"
  by (auto simp: aget_def)

lemma aset_eq_Inr: "aset xs i v = Inr ys \<longleftrightarrow> i < length xs \<and> ys = xs[i := v]"
  by (auto simp: aset_def)

lemma mem_get_in [simp, res_simps]: "off + n \<le> length xs \<Longrightarrow> mem_get xs off n = Inr (take n (drop off xs))"
  by (simp add: mem_get_def)

lemma length_mem_get: "mem_get xs off n = Inr ys \<Longrightarrow> length ys = n"
  by (auto simp: mem_get_def split: if_splits)

lemma length_mem_put: "mem_put xs off ys = Inr zs \<Longrightarrow> length zs = length xs"
  by (auto simp: mem_put_def split: if_splits)

lemma mem_get_put:
  assumes "mem_put xs off ys = Inr zs"
  shows "mem_get zs off (length ys) = Inr ys"
  using assms by (auto simp: mem_put_def mem_get_def split: if_splits)

lemma mem_put_outside:
  assumes "mem_put xs off ys = Inr zs" and "i < off \<or> off + length ys \<le> i"
  shows "zs ! i = xs ! i"
  using assms by (auto simp: mem_put_def nth_append split: if_splits)

section \<open>Little-endian bytes\<close>

definition to_bytes :: "nat \<Rightarrow> 'a::len word \<Rightarrow> u8 list" where
  "to_bytes n w = map (\<lambda>i. ucast (drop_bit (8 * i) w)) [0..<n]"

fun of_bytes :: "u8 list \<Rightarrow> 'a::len word" where
  "of_bytes [] = 0"
| "of_bytes (b # bs) = ucast b OR push_bit 8 (of_bytes bs)"

lemma length_to_bytes [simp]: "length (to_bytes n w) = n"
  by (simp add: to_bytes_def)

lemma nth_to_bytes [simp]: "i < n \<Longrightarrow> to_bytes n w ! i = ucast (drop_bit (8 * i) w)"
  by (simp add: to_bytes_def)

lemma bit_of_bytes:
  "bit (of_bytes bs :: 'a::len word) k \<longleftrightarrow>
     k < LENGTH('a) \<and> k < 8 * length bs \<and> bit (bs ! (k div 8)) (k mod 8)"
proof (induction bs arbitrary: k)
  case Nil
  then show ?case by simp
next
  case (Cons b bs)
  show ?case
  proof (cases "k < 8")
    case True
    then show ?thesis
      by (auto simp: bit_simps dest: bit_imp_le_length)
  next
    case False
    then have k: "k div 8 = Suc ((k - 8) div 8)" "k mod 8 = (k - 8) mod 8"
      by (simp_all add: le_div_geq le_mod_geq not_less)
    have "\<not> bit b k" using False by (auto dest: bit_imp_le_length)
    moreover have "bit (of_bytes bs :: 'a word) (k - 8) \<longleftrightarrow>
        k - 8 < LENGTH('a) \<and> k - 8 < 8 * length bs \<and> bit (bs ! ((k - 8) div 8)) ((k - 8) mod 8)"
      by (rule Cons.IH)
    ultimately show ?thesis
      using False k by (auto simp: bit_simps)
  qed
qed

lemma of_bytes_to_bytes:
  "of_bytes (to_bytes n w) = (take_bit (8 * n) w :: 'a::len word)"
proof (rule bit_word_eqI)
  fix k
  assume "k < LENGTH('a)"
  show "bit (of_bytes (to_bytes n w) :: 'a word) k = bit (take_bit (8 * n) w) k"
  proof (cases "k < 8 * n")
    case True
    then have "k div 8 < n" by simp
    then show ?thesis
      using True \<open>k < LENGTH('a)\<close> by (simp add: bit_of_bytes bit_simps)
  next
    case False
    then show ?thesis by (simp add: bit_of_bytes bit_simps)
  qed
qed

lemma of_bytes_to_bytes_full:
  "LENGTH('a) \<le> 8 * n \<Longrightarrow> of_bytes (to_bytes n w) = (w :: 'a::len word)"
  by (simp add: of_bytes_to_bytes take_bit_word_eq_self)

lemma to_bytes_of_bytes:
  assumes "8 * length bs \<le> LENGTH('a::len)"
  shows "to_bytes (length bs) (of_bytes bs :: 'a word) = bs"
proof (rule nth_equalityI)
  show "length (to_bytes (length bs) (of_bytes bs :: 'a word)) = length bs" by simp
next
  fix i
  assume "i < length (to_bytes (length bs) (of_bytes bs :: 'a word))"
  then have i: "i < length bs" by simp
  have "(ucast (drop_bit (8 * i) (of_bytes bs :: 'a word)) :: u8) = bs ! i"
  proof (rule bit_word_eqI)
    fix k
    assume "k < LENGTH(8)"
    then have k: "k < 8" by simp
    have "(8 * i + k) div 8 = i" "(8 * i + k) mod 8 = k" using k by simp_all
    then show "bit (ucast (drop_bit (8 * i) (of_bytes bs :: 'a word)) :: u8) k = bit (bs ! i) k"
      using i k assms by (simp add: bit_simps bit_of_bytes)
  qed
  then show "to_bytes (length bs) (of_bytes bs :: 'a word) ! i = bs ! i"
    using i by simp
qed

text \<open>The byte image of an array of integers of \<open>n\<close> bytes each, and back.\<close>

definition array_bytes :: "nat \<Rightarrow> 'a::len word list \<Rightarrow> u8 list" where
  "array_bytes n ws = concat (map (to_bytes n) ws)"

fun array_of_bytes :: "nat \<Rightarrow> nat \<Rightarrow> u8 list \<Rightarrow> 'a::len word list" where
  "array_of_bytes n 0 bs = []"
| "array_of_bytes n (Suc k) bs = of_bytes (take n bs) # array_of_bytes n k (drop n bs)"

lemma length_array_bytes [simp]: "length (array_bytes n ws) = n * length ws"
  by (induction ws) (simp_all add: array_bytes_def)

lemma length_array_of_bytes [simp]: "length (array_of_bytes n k bs) = k"
  by (induction k arbitrary: bs) simp_all

lemma array_of_bytes_array_bytes:
  "LENGTH('a) \<le> 8 * n \<Longrightarrow> array_of_bytes n (length ws) (array_bytes n ws) = (ws :: 'a::len word list)"
  by (induction ws) (simp_all add: array_bytes_def of_bytes_to_bytes_full)

lemma array_bytes_array_of_bytes:
  "8 * n = LENGTH('a::len) \<Longrightarrow> length bs = n * k \<Longrightarrow>
     array_bytes n (array_of_bytes n k bs :: 'a word list) = bs"
proof (induction k arbitrary: bs)
  case 0
  then show ?case by (simp add: array_bytes_def)
next
  case (Suc k)
  from Suc.prems have "length (take n bs) = n" and "length (drop n bs) = n * k" by simp_all
  then have "array_bytes n (array_of_bytes n k (drop n bs) :: 'a word list) = drop n bs"
    and "to_bytes n (of_bytes (take n bs) :: 'a word) = take n bs"
    using Suc.IH Suc.prems(1) to_bytes_of_bytes [of "take n bs", where 'a = 'a] by simp_all
  then show ?case by (simp add: array_bytes_def)
qed

text \<open>Storing one element of an array through its bytes.\<close>

lemma array_bytes_Cons: "array_bytes n (w # ws) = to_bytes n w @ array_bytes n ws"
  by (simp add: array_bytes_def)

lemma array_bytes_update:
  "i < length ws \<Longrightarrow> array_bytes n (ws[i := v]) =
     take (n * i) (array_bytes n ws) @ to_bytes n v @ drop (n * i + n) (array_bytes n ws)"
proof (induction ws arbitrary: i)
  case Nil
  then show ?case by simp
next
  case (Cons w ws)
  then show ?case by (cases i) (simp_all add: array_bytes_Cons add.commute)
qed

lemma mem_put_array:
  "i < length ws \<Longrightarrow> mem_put (array_bytes n ws) (n * i) (to_bytes n v) = Inr (array_bytes n (ws[i := v]))"
proof -
  assume i: "i < length ws"
  then have "n * Suc i \<le> n * length ws" by (intro mult_le_mono2) simp
  with i show ?thesis by (simp add: mem_put_def array_bytes_update)
qed

lemma mem_get_array:
  "i < length ws \<Longrightarrow> mem_get (array_bytes n ws) (n * i) n = Inr (to_bytes n (ws ! i))"
  using mem_get_put [of "array_bytes n ws" "n * i" "to_bytes n (ws ! i)", OF mem_put_array] by simp

lemma byte_casts: "ucast (ucast (c :: u8) :: u32) = c" "ucast (scast (c :: u8) :: u32) = c"
  by (rule bit_word_eqI, simp add: bit_simps)+

section \<open>Bit-fields\<close>

text \<open>
  A bit-field of a C union is given by its first bit and its width. Assigning to it keeps
  the low bits of the value and leaves the other bits of the word alone.
\<close>

type_synonym bitfield = "nat \<times> nat"

definition bget :: "bitfield \<Rightarrow> 'a::len word \<Rightarrow> 'a word" where
  "bget f w = take_bit (snd f) (drop_bit (fst f) w)"

definition bput :: "bitfield \<Rightarrow> 'a::len word \<Rightarrow> 'a word \<Rightarrow> 'a word" where
  "bput f v w =
     (w AND NOT (push_bit (fst f) (mask (snd f)))) OR push_bit (fst f) (take_bit (snd f) v)"

definition disjoint_fields :: "bitfield \<Rightarrow> bitfield \<Rightarrow> bool" where
  "disjoint_fields f g \<longleftrightarrow> fst f + snd f \<le> fst g \<or> fst g + snd g \<le> fst f"

lemma bit_bget: "bit (bget f w) k \<longleftrightarrow> k < snd f \<and> bit w (fst f + k)"
  by (auto simp: bget_def bit_simps add.commute)

lemma bit_bput:
  "bit (bput f v (w :: 'a::len word)) k \<longleftrightarrow> k < LENGTH('a) \<and>
     (if fst f \<le> k \<and> k < fst f + snd f then bit v (k - fst f) else bit w k)"
  by (auto simp: bput_def bit_simps dest: bit_imp_le_length)

lemma bget_bput_same:
  "fst f + snd f \<le> LENGTH('a) \<Longrightarrow> bget f (bput f v w) = take_bit (snd f) (v :: 'a::len word)"
  by (rule bit_word_eqI) (auto simp: bit_bget bit_bput bit_simps)

lemma bget_bput_other:
  "disjoint_fields f g \<Longrightarrow> bget f (bput g v w) = bget f w"
  by (rule bit_word_eqI) (auto simp: bit_bget bit_bput disjoint_fields_def dest: bit_imp_le_length)

lemma bput_bget: "bput f (bget f w) w = w"
  by (rule bit_word_eqI) (auto simp: bit_bget bit_bput)

lemma take_bit_bget [simp]: "take_bit (snd f) (bget f w) = bget f w"
  by (simp add: bget_def)

text \<open>Bits outside a field survive an assignment to it: masks as sets of protected bits.\<close>

lemma bput_and_outside:
  assumes "m AND push_bit (fst f) (mask (snd f)) = 0"
  shows "bput f v w AND m = w AND m"
proof (rule bit_word_eqI)
  fix k
  assume "k < LENGTH('a)"
  from assms have "\<not> (bit m k \<and> bit (push_bit (fst f) (mask (snd f)) :: 'a word) k)"
    by (metis bit_and_iff bit_0_eq bot_apply bot_bool_def)
  then show "bit (bput f v w AND m) k = bit (w AND m) k"
    using \<open>k < LENGTH('a)\<close> by (auto simp: bit_simps bit_bput)
qed

end
