(* ===== verification/Mmio_Device.thy ===== *)
theory Mmio_Device
  imports Prelude
begin

unbundle bit_operations_syntax

text \<open>
  The device base class \<open>MMIODev_I\<close> of \<open>include/interface/MMIO_Dev.h\<close>: the address
  region every device carries, the region tests the bus decodes with, and the contract the
  bus relies on, as a locale over the two virtual methods.
\<close>

section \<open>The base class\<close>

text \<open>The derived part of a device object is the field \<open>devImpl\<close>.\<close>

record 'd mmio_dev =
  devBaseAddr :: u64
  addrRegionSize :: u64
  devImpl :: 'd

definition setDevBaseAddr :: "u64 \<Rightarrow> 'd mmio_dev \<Rightarrow> 'd mmio_dev" where
  "setDevBaseAddr dev_base_addr d = d\<lparr>devBaseAddr := dev_base_addr\<rparr>"

definition dev_end :: "'d mmio_dev \<Rightarrow> u64" where
  "dev_end d = devBaseAddr d + addrRegionSize d"

definition isAddrRegionConflict :: "'d mmio_dev \<Rightarrow> 'd mmio_dev \<Rightarrow> bool" where
  "isAddrRegionConflict this dev =
     (let dev1_begin_addr = devBaseAddr this;
          dev1_end_addr = dev1_begin_addr + addrRegionSize this;
          dev2_begin_addr = devBaseAddr dev;
          dev2_end_addr = dev2_begin_addr + addrRegionSize dev
      in if dev1_begin_addr \<le> dev2_begin_addr \<and> dev2_begin_addr \<le> dev1_end_addr then True
         else if dev1_begin_addr \<le> dev2_end_addr \<and> dev2_end_addr \<le> dev1_end_addr then True
         else False)"

definition isAddrInRange :: "'d mmio_dev \<Rightarrow> u64 \<Rightarrow> bool" where
  "isAddrInRange d addr \<longleftrightarrow> devBaseAddr d \<le> addr \<and> addr \<le> devBaseAddr d + addrRegionSize d"

text \<open>A region that does not run past the top of the address space.\<close>

definition region_ok :: "'d mmio_dev \<Rightarrow> bool" where
  "region_ok d \<longleftrightarrow> unat (devBaseAddr d) + unat (addrRegionSize d) < 2 ^ 64"

lemma region_ok_end: "region_ok d \<Longrightarrow> devBaseAddr d \<le> dev_end d"
  unfolding region_ok_def dev_end_def by (simp add: no_olen_add_nat)

lemma conflict_iff:
  "isAddrRegionConflict a b \<longleftrightarrow>
     isAddrInRange a (devBaseAddr b) \<or> isAddrInRange a (dev_end b)"
  by (simp add: isAddrRegionConflict_def isAddrInRange_def dev_end_def Let_def)

text \<open>
  What the conflict test of the new device against an old one establishes: if it is silent,
  the inclusive regions either share no address or the old one strictly encloses the new one.
\<close>

lemma no_conflict_cases:
  assumes "\<not> isAddrRegionConflict a b" and "region_ok a" and "region_ok b"
  shows "dev_end b < devBaseAddr a \<or> dev_end a < devBaseAddr b
         \<or> (devBaseAddr b < devBaseAddr a \<and> dev_end a < dev_end b)"
proof -
  note e = region_ok_end [OF assms(2)] region_ok_end [OF assms(3)]
  from assms(1) have n: "\<not> (devBaseAddr a \<le> devBaseAddr b \<and> devBaseAddr b \<le> dev_end a)"
    "\<not> (devBaseAddr a \<le> dev_end b \<and> dev_end b \<le> dev_end a)"
    by (auto simp: conflict_iff isAddrInRange_def dev_end_def)
  from n(1) consider "devBaseAddr b < devBaseAddr a" | "dev_end a < devBaseAddr b"
    by fastforce
  then show ?thesis
  proof cases
    case 1
    from n(2) have "dev_end b < devBaseAddr a \<or> dev_end a < dev_end b" by fastforce
    with 1 show ?thesis by blast
  next
    case 2
    then show ?thesis by blast
  qed
qed

section \<open>The virtual methods\<close>

text \<open>
  \<open>ReadBuffer_MMIODev_API\<close> fills the caller's buffer or leaves it alone; it returns the
  bytes written (\<open>None\<close>: the buffer is untouched), its status and the device afterwards.
  A buffer is a list of bytes, so the callee's test for a null pointer has no counterpart.
\<close>

type_synonym 'd read_method =
  "'d mmio_dev \<Rightarrow> u64 \<Rightarrow> u64 \<Rightarrow> (FuncReturnFeedback_e \<times> u8 list option \<times> 'd mmio_dev) res"
type_synonym 'd write_method =
  "'d mmio_dev \<Rightarrow> u64 \<Rightarrow> u8 list \<Rightarrow> (FuncReturnFeedback_e \<times> 'd mmio_dev) res"

record 'd dev_ops =
  ReadBuffer_MMIODev_API :: "'d read_method"
  WriteBuffer_MMIODev_API :: "'d write_method"

definition same_region :: "'d mmio_dev \<Rightarrow> 'e mmio_dev \<Rightarrow> bool" where
  "same_region d e \<longleftrightarrow> devBaseAddr d = devBaseAddr e \<and> addrRegionSize d = addrRegionSize e"

text \<open>
  The contract: a read that fills the buffer fills exactly the bytes asked for (a buffer is
  a C++ object, so it is smaller than \<open>2 ^ 63\<close> bytes), no access moves the device's region,
  and the device's own invariant survives.
\<close>

locale mmio_device =
  fixes ops :: "'d dev_ops"
    and dinv :: "'d mmio_dev \<Rightarrow> bool"
  assumes read_length:
      "dinv d \<Longrightarrow> unat n < 2 ^ 63 \<Longrightarrow>
       ReadBuffer_MMIODev_API ops d a n = Inr (fb, Some bs, d') \<Longrightarrow> length bs = unat n"
    and read_region:
      "dinv d \<Longrightarrow> ReadBuffer_MMIODev_API ops d a n = Inr (fb, r, d') \<Longrightarrow> same_region d' d"
    and read_inv:
      "dinv d \<Longrightarrow> ReadBuffer_MMIODev_API ops d a n = Inr (fb, r, d') \<Longrightarrow> dinv d'"
    and write_region:
      "dinv d \<Longrightarrow> WriteBuffer_MMIODev_API ops d a bs = Inr (fb, d') \<Longrightarrow> same_region d' d"
    and write_inv:
      "dinv d \<Longrightarrow> WriteBuffer_MMIODev_API ops d a bs = Inr (fb, d') \<Longrightarrow> dinv d'"
begin

lemma read_all:
  "dinv d \<Longrightarrow> holdsR (ReadBuffer_MMIODev_API ops d a n)
     (\<lambda>(fb, r, d'). same_region d' d \<and> dinv d' \<and> (\<forall>bs. r = Some bs \<longrightarrow> unat n < 2 ^ 63 \<longrightarrow> length bs = unat n))"
  by (rule holdsR_I) (auto dest: read_length read_region read_inv)

lemma write_all:
  "dinv d \<Longrightarrow> holdsR (WriteBuffer_MMIODev_API ops d a bs)
     (\<lambda>(fb, d'). same_region d' d \<and> dinv d')"
  by (rule holdsR_I) (auto dest: write_region write_inv)

end

lemma same_region_trans: "same_region a b \<Longrightarrow> same_region b c \<Longrightarrow> same_region a c"
  by (simp add: same_region_def)

lemma same_region_range: "same_region d' d \<Longrightarrow> isAddrInRange d' a = isAddrInRange d a"
  by (simp add: same_region_def isAddrInRange_def)

lemma same_region_upd [simp]: "same_region (d\<lparr>devImpl := x\<rparr>) d"
  by (simp add: same_region_def)

end
