(* ===== verification/Ram.thy ===== *)
theory Ram
  imports Mmio_Device
begin

unbundle bit_operations_syntax

text \<open>
  The RAM device \<open>MEmu_MMIO_Mem\<close> of \<open>modules/dev/ram/include/MMIOMem_Impl.hpp\<close>. The heap
  block \<open>memData\<close> is a map from its indices to bytes, of \<open>memorySize\<close> cells; \<open>new\<close>
  leaves it uninitialised, so its first contents are a parameter.
\<close>

section \<open>State and operations\<close>

record ram =
  memData :: "u64 \<Rightarrow> u8"
  memorySize :: u64

definition load_bytes :: "(u64 \<Rightarrow> u8) \<Rightarrow> u64 \<Rightarrow> nat \<Rightarrow> u8 list" where
  "load_bytes m a n = map (\<lambda>i. m (a + of_nat i)) [0..<n]"

fun store_bytes :: "(u64 \<Rightarrow> u8) \<Rightarrow> u64 \<Rightarrow> u8 list \<Rightarrow> (u64 \<Rightarrow> u8)" where
  "store_bytes m a [] = m"
| "store_bytes m a (b # bs) = store_bytes (m(a := b)) (a + 1) bs"

text \<open>Whether the block of \<open>memorySize\<close> cells has the bytes from \<open>begin_addr\<close> on.\<close>

definition in_block :: "ram \<Rightarrow> u64 \<Rightarrow> nat \<Rightarrow> bool" where
  "in_block r begin_addr n \<longleftrightarrow> unat begin_addr + n \<le> unat (memorySize r)"

definition new_ram :: "(u64 \<Rightarrow> u8) \<Rightarrow> u64 \<Rightarrow> ram mmio_dev" where
  "new_ram junk memory_size =
     \<lparr>devBaseAddr = 0, addrRegionSize = memory_size,
      devImpl = \<lparr>memData = junk, memorySize = memory_size\<rparr>\<rparr>"

definition ram_read :: "ram read_method" where
  "ram_read this begin_addr sz =
     (let r = devImpl this in
      if in_block r begin_addr (unat sz)
      then Inr (MEMU_OK, Some (load_bytes (memData r) begin_addr (unat sz)), this)
      else Inl OutOfBounds)"

definition ram_write :: "ram write_method" where
  "ram_write this begin_addr buffer =
     (let r = devImpl this in
      if in_block r begin_addr (length buffer)
      then Inr (MEMU_OK, this\<lparr>devImpl := r\<lparr>memData := store_bytes (memData r) begin_addr buffer\<rparr>\<rparr>)
      else Inl OutOfBounds)"

definition ram_ops :: "ram dev_ops" where
  "ram_ops = \<lparr>ReadBuffer_MMIODev_API = ram_read, WriteBuffer_MMIODev_API = ram_write\<rparr>"

text \<open>The block is as long as the region the bus decodes.\<close>

definition ram_inv :: "ram mmio_dev \<Rightarrow> bool" where
  "ram_inv d \<longleftrightarrow> memorySize (devImpl d) = addrRegionSize d"

section \<open>The contract\<close>

lemma length_load_bytes [simp]: "length (load_bytes m a n) = n"
  by (simp add: load_bytes_def)

lemma ram_inv_new: "ram_inv (new_ram junk n)"
  by (simp add: ram_inv_def new_ram_def)

interpretation ram: mmio_device ram_ops ram_inv
  by unfold_locales
    (auto simp: ram_ops_def ram_read_def ram_write_def ram_inv_def same_region_def Let_def split: if_splits)

section \<open>Contents\<close>

lemma store_bytes_outside:
  "(\<And>i. i < length bs \<Longrightarrow> x \<noteq> a + of_nat i) \<Longrightarrow> store_bytes m a bs x = m x"
proof (induction bs arbitrary: m a)
  case Nil
  then show ?case by simp
next
  case (Cons b bs)
  have "x \<noteq> a" using Cons.prems [of 0] by simp
  moreover have "store_bytes (m(a := b)) (a + 1) bs x = (m(a := b)) x"
  proof (rule Cons.IH)
    fix i assume "i < length bs"
    then show "x \<noteq> a + 1 + of_nat i" using Cons.prems [of "Suc i"] by (simp add: ac_simps)
  qed
  ultimately show ?case by simp
qed

lemma store_bytes_inside:
  "length bs < 2 ^ 64 \<Longrightarrow> i < length bs \<Longrightarrow> store_bytes m a bs (a + of_nat i) = bs ! i"
proof (induction bs arbitrary: m a i)
  case Nil
  then show ?case by simp
next
  case (Cons b bs)
  show ?case
  proof (cases i)
    case 0
    have "store_bytes (m(a := b)) (a + 1) bs a = (m(a := b)) a"
    proof (rule store_bytes_outside)
      fix j assume "j < length bs"
      then have "(of_nat (Suc j) :: u64) \<noteq> of_nat 0"
        using Cons.prems(1) by (subst of_nat_u64_inj) auto
      then have "a + of_nat (Suc j) \<noteq> a" by simp
      then show "a \<noteq> a + 1 + of_nat j" by (simp add: ac_simps)
    qed
    with 0 show ?thesis by simp
  next
    case (Suc j)
    have "store_bytes (m(a := b)) (a + 1) bs (a + 1 + of_nat j) = bs ! j"
      using Cons.prems Suc by (intro Cons.IH) simp_all
    with Suc show ?thesis by (simp add: ac_simps)
  qed
qed

lemma load_store_same:
  "length bs < 2 ^ 64 \<Longrightarrow> load_bytes (store_bytes m a bs) a (length bs) = bs"
  by (rule nth_equalityI) (simp_all add: load_bytes_def store_bytes_inside)

text \<open>Two ranges of cells with no common cell; ranges of a block never wrap around.\<close>

definition apart :: "u64 \<Rightarrow> nat \<Rightarrow> u64 \<Rightarrow> nat \<Rightarrow> bool" where
  "apart a n b k \<longleftrightarrow> unat a + n \<le> unat b \<or> unat b + k \<le> unat a"

lemma load_store_apart:
  assumes "apart a (length bs) b k" and "unat a + length bs \<le> 2 ^ 64" and "unat b + k \<le> 2 ^ 64"
  shows "load_bytes (store_bytes m a bs) b k = load_bytes m b k"
proof (rule nth_equalityI)
  fix j
  assume "j < length (load_bytes (store_bytes m a bs) b k)"
  then have j: "j < k" by simp
  have "store_bytes m a bs (b + of_nat j) = m (b + of_nat j)"
  proof (rule store_bytes_outside)
    fix i assume i: "i < length bs"
    have "unat (a + of_nat i) = unat a + i" "unat (b + of_nat j) = unat b + j"
      using assms i j by (auto intro!: unat_offset)
    with assms(1) i j show "b + of_nat j \<noteq> a + of_nat i"
      by (auto simp: apart_def dest!: arg_cong [where f = unat])
  qed
  with j show "load_bytes (store_bytes m a bs) b k ! j = load_bytes m b k ! j"
    by (simp add: load_bytes_def)
qed simp

lemma in_block_bound: "in_block r a n \<Longrightarrow> unat a + n < 2 ^ 64"
  unfolding in_block_def using unat_lt64 [of "memorySize r"] by simp

lemma in_block_length: "in_block r a (length bs) \<Longrightarrow> length bs < 2 ^ 64"
  using in_block_bound [of r a "length bs"] by simp

section \<open>Properties\<close>

text \<open>Bytes stored in RAM are read back, and every load from a range that does not overlap is
  unchanged.\<close>

theorem ram_stores_and_loads:
  assumes "ram_write d a bs = Inr (fb, d')"
  shows "fb = MEMU_OK \<and> same_region d' d \<and> ram_read d' a (of_nat (length bs)) = Inr (MEMU_OK, Some bs, d') \<and>
    (\<forall>b n buf fb d0. apart a (length bs) b (unat n) \<and> ram_read d b n = Inr (fb, buf, d0) \<longrightarrow>
       ram_read d' b n = Inr (fb, buf, d'))"
proof -
  from assms have w: "in_block (devImpl d) a (length bs)" "fb = MEMU_OK"
    "d' = d\<lparr>devImpl := (devImpl d)\<lparr>memData := store_bytes (memData (devImpl d)) a bs\<rparr>\<rparr>"
    by (auto simp: ram_write_def Let_def split: if_splits)
  note l = in_block_length [OF w(1)] in_block_bound [OF w(1)]
  have "in_block (devImpl d') b n = in_block (devImpl d) b n" for b n by (simp add: w in_block_def)
  moreover have "load_bytes (store_bytes m a bs) b k = load_bytes m b k"
    if "apart a (length bs) b k" "in_block (devImpl d) b k" for m b k
    using load_store_apart [OF that(1)] l in_block_bound [OF that(2)] by simp
  ultimately show ?thesis
    using w l by (auto simp: ram_read_def Let_def load_store_same unat_of_nat take_bit_nat_eq_self same_region_def split: if_splits)
qed

theorem ram_stores_and_loads_witness:
  "returnsR (ram_write (new_ram (\<lambda>_. 7) 8) 2 [1, 2])
     (\<lambda>(fb, d'). ram_read d' 2 2 = Inr (MEMU_OK, Some [1, 2], d') \<and> ram_read d' 4 2 = Inr (MEMU_OK, Some [7, 7], d'))"
proof -
  let ?d = "new_ram (\<lambda>_. 7) 8"
  obtain d' where w: "ram_write ?d 2 [1, 2] = Inr (MEMU_OK, d')"
    by (simp add: ram_write_def new_ram_def in_block_def)
  moreover have "ram_read ?d 4 2 = Inr (MEMU_OK, Some [7, 7], ?d)"
    by (simp add: ram_read_def new_ram_def in_block_def load_bytes_def Let_def) (simp add: numeral_2_eq_2)
  moreover have "apart 2 (length [1 :: u8, 2]) 4 (unat 2)" by (simp add: apart_def)
  ultimately show ?thesis using ram_stores_and_loads [OF w] by (fastforce simp: w)
qed

end
