(* ===== verification/Uartlite.thy ===== *)
theory Uartlite
  imports Mmio_Device
begin

unbundle bit_operations_syntax

text \<open>
  The Xilinx uartlite console: the register file and the two FIFOs of
  \<open>modules/dev/uartlite/include/uartlite.hpp\<close> and the device object
  \<open>CemuUartAdapter\<close> of \<open>MMIODev_CemuUartAdapter.hpp\<close> that puts it on the bus and moves
  bytes between the FIFOs and a terminal. The two mutexes are left out: the emulator runs
  the device in one thread. The terminal is an environment: the bytes it receives are an
  output, the bytes it has ready are an input.
\<close>

section \<open>Registers and FIFOs\<close>

record uartlite_regs =
  rx_fifo :: u32
  tx_fifo :: u32
  ul_status :: u32
  control :: u32

record uartlite =
  regs :: uartlite_regs
  rx :: "u8 list"
  tx :: "u8 list"
  wait_ack :: bool

definition SR_TX_FIFO_EMPTY :: u32 where "SR_TX_FIFO_EMPTY = 4"
definition SR_RX_FIFO_VALID_DATA :: u32 where "SR_RX_FIFO_VALID_DATA = 1"
definition ULITE_CONTROL_RST_TX :: u32 where "ULITE_CONTROL_RST_TX = 1"
definition ULITE_CONTROL_RST_RX :: u32 where "ULITE_CONTROL_RST_RX = 2"

lemmas uart_bits = SR_TX_FIFO_EMPTY_def SR_RX_FIFO_VALID_DATA_def
  ULITE_CONTROL_RST_TX_def ULITE_CONTROL_RST_RX_def

definition new_uartlite :: uartlite where
  "new_uartlite =
     \<lparr>regs = \<lparr>rx_fifo = 0, tx_fifo = 0, ul_status = SR_TX_FIFO_EMPTY, control = 0\<rparr>,
      rx = [], tx = [], wait_ack = False\<rparr>"

text \<open>\<open>sizeof(regs)\<close>, the offsets of the registers, and the struct as the bytes \<open>memcpy\<close> sees.\<close>

definition sizeof_regs :: u64 where "sizeof_regs = 16"
definition off_rx_fifo :: u64 where "off_rx_fifo = 0"
definition off_tx_fifo :: u64 where "off_tx_fifo = 4"
definition off_control :: u64 where "off_control = 12"

lemmas uart_offsets = sizeof_regs_def off_rx_fifo_def off_tx_fifo_def off_control_def

definition regs_bytes :: "uartlite_regs \<Rightarrow> u8 list" where
  "regs_bytes r = array_bytes 4 [rx_fifo r, tx_fifo r, ul_status r, control r]"

definition regs_of_bytes :: "u8 list \<Rightarrow> uartlite_regs" where
  "regs_of_bytes bs =
     (let ws = array_of_bytes 4 4 bs
      in \<lparr>rx_fifo = ws ! 0, tx_fifo = ws ! 1, ul_status = ws ! 2, control = ws ! 3\<rparr>)"

lemma regs_of_bytes_bytes: "regs_of_bytes (regs_bytes r) = r"
proof -
  let ?ws = "[rx_fifo r, tx_fifo r, ul_status r, control r]"
  have "array_of_bytes 4 4 (array_bytes 4 ?ws) = ?ws"
    using array_of_bytes_array_bytes [of 4 ?ws] by (simp add: numeral_eq_Suc del: array_of_bytes.simps)
  then show ?thesis
    by (simp add: regs_of_bytes_def regs_bytes_def Let_def)
qed

lemma length_regs_bytes [simp]: "length (regs_bytes r) = 16"
  by (simp add: regs_bytes_def)

lemma regs_bytes_of_bytes: "length bs = 16 \<Longrightarrow> regs_bytes (regs_of_bytes bs) = bs"
proof -
  assume l: "length bs = 16"
  have "[ws ! 0, ws ! 1, ws ! 2, ws ! 3] = ws" if "length ws = 4" for ws :: "u32 list"
    using that by (intro nth_equalityI) (auto simp: less_Suc_eq numeral_eq_Suc)
  then have "[ws ! 0, ws ! 1, ws ! 2, ws ! 3] = ws" if "ws = array_of_bytes 4 4 bs" for ws :: "u32 list"
    using that by simp
  then show ?thesis
    using array_bytes_array_of_bytes [of 4 bs 4, where 'a = 32] l
    by (simp add: regs_bytes_def regs_of_bytes_def Let_def)
qed

section \<open>Accesses\<close>

text \<open>\<open>std::min(size, sizeof(regs) - start_addr)\<close>.\<close>

definition copy_len :: "u64 \<Rightarrow> u64 \<Rightarrow> nat" where
  "copy_len start_addr sz = unat (min sz (sizeof_regs - start_addr))"

definition uart_refresh :: "uartlite \<Rightarrow> uartlite" where
  "uart_refresh u =
     (case rx u of
        c # _ \<Rightarrow> u\<lparr>regs := (regs u)\<lparr>ul_status := ul_status (regs u) OR SR_RX_FIFO_VALID_DATA,
                                 rx_fifo := scast c\<rparr>\<rparr>
      | [] \<Rightarrow> u\<lparr>regs := (regs u)\<lparr>ul_status := ul_status (regs u) AND NOT SR_RX_FIFO_VALID_DATA\<rparr>\<rparr>)"

text \<open>The offset test of \<open>do_read\<close> and \<open>do_write\<close>: it includes the end of the access.\<close>

definition touches :: "u64 \<Rightarrow> u64 \<Rightarrow> u64 \<Rightarrow> bool" where
  "touches start_addr sz off \<longleftrightarrow> start_addr \<le> off \<and> off \<le> start_addr + sz"

definition uart_do_read :: "uartlite \<Rightarrow> u64 \<Rightarrow> u64 \<Rightarrow> (bool \<times> u8 list option \<times> uartlite) res" where
  "uart_do_read u start_addr sz =
     (if start_addr + sz > sizeof_regs then Inr (False, None, u)
      else
        let u1 = uart_refresh u in
        bindR (mem_get (regs_bytes (regs u1)) (unat start_addr) (copy_len start_addr sz)) (\<lambda>data.
        let u2 = u1\<lparr>wait_ack := False\<rparr>;
            u3 = (if touches start_addr sz off_rx_fifo then u2\<lparr>rx := tl (rx u2)\<rparr> else u2)
        in Inr (True, Some data, u3)))"

definition uart_do_write :: "uartlite \<Rightarrow> u64 \<Rightarrow> u8 list \<Rightarrow> (bool \<times> uartlite) res" where
  "uart_do_write u start_addr buffer =
     (let sz = of_nat (length buffer) in
      if start_addr + sz > sizeof_regs then Inr (False, u)
      else
        bindR (mem_put (regs_bytes (regs u)) (unat start_addr) (take (copy_len start_addr sz) buffer)) (\<lambda>bs.
        let u1 = u\<lparr>regs := regs_of_bytes bs\<rparr>;
            u2 = (if touches start_addr sz off_tx_fifo
                  then u1\<lparr>tx := tx u1 @ [ucast (tx_fifo (regs u1))]\<rparr> else u1);
            u3 = (if touches start_addr sz off_control
                  then (let v = (if control (regs u2) AND ULITE_CONTROL_RST_TX \<noteq> 0
                                 then u2\<lparr>tx := []\<rparr> else u2)
                        in if control (regs v) AND ULITE_CONTROL_RST_RX \<noteq> 0
                           then v\<lparr>rx := []\<rparr> else v)
                  else u2)
        in Inr (True, u3)))"

definition uart_putc :: "u8 \<Rightarrow> uartlite \<Rightarrow> uartlite" where
  "uart_putc c u = u\<lparr>rx := rx u @ [c]\<rparr>"

text \<open>\<open>EOF\<close> is \<open>-1\<close>, returned as a \<open>char\<close>.\<close>

definition uart_getc :: "uartlite \<Rightarrow> u8 \<times> uartlite" where
  "uart_getc u =
     (case tx u of
        res # rest \<Rightarrow> (res, u\<lparr>tx := rest, wait_ack := (if rest = [] then True else wait_ack u)\<rparr>)
      | [] \<Rightarrow> (-1, u))"

definition uart_exist_tx :: "uartlite \<Rightarrow> bool" where
  "uart_exist_tx u \<longleftrightarrow> tx u \<noteq> []"

definition uart_irq :: "uartlite \<Rightarrow> bool" where
  "uart_irq u \<longleftrightarrow> rx u \<noteq> [] \<or> wait_ack u"

section \<open>The device on the bus\<close>

definition uart_read :: "uartlite read_method" where
  "uart_read this begin_addr sz =
     assertR (begin_addr + sz \<le> addrRegionSize this)
       (bindR (uart_do_read (devImpl this) begin_addr sz) (\<lambda>(feedback, buffer, u).
        Inr (if feedback then MEMU_OK else MEMU_UNKNOWN, buffer, this\<lparr>devImpl := u\<rparr>)))"

definition uart_write :: "uartlite write_method" where
  "uart_write this begin_addr buffer =
     assertR (begin_addr + of_nat (length buffer) \<le> addrRegionSize this)
       (bindR (uart_do_write (devImpl this) begin_addr buffer) (\<lambda>(feedback, u).
        Inr (if feedback then MEMU_OK else MEMU_UNKNOWN, this\<lparr>devImpl := u\<rparr>)))"

definition uart_ops :: "uartlite dev_ops" where
  "uart_ops = \<lparr>ReadBuffer_MMIODev_API = uart_read, WriteBuffer_MMIODev_API = uart_write\<rparr>"

definition new_uart_dev :: "u64 \<Rightarrow> uartlite mmio_dev" where
  "new_uart_dev sz = \<lparr>devBaseAddr = 0, addrRegionSize = sz, devImpl = new_uartlite\<rparr>"

definition uart_GetIrqStatus :: "uartlite mmio_dev \<Rightarrow> bool" where
  "uart_GetIrqStatus this = uart_irq (devImpl this)"

text \<open>The transmit loop of \<open>Step_MMIODev_API\<close>: it ends because \<open>getc\<close> takes a byte off \<open>tx\<close>.\<close>

function uart_drain :: "uartlite \<Rightarrow> u8 list \<times> uartlite" where
  "uart_drain u =
     (if uart_exist_tx u
      then (let (c, u1) = uart_getc u; (out, u2) = uart_drain u1 in (c # out, u2))
      else ([], u))"
  by pat_completeness auto
termination
  by (relation "measure (\<lambda>u. length (tx u))")
    (auto simp: uart_exist_tx_def uart_getc_def split: list.splits)

declare uart_drain.simps [simp del]

text \<open>
  \<open>poll\<close> reports input or not (\<open>None\<close>); a \<open>read\<close> then yields at most 32 bytes, which are
  pushed one by one. The result holds the bytes written to the terminal.
\<close>

definition uart_Step :: "u8 list option \<Rightarrow> uartlite mmio_dev \<Rightarrow> u8 list \<times> uartlite mmio_dev" where
  "uart_Step input this =
     (let (out, u) = uart_drain (devImpl this);
          received = (case input of None \<Rightarrow> [] | Some bs \<Rightarrow> take 32 bs)
      in (out, this\<lparr>devImpl := fold uart_putc received u\<rparr>))"

section \<open>Lemmas\<close>

lemma no_wrap64:
  "unat (a :: u64) + unat b < 2 ^ 64 \<Longrightarrow> unat (a + b) = unat a + unat b"
  by (simp add: unat_word_ariths)

lemma length_uart_data:
  assumes "start_addr + sz \<le> sizeof_regs" and "unat sz < 2 ^ 63"
    and "mem_get (regs_bytes r) (unat start_addr) (copy_len start_addr sz) = Inr data"
  shows "length data = unat sz"
proof -
  have len: "length data = copy_len start_addr sz" using assms(3) by (rule length_mem_get)
  have "unat start_addr \<le> 16"
    using assms(3) by (auto simp: mem_get_def split: if_splits)
  then have "unat start_addr + unat sz \<le> 16"
    using assms(1,2) no_wrap64 [of start_addr sz] by (simp add: sizeof_regs_def word_le_nat_alt)
  then have "unat sz \<le> unat (sizeof_regs - start_addr)"
    by (simp add: sizeof_regs_def unat_sub word_le_nat_alt)
  then have "min sz (sizeof_regs - start_addr) = sz" by (simp add: word_le_nat_alt)
  then show ?thesis using len by (simp add: copy_len_def)
qed

interpretation uart: mmio_device uart_ops "\<lambda>_. True"
proof unfold_locales
  fix d a n fb bs d'
  assume "unat n < 2 ^ 63" "ReadBuffer_MMIODev_API uart_ops d a n = Inr (fb, Some bs, d')"
  then show "length bs = unat n"
    by (auto simp: uart_ops_def uart_read_def uart_do_read_def res_eq_Inr Let_def not_less
        split: if_splits intro: length_uart_data)
next
  fix d a n fb r d'
  assume "ReadBuffer_MMIODev_API uart_ops d a n = Inr (fb, r, d')"
  then show "same_region d' d"
    by (auto simp: uart_ops_def uart_read_def res_eq_Inr)
next
  fix d a bs fb d'
  assume "WriteBuffer_MMIODev_API uart_ops d a bs = Inr (fb, d')"
  then show "same_region d' d"
    by (auto simp: uart_ops_def uart_write_def res_eq_Inr)
qed simp_all

section \<open>The FIFOs and the registers\<close>

lemma uart_drain_spec:
  "uart_drain u = (tx u, u\<lparr>tx := [], wait_ack := (wait_ack u \<or> tx u \<noteq> [])\<rparr>)"
proof (induction u rule: uart_drain.induct)
  case (1 u)
  show ?case
  proof (cases "tx u")
    case Nil
    then show ?thesis by (simp add: uart_drain.simps [of u] uart_exist_tx_def)
  next
    case (Cons c cs)
    then show ?thesis
      using "1.IH" by (cases "cs = []") (simp_all add: uart_drain.simps [of u] uart_exist_tx_def uart_getc_def)
  qed
qed

lemma fold_putc: "fold uart_putc cs u = u\<lparr>rx := rx u @ cs\<rparr>"
  by (induction cs arbitrary: u) (simp_all add: uart_putc_def)

text \<open>The registers after a four-byte store at a register's offset.\<close>

lemma mem_put_reg:
  assumes "length bs = 4"
  shows "mem_put (regs_bytes r) 0 bs = Inr (regs_bytes (r\<lparr>rx_fifo := of_bytes bs\<rparr>))"
    and "mem_put (regs_bytes r) 4 bs = Inr (regs_bytes (r\<lparr>tx_fifo := of_bytes bs\<rparr>))"
    and "mem_put (regs_bytes r) 8 bs = Inr (regs_bytes (r\<lparr>ul_status := of_bytes bs\<rparr>))"
    and "mem_put (regs_bytes r) 12 bs = Inr (regs_bytes (r\<lparr>control := of_bytes bs\<rparr>))"
proof -
  have b: "to_bytes 4 (of_bytes bs :: u32) = bs"
    using to_bytes_of_bytes [of bs, where 'a = 32] assms by simp
  show "mem_put (regs_bytes r) 0 bs = Inr (regs_bytes (r\<lparr>rx_fifo := of_bytes bs\<rparr>))"
    and "mem_put (regs_bytes r) 4 bs = Inr (regs_bytes (r\<lparr>tx_fifo := of_bytes bs\<rparr>))"
    and "mem_put (regs_bytes r) 8 bs = Inr (regs_bytes (r\<lparr>ul_status := of_bytes bs\<rparr>))"
    and "mem_put (regs_bytes r) 12 bs = Inr (regs_bytes (r\<lparr>control := of_bytes bs\<rparr>))"
    using assms by (simp_all add: mem_put_def regs_bytes_def array_bytes_def b)
qed

lemma mem_get_rx: "mem_get (regs_bytes r) 0 4 = Inr (to_bytes 4 (rx_fifo r))"
  by (simp add: mem_get_def regs_bytes_def array_bytes_def)

lemma write_word:
  assumes "length bs = 4"
  shows "uart_do_write u 4 bs =
     Inr (True, u\<lparr>regs := (regs u)\<lparr>tx_fifo := of_bytes bs\<rparr>, tx := tx u @ [ucast (of_bytes bs :: u32)]\<rparr>)"
   "uart_do_write u 0 bs =
     Inr (True, u\<lparr>regs := (regs u)\<lparr>rx_fifo := of_bytes bs\<rparr>, tx := tx u @ [ucast (tx_fifo (regs u))]\<rparr>)"
  using assms mem_put_reg [OF assms]
  by (simp_all add: uart_do_write_def Let_def copy_len_def uart_offsets touches_def regs_of_bytes_bytes)

lemma write_status:
  assumes "length bs = 4"
  shows "uart_do_write u 8 bs =
     Inr (True, u\<lparr>regs := (regs u)\<lparr>ul_status := of_bytes bs\<rparr>,
       tx := (if control (regs u) AND ULITE_CONTROL_RST_TX \<noteq> 0 then [] else tx u),
       rx := (if control (regs u) AND ULITE_CONTROL_RST_RX \<noteq> 0 then [] else rx u)\<rparr>)"
  using assms mem_put_reg [OF assms]
  by (simp add: uart_do_write_def Let_def copy_len_def uart_offsets touches_def regs_of_bytes_bytes)

lemma read_rx:
  "uart_do_read u 0 4 =
     (let u' = uart_refresh u in
      Inr (True, Some (to_bytes 4 (rx_fifo (regs u'))), u'\<lparr>wait_ack := False, rx := tl (rx u)\<rparr>))"
  by (simp add: uart_do_read_def Let_def copy_len_def uart_offsets touches_def mem_get_rx)
   (simp add: uart_refresh_def split: list.splits)

section \<open>Properties\<close>

text \<open>A guest that sends bytes one register store at a time, and one that reads them.\<close>

primrec guest_puts :: "u8 list \<Rightarrow> uartlite \<Rightarrow> uartlite res" where
  "guest_puts [] u = Inr u"
| "guest_puts (c # cs) u =
     bindR (uart_do_write u off_tx_fifo (to_bytes 4 (ucast c :: u32))) (\<lambda>(_, u'). guest_puts cs u')"

primrec guest_gets :: "nat \<Rightarrow> uartlite \<Rightarrow> (u8 list \<times> uartlite) res" where
  "guest_gets 0 u = Inr ([], u)"
| "guest_gets (Suc n) u =
     bindR (uart_do_read u off_rx_fifo 4) (\<lambda>(_, buf, u1).
     bindR (initialised buf) (\<lambda>bs.
     bindR (guest_gets n u1) (\<lambda>(cs, u2). Inr (ucast (of_bytes bs :: u32) # cs, u2))))"

text \<open>The bytes a guest stores to the transmit register reach the terminal at the next step of
  the device in order, after the bytes already queued, and the queue is empty afterwards.\<close>

theorem uart_transmits:
  "returnsR (guest_puts cs (devImpl d)) (\<lambda>u.
     let (out, d') = uart_Step input (d\<lparr>devImpl := u\<rparr>)
     in out = tx (devImpl d) @ cs \<and> tx (devImpl d') = [])"
proof -
  have "returnsR (guest_puts cs u) (\<lambda>u'. tx u' = tx u @ cs)" for u
  proof (induction cs arbitrary: u)
    case Nil
    then show ?case by simp
  next
    case (Cons c cs)
    show ?case
      by (simp add: off_tx_fifo_def write_word of_bytes_to_bytes_full)
        (rule returnsR_mono [OF Cons.IH], simp add: byte_casts)
  qed
  from returnsR_mono [OF this] show ?thesis
    by (auto simp: uart_Step_def uart_drain_spec fold_putc)
qed

lemma read_rx_cons:
  "rx u = c # cs \<Longrightarrow> returnsR (uart_do_read u off_rx_fifo 4)
     (\<lambda>(ok, buf, u'). (\<exists>bs. buf = Some bs \<and> ucast (of_bytes bs :: u32) = c) \<and> rx u' = cs \<and> \<not> wait_ack u')"
  by (simp add: off_rx_fifo_def read_rx Let_def uart_refresh_def of_bytes_to_bytes_full byte_casts)

text \<open>Reading the receive register as often as there are bytes queued yields the queued bytes in
  order and clears the interrupt.\<close>

theorem uart_receives:
  "returnsR (guest_gets (length (rx u)) u) (\<lambda>(cs, u'). cs = rx u \<and> rx u' = [] \<and>
     (uart_irq u' \<longleftrightarrow> rx u = [] \<and> wait_ack u))"
proof -
  have "returnsR (guest_gets (length cs) u) (\<lambda>(ds, u'). ds = cs \<and> rx u' = [] \<and>
     (uart_irq u' \<longleftrightarrow> cs = [] \<and> wait_ack u))" if "rx u = cs" for cs
    using that
  proof (induction cs arbitrary: u)
    case Nil
    then show ?case by (simp add: uart_irq_def)
  next
    case (Cons c cs)
    show ?case
      using read_rx_cons [OF Cons.prems] Cons.IH
      by (fastforce simp: returnsR_iff)
  qed
  then show ?thesis by simp
qed

end
