(* ===== verification/Clint.thy ===== *)
theory Clint
  imports Mmio_Device
begin

unbundle bit_operations_syntax

text \<open>
  The core-local interruptor: \<open>RVCoreLocalInt<nr_hart>\<close> of
  \<open>modules/intc/rv_clint/include/RVCoreLocalInt.hpp\<close> (the template parameter is the first
  argument of the operations) and its device object \<open>CemuClintAdapter\<close> of
  \<open>ClintIntCtrl_CEmuAdapter.h\<close>, which publishes the timer and software interrupt lines to
  the two cores. The table of registered devices of the adapter is only written, never read; its
  operations are in theory IntCtrl.
\<close>

section \<open>The register block\<close>

record clint =
  mtime :: u64
  mtimecmp :: "u64 list"
  msip :: "u32 list"

definition new_clint :: "nat \<Rightarrow> clint" where
  "new_clint nr_hart = \<lparr>mtime = 0, mtimecmp = replicate nr_hart 0, msip = replicate nr_hart 0\<rparr>"

definition clint_do_read :: "nat \<Rightarrow> clint \<Rightarrow> u64 \<Rightarrow> u64 \<Rightarrow> (bool \<times> u8 list option) res" where
  "clint_do_read nr_hart c start_addr sz =
     (if start_addr \<ge> 0x4000 then
        if start_addr \<ge> 0xbff8 \<and> start_addr + sz \<le> 0xc000 then
          bindR (mem_get (to_bytes 8 (mtime c)) (unat (start_addr - 0xbff8)) (unat sz))
            (\<lambda>buffer. Inr (True, Some buffer))
        else if start_addr \<ge> 0x4000 \<and> start_addr + sz \<le> 0x4000 + 8 * of_nat nr_hart then
          bindR (mem_get (array_bytes 8 (mtimecmp c)) (unat (start_addr - 0x4000)) (unat sz))
            (\<lambda>buffer. Inr (True, Some buffer))
        else Inr (False, None)
      else
        if start_addr + sz \<le> 4 * of_nat nr_hart then
          bindR (mem_get (array_bytes 4 (msip c)) (unat start_addr) (unat sz))
            (\<lambda>buffer. Inr (True, Some buffer))
        else Inr (False, None))"

definition clint_do_write :: "nat \<Rightarrow> clint \<Rightarrow> u64 \<Rightarrow> u8 list \<Rightarrow> (bool \<times> clint) res" where
  "clint_do_write nr_hart c start_addr buffer =
     (let sz = of_nat (length buffer) in
      if start_addr \<ge> 0x4000 then
        if start_addr \<ge> 0xbff8 \<and> start_addr + sz \<le> 0xc000 then
          bindR (mem_put (to_bytes 8 (mtime c)) (unat (start_addr - 0xbff8)) buffer)
            (\<lambda>bs. Inr (True, c\<lparr>mtime := of_bytes bs\<rparr>))
        else if start_addr \<ge> 0x4000 \<and> start_addr + sz \<le> 0x4000 + 8 * of_nat nr_hart then
          bindR (mem_put (array_bytes 8 (mtimecmp c)) (unat (start_addr - 0x4000)) buffer)
            (\<lambda>bs. Inr (True, c\<lparr>mtimecmp := array_of_bytes 8 nr_hart bs\<rparr>))
        else Inr (False, c)
      else
        if start_addr + sz \<le> 4 * of_nat nr_hart then
          bindR (mem_put (array_bytes 4 (msip c)) (unat start_addr) buffer)
            (\<lambda>bs. Inr (True, c\<lparr>msip := map (\<lambda>m. m AND 1) (array_of_bytes 4 nr_hart bs)\<rparr>))
        else Inr (False, c))"

definition clint_tick :: "clint \<Rightarrow> clint" where
  "clint_tick c = c\<lparr>mtime := mtime c + 1\<rparr>"

definition m_s_irq :: "nat \<Rightarrow> clint \<Rightarrow> nat \<Rightarrow> bool res" where
  "m_s_irq nr_hart c hart_id =
     (if hart_id \<ge> nr_hart then Inl AssertionFailure
      else bindR (aget (msip c) hart_id) (\<lambda>m. Inr (m AND 1 \<noteq> 0)))"

definition m_t_irq :: "nat \<Rightarrow> clint \<Rightarrow> nat \<Rightarrow> bool res" where
  "m_t_irq nr_hart c hart_id =
     (if hart_id \<ge> nr_hart then Inl AssertionFailure
      else bindR (aget (mtimecmp c) hart_id) (\<lambda>t. Inr (mtime c > t)))"

section \<open>The device on the bus\<close>

text \<open>The core's interrupt lines, written by the interrupt controllers (\<open>rv64_int_status.h\<close>).\<close>

record IntStatus =
  meip :: bool
  ist_msip :: bool
  mtip :: bool
  seip :: bool

definition clint_harts :: nat where "clint_harts = 2"

definition new_clint_dev :: "u64 \<Rightarrow> clint mmio_dev" where
  "new_clint_dev sz =
     \<lparr>devBaseAddr = 0, addrRegionSize = sz, devImpl = new_clint clint_harts\<rparr>"

definition clint_read :: "clint read_method" where
  "clint_read this begin_addr sz =
     assertR (begin_addr + sz \<le> addrRegionSize this)
       (bindR (clint_do_read clint_harts (devImpl this) begin_addr sz) (\<lambda>(feedback, buffer).
        Inr (if feedback then MEMU_OK else MEMU_UNKNOWN, buffer, this)))"

definition clint_write :: "clint write_method" where
  "clint_write this begin_addr buffer =
     assertR (begin_addr + of_nat (length buffer) \<le> addrRegionSize this)
       (bindR (clint_do_write clint_harts (devImpl this) begin_addr buffer) (\<lambda>(feedback, c).
        Inr (if feedback then MEMU_OK else MEMU_UNKNOWN, this\<lparr>devImpl := c\<rparr>)))"

definition clint_ops :: "clint dev_ops" where
  "clint_ops = \<lparr>ReadBuffer_MMIODev_API = clint_read, WriteBuffer_MMIODev_API = clint_write\<rparr>"

text \<open>\<open>UpdateIntState_IntCtrl_API\<close>: one tick, then the lines of core 0 and core 1.\<close>

definition clint_UpdateIntState ::
    "clint mmio_dev \<Rightarrow> IntStatus \<Rightarrow> IntStatus \<Rightarrow> (clint mmio_dev \<times> IntStatus \<times> IntStatus) res" where
  "clint_UpdateIntState this core0 core1 =
     (let c = clint_tick (devImpl this) in
      bindR (m_s_irq clint_harts c 0) (\<lambda>s0.
      bindR (m_t_irq clint_harts c 0) (\<lambda>t0.
      bindR (m_s_irq clint_harts c 1) (\<lambda>s1.
      bindR (m_t_irq clint_harts c 1) (\<lambda>t1.
      Inr (this\<lparr>devImpl := c\<rparr>, core0\<lparr>ist_msip := s0, mtip := t0\<rparr>,
           core1\<lparr>ist_msip := s1, mtip := t1\<rparr>))))))"

section \<open>Invariant\<close>

definition clint_wf :: "nat \<Rightarrow> clint \<Rightarrow> bool" where
  "clint_wf nr_hart c \<longleftrightarrow> length (mtimecmp c) = nr_hart \<and> length (msip c) = nr_hart \<and>
     (\<forall>m \<in> set (msip c). m = 0 \<or> m = 1)"

lemma clint_wf_new: "clint_wf n (new_clint n)"
  by (simp add: clint_wf_def new_clint_def)

lemma and_one_not_one: "m AND 1 \<noteq> 1 \<Longrightarrow> m AND 1 = (0 :: 'a::len word)"
  by (cases "even m") (simp_all add: and_one_eq mod2_eq_if)

lemma clint_wf_tick: "clint_wf n c \<Longrightarrow> clint_wf n (clint_tick c)"
  by (simp add: clint_wf_def clint_tick_def)

lemma clint_wf_write: "clint_wf n c \<Longrightarrow> clint_do_write n c a bs = Inr (ok, c') \<Longrightarrow> clint_wf n c'"
  by (auto simp: clint_do_write_def clint_wf_def Let_def res_eq_Inr split: if_splits dest: and_one_not_one)

lemma clint_read_length: "clint_do_read n c a sz = Inr (ok, Some bs) \<Longrightarrow> length bs = unat sz"
  by (auto simp: clint_do_read_def res_eq_Inr split: if_splits dest: length_mem_get)

definition clint_inv :: "clint mmio_dev \<Rightarrow> bool" where
  "clint_inv d \<longleftrightarrow> clint_wf clint_harts (devImpl d)"

interpretation clint: mmio_device clint_ops clint_inv
proof unfold_locales
  fix d a n fb bs d'
  assume "ReadBuffer_MMIODev_API clint_ops d a n = Inr (fb, Some bs, d')"
  then show "length bs = unat n"
    by (auto simp: clint_ops_def clint_read_def res_eq_Inr dest: clint_read_length)
next
  fix d a n fb r d'
  assume "clint_inv d" "ReadBuffer_MMIODev_API clint_ops d a n = Inr (fb, r, d')"
  then show "same_region d' d" and "clint_inv d'"
    by (auto simp: clint_ops_def clint_read_def res_eq_Inr same_region_def)
next
  fix d a bs fb d'
  assume "clint_inv d" "WriteBuffer_MMIODev_API clint_ops d a bs = Inr (fb, d')"
  then show "same_region d' d" and "clint_inv d'"
    by (auto simp: clint_ops_def clint_write_def res_eq_Inr clint_inv_def dest: clint_wf_write)
qed

text \<open>The lines a well-formed block drives: no assertion fails and no array is overrun.\<close>

lemma m_s_irq_wf: "clint_wf n c \<Longrightarrow> h < n \<Longrightarrow> m_s_irq n c h = Inr (msip c ! h = 1)"
proof -
  assume "clint_wf n c" "h < n"
  then have "h < length (msip c)" "msip c ! h = 0 \<or> msip c ! h = 1"
    by (simp_all add: clint_wf_def)
  with \<open>h < n\<close> show ?thesis by (auto simp: m_s_irq_def)
qed

lemma m_t_irq_wf: "clint_wf n c \<Longrightarrow> h < n \<Longrightarrow> m_t_irq n c h = Inr (mtimecmp c ! h < mtime c)"
  by (auto simp: m_t_irq_def clint_wf_def)

section \<open>Properties\<close>

text \<open>C19: A store of a whole register through the byte view of the CLINT changes that register alone:
  mtimecmp of one hart, the low bit of msip of one hart, or mtime.\<close>

theorem clint_register_writes:
  assumes "clint_wf n c" and "h < n" and "n \<le> 4095"
  shows "clint_do_write n c (0x4000 + of_nat (8 * h)) (to_bytes 8 v) =
           Inr (True, c\<lparr>mtimecmp := (mtimecmp c)[h := v]\<rparr>) \<and>
         clint_do_write n c (of_nat (4 * h)) (to_bytes 4 w) =
           Inr (True, c\<lparr>msip := (msip c)[h := w AND 1]\<rparr>) \<and>
         clint_do_write n c 0xbff8 (to_bytes 8 v) = Inr (True, c\<lparr>mtime := v\<rparr>)"
proof -
  have l: "length (mtimecmp c) = n" "length (msip c) = n" and "\<forall>m \<in> set (msip c). m AND 1 = m"
    using assms(1) by (auto simp: clint_wf_def)
  then have m: "\<And>k. k < n \<Longrightarrow> msip c ! k AND 1 = msip c ! k" by simp
  have "map (\<lambda>m. m AND 1) ((msip c)[h := w]) = (msip c)[h := w AND 1]"
    using assms(2) l m by (auto intro!: nth_equalityI simp: nth_list_update)
  moreover have "array_of_bytes 4 n (array_bytes 4 ((msip c)[h := w])) = (msip c)[h := w]"
    using array_of_bytes_array_bytes [of 4 "(msip c)[h := w]"] l by simp
  moreover have "array_of_bytes 8 n (array_bytes 8 ((mtimecmp c)[h := v])) = (mtimecmp c)[h := v]"
    using array_of_bytes_array_bytes [of 8 "(mtimecmp c)[h := v]"] l by simp
  moreover have a: "unat (0x4000 + of_nat (8 * h) :: u64) = 0x4000 + 8 * h" "unat (of_nat (8 * h) :: u64) = 8 * h"
      "unat (of_nat (4 * h) :: u64) = 4 * h" "unat (of_nat (4 * h) + 4 :: u64) = 4 * h + 4"
      "unat (0x4000 + of_nat (8 * h) + 8 :: u64) = 0x4000 + 8 * h + 8"
      "unat (0x4000 + 8 * of_nat n :: u64) = 0x4000 + 8 * n" "unat (4 * of_nat n :: u64) = 4 * n"
    using assms(2,3) by (simp_all add: unat_word_ariths unat_of_nat)
  ultimately show ?thesis
    using assms(2,3) l mem_put_array [of h "mtimecmp c" 8 v] mem_put_array [of h "msip c" 4 w]
      mem_put_array [of 0 "[mtime c]" 8 v]
    by (auto simp: clint_do_write_def Let_def word_le_nat_alt array_bytes_def of_bytes_to_bytes_full)
qed

text \<open>The timer line of a hart is asserted after k ticks exactly when mtime plus k exceeds its
  mtimecmp.\<close>

theorem clint_timer_fires:
  assumes "clint_wf n c" and "h < n" and "unat (mtime c) + k < 2 ^ 64"
  shows "m_t_irq n ((clint_tick ^^ k) c) h = Inr (unat (mtimecmp c ! h) < unat (mtime c) + k)"
proof -
  have "(clint_tick ^^ k) c = c\<lparr>mtime := mtime c + of_nat k\<rparr>"
    by (induction k) (simp_all add: clint_tick_def add_ac)
  moreover have "clint_wf n (c\<lparr>mtime := t\<rparr>)" for t using assms(1) by (simp add: clint_wf_def)
  ultimately show ?thesis
    using assms(2) m_t_irq_wf [of n "c\<lparr>mtime := mtime c + of_nat k\<rparr>" h] unat_offset [OF assms(3)]
    by (simp add: word_less_nat_alt)
qed

theorem clint_register_writes_witness:
  "clint_do_write 2 (new_clint 2) 0x4008 (to_bytes 8 (5 :: u64)) =
     Inr (True, (new_clint 2)\<lparr>mtimecmp := (mtimecmp (new_clint 2))[1 := 5]\<rparr>)"
  using clint_register_writes [OF clint_wf_new [of 2], of 1 5] by simp

theorem clint_timer_fires_witness:
  "m_t_irq 2 ((clint_tick ^^ 3) (new_clint 2)) 1 = Inr True"
  using clint_timer_fires [OF clint_wf_new [of 2], of 1 3] by (simp add: new_clint_def)

end
