(* ===== verification/IntCtrl.thy ===== *)
theory IntCtrl
  imports Prelude
begin

text \<open>
  What the two interrupt controllers share: the table of registered devices, which both adapters
  keep as a \<open>std::map\<close> from interrupt numbers to devices, and the pointers to the interrupt
  status of the cores (\<open>include/interface/IntCtrl.h\<close>, \<open>ClintIntCtrl_CEmuAdapter.h\<close>,
  \<open>PLICIntCtrl_CEmuAdapter.h\<close>). Devices and status words are handles.
\<close>

section \<open>The device table\<close>

type_synonym dev_map = "(nat \<times> nat) list"

definition dev_map_register :: "nat \<Rightarrow> nat \<Rightarrow> dev_map \<Rightarrow> FuncReturnFeedback_e \<times> dev_map" where
  "dev_map_register int_id dev m =
     (if int_id \<in> fst ` set m then (MEMU_INTNUM_CONFLICT, m)
      else (MEMU_OK, insort_key fst (int_id, dev) m))"

definition dev_map_unregister :: "nat \<Rightarrow> dev_map \<Rightarrow> FuncReturnFeedback_e \<times> dev_map" where
  "dev_map_unregister int_id m =
     (if int_id \<notin> fst ` set m then (MEMU_NOT_FOUND, m)
      else (MEMU_OK, filter (\<lambda>p. fst p \<noteq> int_id) m))"

text \<open>The overload on a device finds its first interrupt number.\<close>

definition dev_map_unregister_dev :: "nat \<Rightarrow> dev_map \<Rightarrow> FuncReturnFeedback_e \<times> dev_map" where
  "dev_map_unregister_dev dev m =
     (case find (\<lambda>p. snd p = dev) m of
        Some p \<Rightarrow> dev_map_unregister (fst p) m
      | None \<Rightarrow> (MEMU_NOT_FOUND, m))"

definition dev_map_ok :: "dev_map \<Rightarrow> bool" where
  "dev_map_ok m \<longleftrightarrow> sorted (map fst m) \<and> distinct (map fst m)"

lemma dev_map_ok_Nil [simp]: "dev_map_ok []"
  by (simp add: dev_map_ok_def)

lemma dev_map_ok_register: "dev_map_ok m \<Longrightarrow> dev_map_ok (snd (dev_map_register i d m))"
proof -
  have "distinct (map fst m) \<Longrightarrow> i \<notin> fst ` set m \<Longrightarrow> distinct (map fst (insort_key fst (i, d) m))"
    by (induction m) (auto simp: set_insort_key)
  then show "dev_map_ok m \<Longrightarrow> ?thesis"
    by (simp add: dev_map_ok_def dev_map_register_def sorted_insort_key)
qed

lemma dev_map_ok_filter: "dev_map_ok m \<Longrightarrow> dev_map_ok (filter P m)"
  by (simp add: dev_map_ok_def sorted_filter distinct_map_filter)

lemma dev_map_ok_unregister:
  "dev_map_ok m \<Longrightarrow> dev_map_ok (snd (dev_map_unregister i m))"
  "dev_map_ok m \<Longrightarrow> dev_map_ok (snd (dev_map_unregister_dev d m))"
  by (simp_all add: dev_map_unregister_def dev_map_unregister_dev_def dev_map_ok_filter split: option.split)

text \<open>As a map: a free number is bound, a taken one refused, and unregistering frees it.\<close>

lemma register_map_of:
  "map_of (snd (dev_map_register i d m)) = (if map_of m i = None then (map_of m)(i \<mapsto> d) else map_of m)"
proof -
  have "i \<notin> fst ` set m \<Longrightarrow> map_of (insort_key fst (i, d) m) = (map_of m)(i \<mapsto> d)"
    by (induction m) auto
  then show ?thesis by (simp add: dev_map_register_def map_of_eq_None_iff)
qed

lemma unregister_map_of: "map_of (snd (dev_map_unregister i m)) = (map_of m)(i := None)"
proof -
  have "map_of (filter (\<lambda>p. fst p \<noteq> i) m) = (map_of m)(i := None)"
    by (induction m) auto
  moreover have "i \<notin> fst ` set m \<Longrightarrow> (map_of m)(i := None) = map_of m"
    by (rule fun_upd_idem) (simp add: map_of_eq_None_iff)
  ultimately show ?thesis by (simp add: dev_map_unregister_def)
qed

section \<open>The pointers to the cores\<close>

record int_ctrl_ptrs =
  intStatusPtrs :: "nat option list"
  core0IntStatus :: "nat option"
  core1IntStatus :: "nat option"

text \<open>The constructor makes room for ten cores; the two shortcuts start uninitialised.\<close>

definition new_int_ctrl_ptrs :: "int_ctrl_ptrs" where
  "new_int_ctrl_ptrs = \<lparr>intStatusPtrs = replicate 10 None, core0IntStatus = None, core1IntStatus = None\<rparr>"

definition AttachCoreIntStatus :: "nat \<Rightarrow> nat \<Rightarrow> int_ctrl_ptrs \<Rightarrow> (FuncReturnFeedback_e \<times> int_ctrl_ptrs) res" where
  "AttachCoreIntStatus int_status hart_id p =
     bindR (aset (intStatusPtrs p) hart_id (Some int_status)) (\<lambda>ptrs.
     bindR (aget ptrs 0) (\<lambda>p0.
     bindR (aget ptrs 1) (\<lambda>p1.
     Inr (MEMU_OK, \<lparr>intStatusPtrs = ptrs, core0IntStatus = p0, core1IntStatus = p1\<rparr>))))"

text \<open>Attaching the two cores, in either order, sets both shortcuts.\<close>

lemma attach_both_cores:
  "bindR (AttachCoreIntStatus s0 0 new_int_ctrl_ptrs) (\<lambda>(_, p). AttachCoreIntStatus s1 1 p) =
   bindR (AttachCoreIntStatus s1 1 new_int_ctrl_ptrs) (\<lambda>(_, p). AttachCoreIntStatus s0 0 p)"
  "returnsR (bindR (AttachCoreIntStatus s0 0 new_int_ctrl_ptrs) (\<lambda>(_, p). AttachCoreIntStatus s1 1 p))
     (\<lambda>(fb, p). fb = MEMU_OK \<and> core0IntStatus p = Some s0 \<and> core1IntStatus p = Some s1)"
  by (simp_all add: AttachCoreIntStatus_def new_int_ctrl_ptrs_def)
    (rule list_update_swap, simp)

lemma attach_out_of_range:
  "10 \<le> hart_id \<Longrightarrow> AttachCoreIntStatus s hart_id new_int_ctrl_ptrs = Inl OutOfBounds"
  by (simp add: AttachCoreIntStatus_def new_int_ctrl_ptrs_def aset_def)

end
