(* ===== verification/Plic.thy ===== *)
theory Plic
  imports Clint IntCtrl
begin

unbundle bit_operations_syntax

text \<open>
  The platform-level interrupt controller: \<open>RVPLICtrl<nr_source, nr_context>\<close> of
  \<open>modules/intc/rv_plic/include/RVPLICtrl.hpp\<close> and its device object \<open>CemuPlicAdapter\<close> of
  \<open>PLICIntCtrl_CEmuAdapter.h\<close>. The template parameters are the lengths of the arrays of
  the state; every index is checked, because an access outside an array is undefined.
\<close>

section \<open>State\<close>

record plic =
  nr_source :: nat
  nr_context :: nat
  priority :: "u32 list"
  pending :: "u32 list"
  enable :: "u32 list list"
  threshold :: "u32 list"
  claim :: "u32 list"
  claimed :: "u32 list"

text \<open>\<open>(nr_source + 1 + 31) / 32\<close>: the words of a bitmap of all sources.\<close>

definition bitmap_words :: "nat \<Rightarrow> nat" where
  "bitmap_words ns = (ns + 1 + 31) div 32"

definition new_plic :: "nat \<Rightarrow> nat \<Rightarrow> plic" where
  "new_plic ns nc =
     \<lparr>nr_source = ns, nr_context = nc, priority = replicate (ns + 1) 0,
      pending = replicate (bitmap_words ns) 0,
      enable = replicate nc (replicate (bitmap_words ns) 0),
      threshold = replicate nc 0, claim = replicate nc 0,
      claimed = replicate (bitmap_words ns) 0\<rparr>"

section \<open>Operations\<close>

definition source_bit :: "nat \<Rightarrow> u32" where
  "source_bit i = push_bit (i mod 32) 1"

definition update_ext :: "plic \<Rightarrow> nat \<Rightarrow> bool \<Rightarrow> plic res" where
  "update_ext p source_id fired =
     (if fired then
        bindR (aget (pending p) (source_id div 32)) (\<lambda>w.
        bindR (aset (pending p) (source_id div 32) (w OR source_bit source_id)) (\<lambda>ws.
        Inr (p\<lparr>pending := ws\<rparr>)))
      else Inr p)"

text \<open>Bit \<open>i\<close> of a bitmap.\<close>

definition bitmap_get :: "u32 list \<Rightarrow> nat \<Rightarrow> bool res" where
  "bitmap_get ws i = bindR (aget ws (i div 32)) (\<lambda>w. Inr (bit w (i mod 32)))"

text \<open>The conjunction of the loop of \<open>get_int\<close>, evaluated from left to right.\<close>

definition plic_candidate :: "plic \<Rightarrow> nat \<Rightarrow> nat \<Rightarrow> bool res" where
  "plic_candidate p context_id i =
     bindR (aget (priority p) i) (\<lambda>pr.
     bindR (aget (threshold p) context_id) (\<lambda>th.
     if \<not> pr \<ge> th then Inr False else
     bindR (bitmap_get (pending p) i) (\<lambda>pe.
     if \<not> pe then Inr False else
     bindR (aget (enable p) context_id) (\<lambda>en.
     bindR (bitmap_get en i) (\<lambda>e.
     if \<not> e then Inr False else
     bindR (bitmap_get (claimed p) i) (\<lambda>cl. Inr (\<not> cl)))))))"

fun plic_scan :: "plic \<Rightarrow> nat \<Rightarrow> nat list \<Rightarrow> u64 \<Rightarrow> u64 \<Rightarrow> (u64 \<times> u64) res" where
  "plic_scan p context_id [] max_priority max_priority_int = Inr (max_priority, max_priority_int)"
| "plic_scan p context_id (i # is) max_priority max_priority_int =
     bindR (plic_candidate p context_id i) (\<lambda>cand.
     if cand then
       bindR (aget (priority p) i) (\<lambda>pr.
       if ucast pr > max_priority
       then plic_scan p context_id is (ucast pr) (of_nat i)
       else plic_scan p context_id is max_priority max_priority_int)
     else plic_scan p context_id is max_priority max_priority_int)"

definition get_int :: "plic \<Rightarrow> nat \<Rightarrow> (bool \<times> plic) res" where
  "get_int p context_id =
     bindR (plic_scan p context_id [1..<Suc (nr_source p)] 0 0) (\<lambda>(_, max_priority_int).
     bindR (aset (claim p) context_id (if max_priority_int \<noteq> 0 then ucast max_priority_int else 0)) (\<lambda>cs.
     bindR (aget cs context_id) (\<lambda>c.
     Inr (c \<noteq> 0, p\<lparr>claim := cs\<rparr>))))"

definition plic_do_read :: "plic \<Rightarrow> u64 \<Rightarrow> u64 \<Rightarrow> (bool \<times> u8 list option \<times> plic) res" where
  "plic_do_read p start_addr sz =
     (let ns = of_nat (nr_source p); nc = of_nat (nr_context p) in
      assertR (sz = 4)
      (if start_addr + sz \<le> 0x1000 then
         if start_addr = 0 then Inr (False, None, p)
         else if start_addr > 4 * ns \<or> start_addr + sz > 4 * (ns + 1) then Inr (False, None, p)
         else bindR (aget (priority p) (unat (start_addr div 4))) (\<lambda>w. Inr (True, Some (to_bytes 4 w), p))
       else if start_addr + sz \<le> 0x1080 then
         let idx = (start_addr - 0x1000) div 4 in
         if idx > ns then Inr (False, None, p)
         else bindR (aget (pending p) (unat idx)) (\<lambda>w. Inr (True, Some (to_bytes 4 w), p))
       else if start_addr + sz \<le> 0x2000 then Inr (False, None, p)
       else if start_addr + sz \<le> 0x200000 then
         let context_id = (start_addr - 0x2000) div 0x80; pos = start_addr mod 0x80 in
         if context_id \<ge> nc then Inr (False, None, p)
         else if pos > ns then Inr (False, None, p)
         else bindR (aget (enable p) (unat context_id)) (\<lambda>en.
              bindR (aget en (unat pos)) (\<lambda>w. Inr (True, Some (to_bytes 4 w), p)))
       else
         let context_id = (start_addr - 0x200000) div 0x1000; offset = start_addr mod 0x1000 in
         if context_id > nc then Inr (False, None, p)
         else if offset = 0 then
           bindR (aget (threshold p) (unat context_id)) (\<lambda>w. Inr (True, Some (to_bytes 4 w), p))
         else if offset = 4 then
           bindR (aget (claim p) (unat context_id)) (\<lambda>c.
           bindR (aget (claimed p) (unat (c div 32))) (\<lambda>w.
           bindR (aset (claimed p) (unat (c div 32)) (w OR push_bit (unat (c mod 32)) 1)) (\<lambda>ws.
           Inr (True, Some (to_bytes 4 c), p\<lparr>claimed := ws\<rparr>))))
         else Inr (False, None, p)))"

text \<open>\<open>do_write\<close> has no size test: it reads four bytes of the caller's buffer where it stores.\<close>

definition buf_word :: "u8 list \<Rightarrow> u32 res" where
  "buf_word buffer = bindR (mem_get buffer 0 4) (\<lambda>bs. Inr (of_bytes bs))"

definition bitmap_clear :: "u32 list \<Rightarrow> u32 \<Rightarrow> u32 list res" where
  "bitmap_clear ws v =
     bindR (aget ws (unat (v div 32))) (\<lambda>w.
     aset ws (unat (v div 32)) (w AND NOT (push_bit (unat (v mod 32)) 1)))"

definition plic_do_write :: "plic \<Rightarrow> u64 \<Rightarrow> u8 list \<Rightarrow> (bool \<times> plic) res" where
  "plic_do_write p start_addr buffer =
     (let ns = of_nat (nr_source p); nc = of_nat (nr_context p); sz = of_nat (length buffer) in
      if start_addr + sz \<le> 0x1000 then
        if start_addr = 0 then Inr (False, p)
        else if start_addr > 4 * ns \<or> start_addr + sz > 4 * (ns + 1) then Inr (False, p)
        else bindR (buf_word buffer) (\<lambda>v.
             bindR (aset (priority p) (unat (start_addr div 4)) v) (\<lambda>ws. Inr (True, p\<lparr>priority := ws\<rparr>)))
      else if start_addr + sz \<le> 0x1080 then Inr (True, p)
      else if start_addr + sz \<le> 0x2000 then Inr (False, p)
      else if start_addr + sz \<le> 0x200000 then
        let context_id = (start_addr - 0x2000) div 0x80; pos = start_addr mod 0x80 in
        if context_id \<ge> nc then Inr (False, p)
        else if pos > ns then Inr (False, p)
        else bindR (buf_word buffer) (\<lambda>v.
             bindR (aget (enable p) (unat context_id)) (\<lambda>en.
             bindR (aset en (unat pos) v) (\<lambda>en'.
             bindR (aset (enable p) (unat context_id) en') (\<lambda>es. Inr (True, p\<lparr>enable := es\<rparr>)))))
      else
        let context_id = (start_addr - 0x200000) div 0x1000; offset = start_addr mod 0x1000 in
        if context_id > nc then Inr (False, p)
        else if offset = 0 then
          bindR (buf_word buffer) (\<lambda>v.
          bindR (aset (threshold p) (unat context_id) v) (\<lambda>ws. Inr (True, p\<lparr>threshold := ws\<rparr>)))
        else if offset = 4 then
          bindR (buf_word buffer) (\<lambda>v.
          bindR (bitmap_clear (claimed p) v) (\<lambda>cl.
          bindR (bitmap_clear (pending p) v) (\<lambda>pe.
          Inr (True, p\<lparr>claimed := cl, pending := pe\<rparr>))))
        else Inr (False, p))"

section \<open>The device on the bus\<close>

text \<open>
  The adapter adds \<open>intDevMap\<close>, an ordered map from interrupt numbers to devices (handles):
  a list in increasing order of the numbers.
\<close>

record plic_dev =
  plicCtrl :: plic
  intDevMap :: dev_map

definition new_plic_dev :: "u64 \<Rightarrow> plic_dev mmio_dev" where
  "new_plic_dev sz =
     \<lparr>devBaseAddr = 0, addrRegionSize = sz,
      devImpl = \<lparr>plicCtrl = new_plic 4 4, intDevMap = []\<rparr>\<rparr>"

definition plic_read :: "plic_dev read_method" where
  "plic_read this begin_addr sz =
     assertR (begin_addr + sz \<le> addrRegionSize this)
       (bindR (plic_do_read (plicCtrl (devImpl this)) begin_addr sz) (\<lambda>(feedback, buffer, p).
        Inr (if feedback then MEMU_OK else MEMU_UNKNOWN, buffer,
             this\<lparr>devImpl := (devImpl this)\<lparr>plicCtrl := p\<rparr>\<rparr>)))"

definition plic_write :: "plic_dev write_method" where
  "plic_write this begin_addr buffer =
     assertR (begin_addr + of_nat (length buffer) \<le> addrRegionSize this)
       (bindR (plic_do_write (plicCtrl (devImpl this)) begin_addr buffer) (\<lambda>(feedback, p).
        Inr (if feedback then MEMU_OK else MEMU_UNKNOWN,
             this\<lparr>devImpl := (devImpl this)\<lparr>plicCtrl := p\<rparr>\<rparr>)))"

definition plic_ops :: "plic_dev dev_ops" where
  "plic_ops = \<lparr>ReadBuffer_MMIODev_API = plic_read, WriteBuffer_MMIODev_API = plic_write\<rparr>"

definition on_dev_map ::
    "(dev_map \<Rightarrow> FuncReturnFeedback_e \<times> dev_map) \<Rightarrow> plic_dev \<Rightarrow> FuncReturnFeedback_e \<times> plic_dev" where
  "on_dev_map f this = (let (feedback, m) = f (intDevMap this) in (feedback, this\<lparr>intDevMap := m\<rparr>))"

definition RegisterDev_IntCtrl_API :: "plic_dev \<Rightarrow> nat \<Rightarrow> nat \<Rightarrow> FuncReturnFeedback_e \<times> plic_dev" where
  "RegisterDev_IntCtrl_API this int_id dev = on_dev_map (dev_map_register int_id dev) this"

definition UnregisterDev_IntCtrl_API :: "plic_dev \<Rightarrow> nat \<Rightarrow> FuncReturnFeedback_e \<times> plic_dev" where
  "UnregisterDev_IntCtrl_API this int_id = on_dev_map (dev_map_unregister int_id) this"

definition UnregisterDev_dev :: "plic_dev \<Rightarrow> nat \<Rightarrow> FuncReturnFeedback_e \<times> plic_dev" where
  "UnregisterDev_dev this dev = on_dev_map (dev_map_unregister_dev dev) this"

text \<open>
  \<open>UpdateIntState_IntCtrl_API\<close>: \<open>irq\<close> gives \<open>GetIrqStatus\<close> of a device handle.
\<close>

fun plic_poll :: "(nat \<Rightarrow> bool) \<Rightarrow> plic \<Rightarrow> (nat \<times> nat) list \<Rightarrow> plic res" where
  "plic_poll irq p [] = Inr p"
| "plic_poll irq p ((int_id, dev) # ds) =
     bindR (update_ext p int_id (irq dev)) (\<lambda>p'. plic_poll irq p' ds)"

definition plic_UpdateIntState ::
    "(nat \<Rightarrow> bool) \<Rightarrow> plic_dev mmio_dev \<Rightarrow> IntStatus \<Rightarrow> IntStatus \<Rightarrow>
     (plic_dev mmio_dev \<times> IntStatus \<times> IntStatus) res" where
  "plic_UpdateIntState irq this core0 core1 =
     (let d = devImpl this in
      bindR (plic_poll irq (plicCtrl d) (intDevMap d)) (\<lambda>p0.
      bindR (get_int p0 0) (\<lambda>(i0, p1).
      bindR (get_int p1 1) (\<lambda>(i1, p2).
      bindR (get_int p2 2) (\<lambda>(i2, p3).
      bindR (get_int p3 3) (\<lambda>(i3, p4).
      Inr (this\<lparr>devImpl := d\<lparr>plicCtrl := p4\<rparr>\<rparr>,
           core0\<lparr>meip := i0, seip := i1\<rparr>, core1\<lparr>meip := i2, seip := i3\<rparr>)))))))"

text \<open>\<open>AttachCoreIntStatus\<close>: the adapter of the PLIC overrides it with the code of the CLINT's.\<close>

definition plic_AttachCoreIntStatus ::
    "nat \<Rightarrow> nat \<Rightarrow> int_ctrl_ptrs \<Rightarrow> (FuncReturnFeedback_e \<times> int_ctrl_ptrs) res" where
  "plic_AttachCoreIntStatus int_status hart_id p =
     bindR (aset (intStatusPtrs p) hart_id (Some int_status)) (\<lambda>ptrs.
     bindR (aget ptrs 0) (\<lambda>p0.
     bindR (aget ptrs 1) (\<lambda>p1.
     Inr (MEMU_OK, \<lparr>intStatusPtrs = ptrs, core0IntStatus = p0, core1IntStatus = p1\<rparr>))))"

lemma plic_attaches_alike: "plic_AttachCoreIntStatus = AttachCoreIntStatus"
  by (intro ext) (simp add: plic_AttachCoreIntStatus_def AttachCoreIntStatus_def)

section \<open>Well-formed state\<close>

definition plic_wf :: "plic \<Rightarrow> bool" where
  "plic_wf p \<longleftrightarrow>
     nr_source p < 2 ^ 31 \<and>
     length (priority p) = nr_source p + 1 \<and>
     length (pending p) = bitmap_words (nr_source p) \<and>
     length (claimed p) = bitmap_words (nr_source p) \<and>
     length (enable p) = nr_context p \<and>
     (\<forall>en \<in> set (enable p). length en = bitmap_words (nr_source p)) \<and>
     length (threshold p) = nr_context p \<and>
     length (claim p) = nr_context p \<and>
     (\<forall>c \<in> set (claim p). unat c \<le> nr_source p)"

lemma plic_wf_new: "ns < 2 ^ 31 \<Longrightarrow> plic_wf (new_plic ns nc)"
  by (auto simp: plic_wf_def new_plic_def)

lemma bitmap_index: "i \<le> ns \<Longrightarrow> i div 32 < bitmap_words ns"
  by (simp add: bitmap_words_def)

section \<open>Which interrupt a context is given\<close>

definition eligible :: "plic \<Rightarrow> nat \<Rightarrow> nat \<Rightarrow> bool" where
  "eligible p c i \<longleftrightarrow>
     threshold p ! c \<le> priority p ! i \<and>
     bit (pending p ! (i div 32)) (i mod 32) \<and>
     bit (enable p ! c ! (i div 32)) (i mod 32) \<and>
     \<not> bit (claimed p ! (i div 32)) (i mod 32)"

fun best_from :: "(nat \<Rightarrow> bool) \<Rightarrow> (nat \<Rightarrow> nat) \<Rightarrow> nat list \<Rightarrow> nat \<Rightarrow> nat \<Rightarrow> nat \<times> nat" where
  "best_from E f [] m k = (m, k)"
| "best_from E f (i # is) m k = (if E i \<and> f i > m then best_from E f is (f i) i else best_from E f is m k)"

lemma best_from_spec:
  assumes "best_from E f is m k = (m', k')" and "sorted is"
  shows "m \<le> m' \<and> (\<forall>i \<in> set is. E i \<longrightarrow> f i \<le> m') \<and>
    ((m' = m \<and> k' = k) \<or>
     (m < m' \<and> k' \<in> set is \<and> E k' \<and> f k' = m' \<and> (\<forall>j \<in> set is. j < k' \<longrightarrow> E j \<longrightarrow> f j < m')))"
  using assms
proof (induction E f "is" m k rule: best_from.induct)
  case (1 E f m k)
  then show ?case by simp
next
  case (2 E f i "is" m k)
  show ?case
  proof (cases "E i \<and> f i > m")
    case True
    with 2 have "f i \<le> m' \<and> (\<forall>i \<in> set is. E i \<longrightarrow> f i \<le> m') \<and>
      ((m' = f i \<and> k' = i) \<or>
       (f i < m' \<and> k' \<in> set is \<and> E k' \<and> f k' = m' \<and> (\<forall>j \<in> set is. j < k' \<longrightarrow> E j \<longrightarrow> f j < m')))"
      by simp
    with True 2(4) show ?thesis by auto
  next
    case False
    with 2 have "m \<le> m' \<and> (\<forall>i \<in> set is. E i \<longrightarrow> f i \<le> m') \<and>
      ((m' = m \<and> k' = k) \<or>
       (m < m' \<and> k' \<in> set is \<and> E k' \<and> f k' = m' \<and> (\<forall>j \<in> set is. j < k' \<longrightarrow> E j \<longrightarrow> f j < m')))"
      by simp
    with False 2(4) show ?thesis by auto
  qed
qed

lemma bitmap_get_wf:
  "length ws = bitmap_words ns \<Longrightarrow> i \<le> ns \<Longrightarrow> bitmap_get ws i = Inr (bit (ws ! (i div 32)) (i mod 32))"
  by (simp add: bitmap_get_def bitmap_index)

lemma plic_candidate_wf:
  assumes "plic_wf p" "c < nr_context p" "i \<le> nr_source p"
  shows "plic_candidate p c i = Inr (eligible p c i)"
  using assms
  by (auto simp: plic_candidate_def eligible_def plic_wf_def bitmap_get_wf)

lemma ucast_u32_u64_less: "ucast (a :: u32) > (b :: u64) \<longleftrightarrow> unat b < unat a"
  by (simp add: word_less_nat_alt unat_ucast_up)

lemma plic_scan_wf:
  assumes "plic_wf p" "c < nr_context p" "\<forall>i \<in> set is. i \<le> nr_source p"
  shows "plic_scan p c is m k =
     (let r = best_from (eligible p c) (\<lambda>i. unat (priority p ! i)) is (unat m) (unat k)
      in Inr (of_nat (fst r), of_nat (snd r)))"
  using assms(3)
proof (induction "is" arbitrary: m k)
  case Nil
  then show ?case by simp
next
  case (Cons i "is")
  have i: "i < length (priority p)" "i < 2 ^ 64"
    using assms(1) Cons.prems by (auto simp: plic_wf_def)
  have u: "unat (ucast (priority p ! i) :: u64) = unat (priority p ! i)"
    by (simp add: unat_ucast_up)
  have n: "unat (of_nat i :: u64) = i" using i(2) by (simp add: unat_of_nat)
  show ?case
    using Cons assms(1,2) i
    by (simp add: plic_candidate_wf ucast_u32_u64_less u n Let_def)
qed

text \<open>\<open>best p c\<close> is the source a context is given, 0 for none.\<close>

definition best :: "plic \<Rightarrow> nat \<Rightarrow> nat" where
  "best p c = snd (best_from (eligible p c) (\<lambda>i. unat (priority p ! i)) [1..<Suc (nr_source p)] 0 0)"

lemma best_spec:
  shows "best p c \<le> nr_source p"
    and "best p c \<noteq> 0 \<Longrightarrow> eligible p c (best p c) \<and> 0 < priority p ! best p c"
    and "1 \<le> i \<Longrightarrow> i \<le> nr_source p \<Longrightarrow> eligible p c i \<Longrightarrow> 0 < priority p ! i \<Longrightarrow>
         best p c \<noteq> 0 \<and> priority p ! i \<le> priority p ! best p c \<and>
         (i < best p c \<longrightarrow> priority p ! i < priority p ! best p c)"
proof -
  let ?f = "\<lambda>i. unat (priority p ! i)"
  obtain m where r: "best_from (eligible p c) ?f [1..<Suc (nr_source p)] 0 0 = (m, best p c)"
    unfolding best_def by (metis prod.collapse)
  have s: "sorted [1..<Suc (nr_source p)]" by (simp only: sorted_upt)
  note b = best_from_spec [OF r s]
  show "best p c \<le> nr_source p" using b by auto
  show "best p c \<noteq> 0 \<Longrightarrow> eligible p c (best p c) \<and> 0 < priority p ! best p c"
    using b by (auto simp: word_less_nat_alt)
  show "1 \<le> i \<Longrightarrow> i \<le> nr_source p \<Longrightarrow> eligible p c i \<Longrightarrow> 0 < priority p ! i \<Longrightarrow>
         best p c \<noteq> 0 \<and> priority p ! i \<le> priority p ! best p c \<and>
         (i < best p c \<longrightarrow> priority p ! i < priority p ! best p c)"
  proof -
    assume i: "1 \<le> i" "i \<le> nr_source p" "eligible p c i" "0 < priority p ! i"
    then have "i \<in> set [1..<Suc (nr_source p)]" by auto
    then have "?f i \<le> m" using b i by blast
    moreover have "0 < ?f i" using i(4) by (simp add: word_less_nat_alt)
    ultimately show ?thesis
      using b \<open>i \<in> set _\<close> i(3) by (auto simp: word_less_nat_alt word_le_nat_alt)
  qed
qed

lemma get_int_wf:
  assumes "plic_wf p" "c < nr_context p"
  shows "get_int p c = Inr (best p c \<noteq> 0, p\<lparr>claim := (claim p)[c := of_nat (best p c)]\<rparr>)"
proof -
  let ?r = "best_from (eligible p c) (\<lambda>i. unat (priority p ! i)) [1..<Suc (nr_source p)] 0 0"
  have le: "best p c < 2 ^ 31" using best_spec(1) [of p c] assms(1) by (simp add: plic_wf_def)
  have z: "(of_nat (best p c) :: u64) = 0 \<longleftrightarrow> best p c = 0" "(of_nat (best p c) :: u32) = 0 \<longleftrightarrow> best p c = 0"
    using le by (simp_all add: word_of_nat_eq_0_iff) (auto dest!: nat_dvd_not_less [rotated])
  have u: "(ucast (of_nat (best p c) :: u64) :: u32) = of_nat (best p c)"
    using le by (simp add: unsigned_of_nat take_bit_nat_eq_self)
  have "plic_scan p c [1..<Suc (nr_source p)] 0 0 = Inr (of_nat (fst ?r), of_nat (best p c))"
    using assms by (subst plic_scan_wf) (auto simp: best_def Let_def)
  then show ?thesis
    using assms z u by (auto simp: get_int_def plic_wf_def)
qed

section \<open>The contract\<close>

lemma plic_wf_get_int:
  "plic_wf p \<Longrightarrow> get_int p c = Inr (b, p') \<Longrightarrow> plic_wf p'"
proof -
  assume wf: "plic_wf p" and g: "get_int p c = Inr (b, p')"
  then have "c < nr_context p"
    by (auto simp: get_int_def res_eq_Inr aset_eq_Inr plic_wf_def)
  moreover have "unat (of_nat (best p c) :: u32) = best p c"
    using wf best_spec(1) [of p c] by (auto simp: plic_wf_def unat_of_nat)
  ultimately show "plic_wf p'"
    using wf g best_spec(1) [of p c] get_int_wf [OF wf]
    by (auto simp: plic_wf_def dest!: set_update_subset_insert [THEN subsetD])
qed

lemma plic_wf_update_ext: "plic_wf p \<Longrightarrow> update_ext p i f = Inr p' \<Longrightarrow> plic_wf p'"
  by (auto simp: update_ext_def res_eq_Inr aset_eq_Inr plic_wf_def split: if_splits)

lemma update_ext_wf:
  "plic_wf p \<Longrightarrow> i \<le> nr_source p \<Longrightarrow> update_ext p i f =
     Inr (if f then p\<lparr>pending := (pending p)[i div 32 := pending p ! (i div 32) OR source_bit i]\<rparr> else p)"
  by (auto simp: update_ext_def plic_wf_def bitmap_index)

lemma bitmap_clear_length: "bitmap_clear ws v = Inr ws' \<Longrightarrow> length ws' = length ws"
  by (auto simp: bitmap_clear_def res_eq_Inr aset_eq_Inr)

lemma plic_wf_write: "plic_wf p \<Longrightarrow> plic_do_write p a bs = Inr (ok, p') \<Longrightarrow> plic_wf p'"
  by (auto simp: plic_do_write_def plic_wf_def Let_def res_eq_Inr aset_eq_Inr aget_eq_Inr
      split: if_splits dest!: bitmap_clear_length set_update_subset_insert [THEN subsetD])

lemma plic_wf_read: "plic_wf p \<Longrightarrow> plic_do_read p a n = Inr (ok, r, p') \<Longrightarrow> plic_wf p'"
  by (auto simp: plic_do_read_def plic_wf_def Let_def res_eq_Inr aset_eq_Inr aget_eq_Inr split: if_splits)

lemma plic_read_length: "plic_do_read p a n = Inr (ok, Some bs, p') \<Longrightarrow> length bs = unat n"
  by (auto simp: plic_do_read_def Let_def res_eq_Inr aset_eq_Inr aget_eq_Inr split: if_splits)

lemma plic_same_size:
  "plic_do_read p a n = Inr (ok, r, p') \<Longrightarrow> nr_source p' = nr_source p \<and> nr_context p' = nr_context p"
  "plic_do_write p a bs = Inr (ok, p') \<Longrightarrow> nr_source p' = nr_source p \<and> nr_context p' = nr_context p"
  by (auto simp: plic_do_read_def plic_do_write_def Let_def res_eq_Inr split: if_splits)

text \<open>The device of the platform has four sources, four contexts and registered numbers in range.\<close>

definition plic_inv :: "plic_dev mmio_dev \<Rightarrow> bool" where
  "plic_inv d \<longleftrightarrow>
     (let p = plicCtrl (devImpl d) in
      plic_wf p \<and> nr_source p = 4 \<and> nr_context p = 4 \<and>
      (\<forall>x \<in> set (intDevMap (devImpl d)). fst x \<le> 4))"

interpretation plic: mmio_device plic_ops plic_inv
proof unfold_locales
  fix d a n fb bs d'
  assume "ReadBuffer_MMIODev_API plic_ops d a n = Inr (fb, Some bs, d')"
  then show "length bs = unat n"
    by (auto simp: plic_ops_def plic_read_def res_eq_Inr dest: plic_read_length)
next
  fix d a n fb r d'
  assume "plic_inv d" "ReadBuffer_MMIODev_API plic_ops d a n = Inr (fb, r, d')"
  then show "same_region d' d" and "plic_inv d'"
    by (auto simp: plic_ops_def plic_read_def res_eq_Inr plic_inv_def Let_def
        dest: plic_wf_read plic_same_size)
next
  fix d a bs fb d'
  assume "plic_inv d" "WriteBuffer_MMIODev_API plic_ops d a bs = Inr (fb, d')"
  then show "same_region d' d" and "plic_inv d'"
    by (auto simp: plic_ops_def plic_write_def res_eq_Inr plic_inv_def Let_def
        dest: plic_wf_write plic_same_size)
qed

lemma plic_inv_new: "plic_inv (new_plic_dev sz)"
  by (simp add: plic_inv_def new_plic_dev_def Let_def plic_wf_new) (simp add: new_plic_def)

text \<open>Polling the devices returns, and sets the pending bit of every source that fired.\<close>

lemma plic_poll_wf:
  assumes "plic_wf p" "\<forall>x \<in> set ds. fst x \<le> nr_source p"
  shows "returnsR (plic_poll irq p ds) (\<lambda>p'. plic_wf p' \<and> nr_source p' = nr_source p \<and>
    nr_context p' = nr_context p \<and> claimed p' = claimed p \<and> enable p' = enable p \<and>
    priority p' = priority p \<and> threshold p' = threshold p)"
  using assms
proof (induction irq p ds rule: plic_poll.induct)
  case (1 irq p)
  then show ?case by simp
next
  case (2 irq p i dev ds)
  let ?p = "if irq dev then p\<lparr>pending := (pending p)[i div 32 := pending p ! (i div 32) OR source_bit i]\<rparr> else p"
  have u: "update_ext p i (irq dev) = Inr ?p" using 2 by (simp add: update_ext_wf)
  then have "plic_wf ?p" using 2(2) plic_wf_update_ext by blast
  moreover have "nr_source ?p = nr_source p" "nr_context ?p = nr_context p" by simp_all
  ultimately have "returnsR (plic_poll irq ?p ds) (\<lambda>p'. plic_wf p' \<and> nr_source p' = nr_source ?p \<and>
    nr_context p' = nr_context ?p \<and> claimed p' = claimed ?p \<and> enable p' = enable ?p \<and>
    priority p' = priority ?p \<and> threshold p' = threshold ?p)"
    using 2(1) [OF u] 2(3) by simp
  then show ?case using u by (auto elim!: returnsR_mono)
qed

text \<open>With the platform's controller an update never fails an assertion or leaves an array.\<close>

lemma plic_UpdateIntState_returns:
  assumes "plic_inv d"
  shows "returnsR (plic_UpdateIntState irq d c0 c1) (\<lambda>(d', c0', c1').
    plic_inv d' \<and> same_region d' d \<and> ist_msip c0' = ist_msip c0 \<and> mtip c0' = mtip c0 \<and>
    ist_msip c1' = ist_msip c1 \<and> mtip c1' = mtip c1)"
proof -
  have w: "plic_wf (plicCtrl (devImpl d))" "nr_source (plicCtrl (devImpl d)) = 4"
    "nr_context (plicCtrl (devImpl d)) = 4" "\<forall>x \<in> set (intDevMap (devImpl d)). fst x \<le> 4"
    using assms by (simp_all add: plic_inv_def Let_def)
  have g: "returnsR (get_int p c) (\<lambda>(b, p'). plic_wf p' \<and> nr_source p' = 4 \<and> nr_context p' = 4)"
    if "plic_wf p \<and> nr_source p = 4 \<and> nr_context p = 4" "c < 4" for p c
    using that get_int_wf [of p c] plic_wf_get_int [of p c] by (auto simp: returnsR_iff)
  show ?thesis
    unfolding plic_UpdateIntState_def Let_def returnsR_bindR
    apply (rule returnsR_mono [OF plic_poll_wf [OF w(1)]])
     apply (use w in simp)
    apply (clarsimp simp: split_def)
    apply (rule returnsR_mono [OF g], use w in simp, simp, clarsimp)+
    using w(4) by (simp add: plic_inv_def Let_def)
qed

section \<open>Properties\<close>

lemma claim_address:
  assumes "c < 16"
  shows "\<not> (0x200004 + of_nat (0x1000 * c) + 4 :: u64) \<le> 0x1000" "\<not> (0x200004 + of_nat (0x1000 * c) + 4 :: u64) \<le> 0x1080"
    "\<not> (0x200004 + of_nat (0x1000 * c) + 4 :: u64) \<le> 0x2000" "\<not> (0x200004 + of_nat (0x1000 * c) + 4 :: u64) \<le> 0x200000"
    "(0x200004 + of_nat (0x1000 * c) - 0x200000 :: u64) div 0x1000 = of_nat c"
    "(0x200004 + of_nat (0x1000 * c) :: u64) mod 0x1000 = 4"
proof -
  have "c = 0 \<or> c = 1 \<or> c = 2 \<or> c = 3 \<or> c = 4 \<or> c = 5 \<or> c = 6 \<or> c = 7 \<or> c = 8 \<or> c = 9 \<or> c = 10 \<or>
    c = 11 \<or> c = 12 \<or> c = 13 \<or> c = 14 \<or> c = 15"
    using assms by presburger
  then show "\<not> (0x200004 + of_nat (0x1000 * c) + 4 :: u64) \<le> 0x1000" "\<not> (0x200004 + of_nat (0x1000 * c) + 4 :: u64) \<le> 0x1080"
    "\<not> (0x200004 + of_nat (0x1000 * c) + 4 :: u64) \<le> 0x2000" "\<not> (0x200004 + of_nat (0x1000 * c) + 4 :: u64) \<le> 0x200000"
    "(0x200004 + of_nat (0x1000 * c) - 0x200000 :: u64) div 0x1000 = of_nat c"
    "(0x200004 + of_nat (0x1000 * c) :: u64) mod 0x1000 = 4"
    by auto
qed

text \<open>C17: On a well-formed PLIC, get_int offers a context the eligible source of highest priority,
  the lowest number among equals, and asserts its line exactly when there is one.\<close>

theorem plic_get_int_highest:
  assumes "plic_wf p" and "c < nr_context p"
  shows "\<exists>k. get_int p c = Inr (k \<noteq> 0, p\<lparr>claim := (claim p)[c := of_nat k]\<rparr>) \<and> k \<le> nr_source p \<and>
    (k \<noteq> 0 \<longrightarrow> eligible p c k \<and> 0 < priority p ! k) \<and>
    (\<forall>i \<in> {1..nr_source p}. eligible p c i \<and> 0 < priority p ! i \<longrightarrow>
       k \<noteq> 0 \<and> (priority p ! i < priority p ! k \<or> (priority p ! i = priority p ! k \<and> k \<le> i)))"
proof (intro exI [of _ "best p c"] conjI ballI impI)
  fix i
  assume "i \<in> {1..nr_source p}" and "eligible p c i \<and> 0 < priority p ! i"
  then have b: "best p c \<noteq> 0" "priority p ! i \<le> priority p ! best p c"
      "i < best p c \<longrightarrow> priority p ! i < priority p ! best p c"
    using best_spec(3) [where p = p and c = c and i = i] by auto
  then show "best p c \<noteq> 0" by simp
  show "priority p ! i < priority p ! best p c \<or> (priority p ! i = priority p ! best p c \<and> best p c \<le> i)"
    using b(2,3) by (cases "i < best p c") (auto simp: le_less)
qed (use get_int_wf [OF assms] best_spec(1,2) [where p = p and c = c] in auto)

text \<open>C18: Claiming a source hides it from every context and no other source; completing it ends the
  service and drops the pending bit, after which a new signal makes it eligible by its priority
  and enable bit alone.\<close>

theorem plic_claim_complete:
  assumes wf: "plic_wf p" and c: "c < nr_context p" "nr_context p \<le> 16" and src: "nr_source p < 32"
    and i: "i = unat (claim p ! c)" "i \<noteq> 0"
  shows "\<exists>p1 p2. plic_do_read p (0x200004 + of_nat (0x1000 * c)) 4 = Inr (True, Some (to_bytes 4 (claim p ! c)), p1) \<and>
    (\<forall>k j. j < 32 \<longrightarrow> (eligible p1 k j \<longleftrightarrow> j \<noteq> i \<and> eligible p k j)) \<and>
    plic_do_write p1 (0x200004 + of_nat (0x1000 * c)) (to_bytes 4 (claim p ! c)) = Inr (True, p2) \<and>
    (\<forall>k j. j < 32 \<longrightarrow> (eligible p2 k j \<longleftrightarrow> j \<noteq> i \<and> eligible p k j)) \<and>
    (\<forall>k. eligible (p2\<lparr>pending := (pending p2)[0 := pending p2 ! 0 OR source_bit i]\<rparr>) k i \<longleftrightarrow>
       threshold p ! k \<le> priority p ! i \<and> bit (enable p ! k ! 0) i)"
proof -
  let ?v = "claim p ! c" and ?a = "0x200004 + of_nat (0x1000 * c) :: u64"
  have l: "length (claimed p) = 1" "length (pending p) = 1" "length (claim p) = nr_context p"
    using wf src by (simp_all add: plic_wf_def bitmap_words_def)
  have "unat ?v \<le> nr_source p" using wf c(1) by (simp add: plic_wf_def)
  with src have "unat ?v < 32" by simp
  then have v: "unat (?v div 32) = 0" "unat (?v mod 32) = i" "i < 32"
    by (simp_all add: unat_div unat_mod i)
  note ad = claim_address [OF order_less_le_trans [OF c]]
  have cc: "unat (of_nat c :: u64) = c" "\<not> (of_nat c :: u64) > of_nat (nr_context p)"
    using c by (simp_all add: unat_of_nat word_less_nat_alt)
  let ?p1 = "p\<lparr>claimed := (claimed p)[0 := claimed p ! 0 OR push_bit i 1]\<rparr>"
  let ?p2 = "p\<lparr>claimed := [(claimed p ! 0 OR push_bit i 1) AND NOT (push_bit i 1)],
     pending := [pending p ! 0 AND NOT (push_bit i 1)]\<rparr>"
  have upd: "xs[0 := y] = [y]" if "length xs = 1" for xs :: "u32 list" and y
    using that by (cases xs) auto
  have "plic_do_read p ?a 4 = Inr (True, Some (to_bytes 4 ?v), ?p1)"
    using l v c ad cc by (simp add: plic_do_read_def Let_def)
  moreover have "plic_do_write ?p1 ?a (to_bytes 4 ?v) = Inr (True, ?p2)"
    using l v c ad cc
    by (simp add: plic_do_write_def Let_def buf_word_def bitmap_clear_def of_bytes_to_bytes_full upd)
  moreover have "eligible ?p1 k j \<longleftrightarrow> j \<noteq> i \<and> eligible p k j" "eligible ?p2 k j \<longleftrightarrow> j \<noteq> i \<and> eligible p k j"
    if "j < 32" for k j
    using that v(3) l by (auto simp: eligible_def bit_simps)
  moreover have "eligible (?p2\<lparr>pending := (pending ?p2)[0 := pending ?p2 ! 0 OR source_bit i]\<rparr>) k i \<longleftrightarrow>
       threshold p ! k \<le> priority p ! i \<and> bit (enable p ! k ! 0) i" for k
    using v(3) by (auto simp: eligible_def bit_simps source_bit_def)
  ultimately show ?thesis by blast
qed

theorem plic_claim_complete_witness:
  "\<exists>p1. plic_do_read (new_plic 4 4\<lparr>claim := [3, 0, 0, 0]\<rparr>) 0x200004 4 = Inr (True, Some (to_bytes 4 (3 :: u32)), p1) \<and>
     \<not> eligible p1 0 3"
proof -
  have "plic_wf (new_plic 4 4\<lparr>claim := [3, 0, 0, 0]\<rparr>)" by (auto simp: plic_wf_def new_plic_def)
  from plic_claim_complete [OF this, of 0 3] show ?thesis by (fastforce simp: new_plic_def)
qed

theorem plic_get_int_highest_witness:
  "\<exists>k. get_int (new_plic 4 4) 2 = Inr (k \<noteq> 0, (new_plic 4 4)\<lparr>claim := (claim (new_plic 4 4))[2 := of_nat k]\<rparr>) \<and> k \<le> 4"
  using plic_get_int_highest [OF plic_wf_new [of 4 4], of 2] by (auto simp: new_plic_def)

end
