(* ===== verification/Mmio_Bus.thy ===== *)
theory Mmio_Bus
  imports Mmio_Device
begin

unbundle bit_operations_syntax

text \<open>
  The system bus: the interface class \<open>MMIOBus_I\<close> of \<open>include/interface/MMIO_Bus.h\<close> with
  its reservation of an address region, and its implementation \<open>MEmu_MMIOBus\<close> of
  \<open>modules/bus/default/include/MMIOBus_Impl.hpp\<close>. Devices are heap objects that several
  components share, so the state holds the heap of device objects and the bus holds
  handles (indices) into it.
\<close>

section \<open>The interface\<close>

text \<open>The two virtual methods the cores call; \<open>'b\<close> is the state of the bus and all it reaches.\<close>

record 'b bus_ops =
  PAddr_ReadBuffer_MMIOBus_API ::
    "'b \<Rightarrow> u64 \<Rightarrow> u64 \<Rightarrow> (FuncReturnFeedback_e \<times> u8 list option \<times> 'b) res"
  PAddr_WriteBuffer_MMIOBus_API ::
    "'b \<Rightarrow> u64 \<Rightarrow> u8 list \<Rightarrow> (FuncReturnFeedback_e \<times> 'b) res"

locale paddr_bus =
  fixes bus :: "'b bus_ops"
    and binv :: "'b \<Rightarrow> bool"
  assumes bus_read_length:
      "binv b \<Longrightarrow> unat n < 2 ^ 63 \<Longrightarrow>
       PAddr_ReadBuffer_MMIOBus_API bus b a n = Inr (fb, Some bs, b') \<Longrightarrow> length bs = unat n"
    and bus_read_inv:
      "binv b \<Longrightarrow> PAddr_ReadBuffer_MMIOBus_API bus b a n = Inr (fb, r, b') \<Longrightarrow> binv b'"
    and bus_write_inv:
      "binv b \<Longrightarrow> PAddr_WriteBuffer_MMIOBus_API bus b a bs = Inr (fb, b') \<Longrightarrow> binv b'"
begin

lemma bus_read_all:
  "binv b \<Longrightarrow> holdsR (PAddr_ReadBuffer_MMIOBus_API bus b a n)
     (\<lambda>(fb, r, b'). binv b' \<and> (\<forall>bs. r = Some bs \<longrightarrow> unat n < 2 ^ 63 \<longrightarrow> length bs = unat n))"
  by (rule holdsR_I) (auto dest: bus_read_length bus_read_inv)

lemma bus_write_all:
  "binv b \<Longrightarrow> holdsR (PAddr_WriteBuffer_MMIOBus_API bus b a bs) (\<lambda>(fb, b'). binv b')"
  by (rule holdsR_I) (auto dest: bus_write_inv)

end

section \<open>State of the default bus\<close>

text \<open>
  \<open>preservedDataBuffer\<close> is \<open>None\<close> for the null pointer and \<open>Some None\<close> for a buffer no
  read has filled.
\<close>

record 'd mmio_bus =
  devHeap :: "'d mmio_dev list"
  mmioDevs :: "nat list"
  devFindCache :: "u64 \<Rightarrow> nat option"
  preservedBaseAddr :: u64
  preservedDataBuffer :: "u8 list option option"
  preserverHartID :: u16
  preservedSize :: u64

definition new_bus :: "'d mmio_dev list \<Rightarrow> 'd mmio_bus" where
  "new_bus hp = \<lparr>devHeap = hp, mmioDevs = [], devFindCache = (\<lambda>_. None),
     preservedBaseAddr = 0, preservedDataBuffer = None, preserverHartID = 0, preservedSize = 0\<rparr>"

definition dev_of :: "'d mmio_bus \<Rightarrow> nat \<Rightarrow> 'd mmio_dev" where
  "dev_of b h = devHeap b ! h"

definition set_dev :: "nat \<Rightarrow> 'd mmio_dev \<Rightarrow> 'd mmio_bus \<Rightarrow> 'd mmio_bus" where
  "set_dev h d b = b\<lparr>devHeap := (devHeap b)[h := d]\<rparr>"

section \<open>Operations\<close>

text \<open>The loop over \<open>mmioDevs\<close>.\<close>

fun first_in_range :: "'d mmio_dev list \<Rightarrow> nat list \<Rightarrow> u64 \<Rightarrow> nat option" where
  "first_in_range hp [] addr = None"
| "first_in_range hp (d # ds) addr =
     (if isAddrInRange (hp ! d) addr then Some d else first_in_range hp ds addr)"

definition findDevAccordingToAddr ::
    "'d mmio_bus \<Rightarrow> u64 \<Rightarrow> FuncReturnFeedback_e \<times> nat option \<times> 'd mmio_bus" where
  "findDevAccordingToAddr b addr =
     (case devFindCache b addr of
        Some d \<Rightarrow> (MEMU_OK, Some d, b)
      | None \<Rightarrow>
          (case first_in_range (devHeap b) (mmioDevs b) addr of
             Some d \<Rightarrow> (MEMU_OK, Some d, b\<lparr>devFindCache := (devFindCache b)(addr := Some d)\<rparr>)
           | None \<Rightarrow> (MEMU_NOT_FOUND, None, b)))"

text \<open>The status the device returns is dropped: the bus answers \<open>MEMU_OK\<close> once a device is found.\<close>

definition bus_read ::
    "'d dev_ops \<Rightarrow> 'd mmio_bus \<Rightarrow> u64 \<Rightarrow> u64 \<Rightarrow>
     (FuncReturnFeedback_e \<times> u8 list option \<times> 'd mmio_bus) res" where
  "bus_read ops b begin_addr sz =
     (let (feedback, dev, b1) = findDevAccordingToAddr b begin_addr in
      if feedback = MEMU_NOT_FOUND then Inr (MEMU_NOT_ACCESSIBLE, None, b1)
      else case dev of
        None \<Rightarrow> Inl AssertionFailure
      | Some h \<Rightarrow>
          bindR (ReadBuffer_MMIODev_API ops (dev_of b1 h) (begin_addr - devBaseAddr (dev_of b1 h)) sz)
            (\<lambda>(_, buffer, d'). Inr (MEMU_OK, buffer, set_dev h d' b1)))"

definition bus_write ::
    "'d dev_ops \<Rightarrow> 'd mmio_bus \<Rightarrow> u64 \<Rightarrow> u8 list \<Rightarrow> (FuncReturnFeedback_e \<times> 'd mmio_bus) res" where
  "bus_write ops b begin_addr buffer =
     (let (feedback, dev, b1) = findDevAccordingToAddr b begin_addr in
      if feedback = MEMU_NOT_FOUND then Inr (MEMU_NOT_ACCESSIBLE, b1)
      else case dev of
        None \<Rightarrow> Inl AssertionFailure
      | Some h \<Rightarrow>
          bindR (WriteBuffer_MMIODev_API ops (dev_of b1 h) (begin_addr - devBaseAddr (dev_of b1 h)) buffer)
            (\<lambda>(_, d'). Inr (MEMU_OK, set_dev h d' b1)))"

text \<open>\<open>std::sort\<close> by base address; base addresses of registered devices differ, so the result is unique.\<close>

definition RegisterMMIODev_MMIOBus_API ::
    "'d mmio_bus \<Rightarrow> nat \<Rightarrow> u64 \<Rightarrow> (FuncReturnFeedback_e \<times> 'd mmio_bus) res" where
  "RegisterMMIODev_MMIOBus_API b dev base_addr =
     (let b1 = set_dev dev (setDevBaseAddr base_addr (dev_of b dev)) b in
      if list_ex (\<lambda>d. isAddrRegionConflict (dev_of b1 dev) (dev_of b1 d)) (mmioDevs b1)
      then Inl AssertionFailure
      else Inr (MEMU_OK,
        b1\<lparr>mmioDevs := sort_key (\<lambda>d. devBaseAddr (dev_of b1 d)) (mmioDevs b1 @ [dev])\<rparr>))"

text \<open>Reserving a region and storing to it only if its contents are unchanged.\<close>

definition PAddr_PreserveAndReadBuffer_MMIOBus_API ::
    "'d dev_ops \<Rightarrow> 'd mmio_bus \<Rightarrow> u16 \<Rightarrow> u64 \<Rightarrow> u64 \<Rightarrow>
     (FuncReturnFeedback_e \<times> u8 list option \<times> 'd mmio_bus) res" where
  "PAddr_PreserveAndReadBuffer_MMIOBus_API ops b preserver_hart_id begin_addr sz =
     (let b1 = b\<lparr>preservedBaseAddr := begin_addr, preservedSize := sz,
                 preserverHartID := preserver_hart_id, preservedDataBuffer := Some None\<rparr> in
      bindR (bus_read ops b1 begin_addr sz) (\<lambda>(_, data, b2).
      bus_read ops (b2\<lparr>preservedDataBuffer := Some data\<rparr>) begin_addr sz))"

definition PAddr_CheckExclusiveAndWriteBuffer_MMIOBus_API ::
    "'d dev_ops \<Rightarrow> 'd mmio_bus \<Rightarrow> u16 \<Rightarrow> u8 list \<Rightarrow> (FuncReturnFeedback_e \<times> 'd mmio_bus) res" where
  "PAddr_CheckExclusiveAndWriteBuffer_MMIOBus_API ops b modifier_hart_id buffer =
     (if preservedSize b = 0 then Inr (MEMU_INVALID_STATE, b)
      else case preservedDataBuffer b of
        None \<Rightarrow> Inl AssertionFailure
      | Some saved \<Rightarrow>
          assertR (preserverHartID b = modifier_hart_id)
            (bindR (bus_read ops b (preservedBaseAddr b) (preservedSize b)) (\<lambda>(_, cur, b1).
             bindR (initialised saved) (\<lambda>old.
             bindR (initialised cur) (\<lambda>new.
             if old \<noteq> new then Inr (MEMU_DATA_MODIFIED, b1)
             else bindR (mem_get buffer 0 (unat (preservedSize b1))) (\<lambda>data.
               bus_write ops b1 (preservedBaseAddr b1) data))))))"

definition MEmu_bus_ops :: "'d dev_ops \<Rightarrow> 'd mmio_bus bus_ops" where
  "MEmu_bus_ops ops = \<lparr>PAddr_ReadBuffer_MMIOBus_API = bus_read ops,
                       PAddr_WriteBuffer_MMIOBus_API = bus_write ops\<rparr>"

section \<open>Well-formed buses\<close>

definition regions_apart :: "'d mmio_dev \<Rightarrow> 'd mmio_dev \<Rightarrow> bool" where
  "regions_apart c d \<longleftrightarrow> dev_end c < devBaseAddr d \<or> dev_end d < devBaseAddr c"

definition devs_wf :: "'d mmio_bus \<Rightarrow> bool" where
  "devs_wf b \<longleftrightarrow>
     distinct (mmioDevs b) \<and>
     sorted (map (\<lambda>h. devBaseAddr (dev_of b h)) (mmioDevs b)) \<and>
     (\<forall>h \<in> set (mmioDevs b). h < length (devHeap b) \<and> region_ok (dev_of b h)) \<and>
     (\<forall>h \<in> set (mmioDevs b). \<forall>k \<in> set (mmioDevs b). h \<noteq> k \<longrightarrow>
        regions_apart (dev_of b h) (dev_of b k))"

definition cache_sound :: "'d mmio_bus \<Rightarrow> bool" where
  "cache_sound b \<longleftrightarrow>
     (\<forall>a h. devFindCache b a = Some h \<longrightarrow> h \<in> set (mmioDevs b) \<and> isAddrInRange (dev_of b h) a)"

definition bus_wf :: "('d mmio_dev \<Rightarrow> bool) \<Rightarrow> 'd mmio_bus \<Rightarrow> bool" where
  "bus_wf dinv b \<longleftrightarrow> devs_wf b \<and> cache_sound b \<and> (\<forall>h \<in> set (mmioDevs b). dinv (dev_of b h))"

lemma regions_apart_range:
  assumes "regions_apart c d" "isAddrInRange c a" "isAddrInRange d a"
  shows False
  using assms by (auto simp: regions_apart_def isAddrInRange_def dev_end_def)

lemma first_in_range_Some:
  "first_in_range hp ds a = Some h \<Longrightarrow> h \<in> set ds \<and> isAddrInRange (hp ! h) a"
  by (induction hp ds a rule: first_in_range.induct) (auto split: if_splits)

lemma first_in_range_None:
  "first_in_range hp ds a = None \<longleftrightarrow> (\<forall>h \<in> set ds. \<not> isAddrInRange (hp ! h) a)"
  by (induction hp ds a rule: first_in_range.induct) auto

text \<open>Address decoding is unambiguous: at most one registered device holds an address.\<close>

lemma decode_unique:
  assumes "devs_wf b" "h \<in> set (mmioDevs b)" "k \<in> set (mmioDevs b)"
    and "isAddrInRange (dev_of b h) a" "isAddrInRange (dev_of b k) a"
  shows "h = k"
  using assms unfolding devs_wf_def by (meson regions_apart_range)

lemma first_in_range_iff:
  assumes "devs_wf b"
  shows "first_in_range (devHeap b) (mmioDevs b) a = Some h \<longleftrightarrow>
     h \<in> set (mmioDevs b) \<and> isAddrInRange (dev_of b h) a"
proof
  assume "first_in_range (devHeap b) (mmioDevs b) a = Some h"
  then show "h \<in> set (mmioDevs b) \<and> isAddrInRange (dev_of b h) a"
    by (auto dest: first_in_range_Some simp: dev_of_def)
next
  assume h: "h \<in> set (mmioDevs b) \<and> isAddrInRange (dev_of b h) a"
  then obtain k where k: "first_in_range (devHeap b) (mmioDevs b) a = Some k"
    using first_in_range_None [of "devHeap b" "mmioDevs b" a]
    by (cases "first_in_range (devHeap b) (mmioDevs b) a") (auto simp: dev_of_def)
  then have "k \<in> set (mmioDevs b)" "isAddrInRange (dev_of b k) a"
    by (auto dest: first_in_range_Some simp: dev_of_def)
  with h assms k show "first_in_range (devHeap b) (mmioDevs b) a = Some h"
    using decode_unique by blast
qed

lemma cached_is_first:
  "devs_wf b \<Longrightarrow> cache_sound b \<Longrightarrow> devFindCache b a = Some h \<Longrightarrow>
     first_in_range (devHeap b) (mmioDevs b) a = Some h"
  by (auto simp: cache_sound_def first_in_range_iff)

text \<open>The lookup, cached or not, is the search over the device list.\<close>

lemma find_spec:
  assumes "devs_wf b" "cache_sound b"
  shows "findDevAccordingToAddr b a = (fb, dev, b') \<Longrightarrow>
     first_in_range (devHeap b) (mmioDevs b) a = dev \<and>
     fb = (if dev = None then MEMU_NOT_FOUND else MEMU_OK) \<and>
     devHeap b' = devHeap b \<and> mmioDevs b' = mmioDevs b \<and> cache_sound b'"
proof (cases "devFindCache b a")
  case None
  then show "findDevAccordingToAddr b a = (fb, dev, b') \<Longrightarrow> ?thesis"
    using assms first_in_range_iff [OF assms(1)]
    by (auto simp: findDevAccordingToAddr_def cache_sound_def dev_of_def split: option.splits if_splits)
next
  case (Some h)
  moreover assume "findDevAccordingToAddr b a = (fb, dev, b')"
  ultimately have "fb = MEMU_OK \<and> dev = Some h \<and> b' = b"
    by (simp add: findDevAccordingToAddr_def)
  then show ?thesis using assms(2) cached_is_first [OF assms Some] by simp
qed

lemma find_cases:
  assumes "devs_wf b" "cache_sound b"
  obtains
    (none) b' where "findDevAccordingToAddr b a = (MEMU_NOT_FOUND, None, b')"
      "devHeap b' = devHeap b" "mmioDevs b' = mmioDevs b" "cache_sound b'"
  | (some) h b' where "findDevAccordingToAddr b a = (MEMU_OK, Some h, b')"
      "h \<in> set (mmioDevs b)" "isAddrInRange (dev_of b h) a"
      "devHeap b' = devHeap b" "mmioDevs b' = mmioDevs b" "cache_sound b'"
proof -
  obtain fb dev b' where f: "findDevAccordingToAddr b a = (fb, dev, b')" by (metis prod_cases3)
  note s = find_spec [OF assms f]
  show thesis
  proof (cases dev)
    case None
    with s f show thesis by (intro none [of b']) auto
  next
    case (Some h)
    with s have "first_in_range (devHeap b) (mmioDevs b) a = Some h" by simp
    with Some s f assms show thesis by (intro some [of h b']) (auto simp: first_in_range_iff)
  qed
qed

lemma devs_wf_cong:
  "devHeap b' = devHeap b \<Longrightarrow> mmioDevs b' = mmioDevs b \<Longrightarrow> devs_wf b' = devs_wf b"
  by (simp add: devs_wf_def dev_of_def)

lemma dev_of_set_dev:
  "h < length (devHeap b) \<Longrightarrow> dev_of (set_dev h d b) k = (if k = h then d else dev_of b k)"
  by (simp add: dev_of_def set_dev_def nth_list_update)

text \<open>Replacing a device by one with the same region keeps the bus well-formed.\<close>

lemma bus_wf_set_dev:
  assumes wf: "bus_wf dinv b" and h: "h \<in> set (mmioDevs b)"
    and d: "same_region d (dev_of b h)" "dinv d"
  shows "bus_wf dinv (set_dev h d b)"
proof -
  have len: "h < length (devHeap b)" using wf h by (auto simp: bus_wf_def devs_wf_def)
  have sr: "same_region (dev_of (set_dev h d b) k) (dev_of b k)" for k
    using d(1) len by (simp add: dev_of_set_dev same_region_def)
  have *: "devBaseAddr (dev_of (set_dev h d b) k) = devBaseAddr (dev_of b k)"
    "dev_end (dev_of (set_dev h d b) k) = dev_end (dev_of b k)"
    "region_ok (dev_of (set_dev h d b) k) = region_ok (dev_of b k)"
    "isAddrInRange (dev_of (set_dev h d b) k) x = isAddrInRange (dev_of b k) x" for k x
    using sr [of k] by (simp_all add: same_region_def dev_end_def region_ok_def isAddrInRange_def)
  have **: "mmioDevs (set_dev h d b) = mmioDevs b" "devFindCache (set_dev h d b) = devFindCache b"
    "length (devHeap (set_dev h d b)) = length (devHeap b)"
    by (simp_all add: set_dev_def)
  have "devs_wf (set_dev h d b)"
    using wf by (simp add: bus_wf_def devs_wf_def regions_apart_def * **)
  moreover have "cache_sound (set_dev h d b)"
    using wf by (simp add: bus_wf_def cache_sound_def * **)
  moreover have "\<forall>k \<in> set (mmioDevs (set_dev h d b)). dinv (dev_of (set_dev h d b) k)"
    using wf d(2) len by (auto simp: bus_wf_def dev_of_set_dev **)
  ultimately show ?thesis by (simp add: bus_wf_def)
qed

section \<open>Any devices that keep their contract make a bus that keeps its own\<close>

context mmio_device
begin

lemma bus_wf_find:
  assumes "bus_wf dinv b" "findDevAccordingToAddr b a = (fb, Some h, b')"
  shows "bus_wf dinv b'" "h \<in> set (mmioDevs b')" "dinv (dev_of b' h)" "fb = MEMU_OK"
proof -
  have w: "devs_wf b" "cache_sound b" and i: "\<forall>h \<in> set (mmioDevs b). dinv (dev_of b h)"
    using assms(1) by (simp_all add: bus_wf_def)
  note s = find_spec [OF w assms(2)]
  have same: "dev_of b' k = dev_of b k" for k using s by (simp add: dev_of_def)
  have m: "mmioDevs b' = mmioDevs b" using s by blast
  have "first_in_range (devHeap b) (mmioDevs b) a = Some h" using s by metis
  with w(1) have "h \<in> set (mmioDevs b)" by (simp add: first_in_range_iff)
  with i show "h \<in> set (mmioDevs b')" "dinv (dev_of b' h)" by (simp_all add: m same)
  show "bus_wf dinv b'"
    using w(1) i s devs_wf_cong [of b' b] by (simp add: bus_wf_def m same)
  show "fb = MEMU_OK" using s by simp
qed

lemma bus_wf_find_None:
  assumes "bus_wf dinv b" "findDevAccordingToAddr b a = (fb, None, b')"
  shows "bus_wf dinv b'" "fb = MEMU_NOT_FOUND"
proof -
  have w: "devs_wf b" "cache_sound b" and i: "\<forall>h \<in> set (mmioDevs b). dinv (dev_of b h)"
    using assms(1) by (simp_all add: bus_wf_def)
  note s = find_spec [OF w assms(2)]
  then show "bus_wf dinv b'" "fb = MEMU_NOT_FOUND"
    using w i devs_wf_cong [of b' b] by (simp_all add: bus_wf_def dev_of_def)
qed

lemma bus_read_wf:
  assumes wf: "bus_wf dinv b"
  shows "holdsR (bus_read ops b a n)
    (\<lambda>(fb, r, b'). bus_wf dinv b' \<and> (\<forall>bs. r = Some bs \<longrightarrow> unat n < 2 ^ 63 \<longrightarrow> length bs = unat n))"
proof -
  obtain fb dev b1 where f: "findDevAccordingToAddr b a = (fb, dev, b1)" by (metis prod_cases3)
  show ?thesis
  proof (cases dev)
    case None
    with f wf show ?thesis by (auto simp: bus_read_def dest: bus_wf_find_None)
  next
    case (Some h)
    note w = bus_wf_find [OF wf f [unfolded Some]]
    show ?thesis
      using f Some w(1,2,4)
      by (auto simp: bus_read_def split_def Let_def intro!: bus_wf_set_dev
          intro: holdsR_mono [OF read_all [OF w(3)]])
  qed
qed

lemma bus_write_wf:
  assumes wf: "bus_wf dinv b"
  shows "holdsR (bus_write ops b a bs) (\<lambda>(fb, b'). bus_wf dinv b')"
proof -
  obtain fb dev b1 where f: "findDevAccordingToAddr b a = (fb, dev, b1)" by (metis prod_cases3)
  show ?thesis
  proof (cases dev)
    case None
    with f wf show ?thesis by (auto simp: bus_write_def dest: bus_wf_find_None)
  next
    case (Some h)
    note w = bus_wf_find [OF wf f [unfolded Some]]
    show ?thesis
      using f Some w(1,2,4)
      by (auto simp: bus_write_def split_def Let_def intro!: bus_wf_set_dev
          intro: holdsR_mono [OF write_all [OF w(3)]])
  qed
qed

end

sublocale mmio_device \<subseteq> mem: paddr_bus "MEmu_bus_ops ops" "bus_wf dinv"
proof unfold_locales
  fix b a n fb bs b'
  assume "bus_wf dinv b" and "unat n < 2 ^ 63"
    and "PAddr_ReadBuffer_MMIOBus_API (MEmu_bus_ops ops) b a n = Inr (fb, Some bs, b')"
  then show "length bs = unat n"
    using bus_read_wf [of b a n] by (auto simp: MEmu_bus_ops_def)
next
  fix b a n fb r b'
  assume "bus_wf dinv b"
    and "PAddr_ReadBuffer_MMIOBus_API (MEmu_bus_ops ops) b a n = Inr (fb, r, b')"
  then show "bus_wf dinv b'"
    using bus_read_wf [of b a n] by (auto simp: MEmu_bus_ops_def)
next
  fix b a bs fb b'
  assume "bus_wf dinv b"
    and "PAddr_WriteBuffer_MMIOBus_API (MEmu_bus_ops ops) b a bs = Inr (fb, b')"
  then show "bus_wf dinv b'"
    using bus_write_wf [of b a bs] by (auto simp: MEmu_bus_ops_def)
qed

section \<open>Registration\<close>

text \<open>The old device strictly encloses the new one, the case the conflict test misses.\<close>

definition strictly_encloses :: "'d mmio_dev \<Rightarrow> 'd mmio_dev \<Rightarrow> bool" where
  "strictly_encloses old dev \<longleftrightarrow> devBaseAddr old < devBaseAddr dev \<and> dev_end dev < dev_end old"

lemma set_base_simps [simp]:
  "devBaseAddr (setDevBaseAddr x d) = x"
  "addrRegionSize (setDevBaseAddr x d) = addrRegionSize d"
  "devImpl (setDevBaseAddr x d) = devImpl d"
  by (simp_all add: setDevBaseAddr_def)

lemma register_cases:
  assumes "RegisterMMIODev_MMIOBus_API b dev base = Inr (fb, b')" "dev < length (devHeap b)"
  shows "fb = MEMU_OK \<and> devHeap b' = (devHeap b)[dev := setDevBaseAddr base (dev_of b dev)] \<and>
     devFindCache b' = devFindCache b \<and> set (mmioDevs b') = insert dev (set (mmioDevs b)) \<and>
     sorted (map (\<lambda>h. devBaseAddr (dev_of b' h)) (mmioDevs b')) \<and>
     (distinct (mmioDevs b) \<and> dev \<notin> set (mmioDevs b) \<longrightarrow> distinct (mmioDevs b')) \<and>
     (\<forall>d \<in> set (mmioDevs b). \<not> isAddrRegionConflict (dev_of b' dev) (dev_of b' d))"
proof -
  let ?b1 = "set_dev dev (setDevBaseAddr base (dev_of b dev)) b"
  let ?f = "\<lambda>d. devBaseAddr (dev_of ?b1 d)"
  from assms(1) have nc: "\<forall>d \<in> set (mmioDevs b). \<not> isAddrRegionConflict (dev_of ?b1 dev) (dev_of ?b1 d)"
    and b': "fb = MEMU_OK" "b' = ?b1\<lparr>mmioDevs := sort_key ?f (mmioDevs b @ [dev])\<rparr>"
    by (auto simp: RegisterMMIODev_MMIOBus_API_def Let_def list_ex_iff set_dev_def split: if_splits)
  have d: "dev_of b' h = dev_of ?b1 h" for h by (simp add: b' dev_of_def)
  show ?thesis
    using nc sorted_sort_key [of ?f "mmioDevs b @ [dev]"]
    by (simp add: d) (simp add: b' set_dev_def)
qed

lemma register_wf:
  assumes wf: "bus_wf dinv b" and new: "dev < length (devHeap b)" "dev \<notin> set (mmioDevs b)"
    and d: "dinv (setDevBaseAddr base (dev_of b dev))" "region_ok (setDevBaseAddr base (dev_of b dev))"
    and enc: "\<And>h. h \<in> set (mmioDevs b) \<Longrightarrow> \<not> strictly_encloses (dev_of b h) (setDevBaseAddr base (dev_of b dev))"
    and r: "RegisterMMIODev_MMIOBus_API b dev base = Inr (fb, b')"
  shows "bus_wf dinv b'"
proof -
  let ?n = "setDevBaseAddr base (dev_of b dev)"
  note rc = register_cases [OF r new(1)]
  have new': "dev_of b' dev = ?n" and old: "h \<noteq> dev \<Longrightarrow> dev_of b' h = dev_of b h" for h
    using rc new(1) by (simp_all add: dev_of_def)
  have olds: "h \<in> set (mmioDevs b) \<Longrightarrow> dev_of b' h = dev_of b h" for h
    using old new(2) by metis
  have w: "devs_wf b" "cache_sound b" "\<forall>h \<in> set (mmioDevs b). dinv (dev_of b h)"
    using wf by (simp_all add: bus_wf_def)
  have ok: "h \<in> set (mmioDevs b) \<Longrightarrow> region_ok (dev_of b h)" for h
    using w(1) by (simp add: devs_wf_def)
  have apart: "regions_apart ?n (dev_of b h)" if "h \<in> set (mmioDevs b)" for h
  proof -
    have "\<not> isAddrRegionConflict ?n (dev_of b h)"
      using rc that new' olds [OF that] by force
    then show ?thesis
      using no_conflict_cases [OF _ d(2) ok [OF that]] enc [OF that]
      by (auto simp: regions_apart_def strictly_encloses_def)
  qed
  have sym: "regions_apart x y \<Longrightarrow> regions_apart y x" for x y :: "'a mmio_dev"
    by (auto simp: regions_apart_def)
  have "devs_wf b'"
    unfolding devs_wf_def
  proof (intro conjI)
    show "distinct (mmioDevs b')" using rc w(1) new(2) by (simp add: devs_wf_def)
    show "sorted (map (\<lambda>h. devBaseAddr (dev_of b' h)) (mmioDevs b'))" using rc by blast
    show "\<forall>h \<in> set (mmioDevs b'). h < length (devHeap b') \<and> region_ok (dev_of b' h)"
      using rc w(1) new(1) d(2) new' olds by (auto simp: devs_wf_def)
    show "\<forall>h \<in> set (mmioDevs b'). \<forall>k \<in> set (mmioDevs b'). h \<noteq> k \<longrightarrow>
        regions_apart (dev_of b' h) (dev_of b' k)"
      using rc w(1) new' olds apart sym by (auto simp: devs_wf_def)
  qed
  moreover have "cache_sound b'"
    using w(2) rc olds by (auto simp: cache_sound_def)
  moreover have "\<forall>h \<in> set (mmioDevs b'). dinv (dev_of b' h)"
    using w(3) rc d(1) new' olds by auto
  ultimately show ?thesis by (simp add: bus_wf_def)
qed

lemma bus_wf_new: "bus_wf dinv (new_bus hp)"
  by (simp add: bus_wf_def devs_wf_def cache_sound_def new_bus_def)

section \<open>Routing\<close>

lemma bus_routes:
  assumes "bus_wf dinv b" and "h \<in> set (mmioDevs b)" and "isAddrInRange (dev_of b h) a"
  shows "\<exists>b1. devHeap b1 = devHeap b \<and> mmioDevs b1 = mmioDevs b \<and>
    bus_read ops b a n =
      bindR (ReadBuffer_MMIODev_API ops (dev_of b h) (a - devBaseAddr (dev_of b h)) n)
        (\<lambda>(status, buf, d). Inr (MEMU_OK, buf, set_dev h d b1)) \<and>
    bus_write ops b a bs =
      bindR (WriteBuffer_MMIODev_API ops (dev_of b h) (a - devBaseAddr (dev_of b h)) bs)
        (\<lambda>(status, d). Inr (MEMU_OK, set_dev h d b1))"
proof -
  have w: "devs_wf b" "cache_sound b" using assms(1) by (simp_all add: bus_wf_def)
  then show ?thesis
  proof (cases rule: find_cases [of b a])
    case (none b')
    with find_spec [OF w none(1)] assms(2,3) show ?thesis by (auto simp: first_in_range_None dev_of_def)
  next
    case (some k b')
    then have "k = h" using decode_unique [OF w(1)] assms(2,3) by blast
    with some show ?thesis by (intro exI [of _ b']) (simp add: bus_read_def bus_write_def dev_of_def)
  qed
qed

section \<open>Properties\<close>

text \<open>A bus with one sixteen-byte device at address 256.\<close>

definition example_dev :: "unit mmio_dev" where
  "example_dev = \<lparr>devBaseAddr = 0, addrRegionSize = 16, devImpl = ()\<rparr>"

definition example_bus1 :: "unit mmio_bus" where
  "example_bus1 = (new_bus [setDevBaseAddr 256 example_dev, example_dev])\<lparr>mmioDevs := [0]\<rparr>"

lemma example_bus1_wf: "bus_wf (\<lambda>_. True) example_bus1"
  by (simp add: bus_wf_def devs_wf_def cache_sound_def example_bus1_def example_dev_def new_bus_def
      dev_of_def region_ok_def setDevBaseAddr_def)

text \<open>C19: Address decoding, cached or not, returns the one registered device whose region holds the
  address and keeps the bus well-formed.\<close>

theorem lookup_is_search:
  assumes "bus_wf dinv b"
  shows "case findDevAccordingToAddr b a of (fb, dev, b') \<Rightarrow>
    (\<forall>h. dev = Some h \<longleftrightarrow> h \<in> set (mmioDevs b) \<and> isAddrInRange (dev_of b h) a) \<and>
    fb = (if dev = None then MEMU_NOT_FOUND else MEMU_OK) \<and>
    devHeap b' = devHeap b \<and> mmioDevs b' = mmioDevs b \<and> bus_wf dinv b'"
proof -
  obtain fb dev b' where f: "findDevAccordingToAddr b a = (fb, dev, b')" by (metis prod_cases3)
  have w: "devs_wf b" "cache_sound b" "\<forall>h \<in> set (mmioDevs b). dinv (dev_of b h)"
    using assms by (simp_all add: bus_wf_def)
  note s = find_spec [OF w(1,2) f]
  then have "bus_wf dinv b'"
    using w devs_wf_cong [of b' b] by (simp add: bus_wf_def dev_of_def)
  then show ?thesis using s first_in_range_iff [OF w(1), of a] by (auto simp: f)
qed

theorem lookup_is_search_witness:
  "case findDevAccordingToAddr example_bus1 260 of (fb, dev, b') \<Rightarrow> dev = Some 0 \<and> fb = MEMU_OK"
proof -
  have "isAddrInRange (dev_of example_bus1 0) 260" "mmioDevs example_bus1 = [0]"
    by (simp_all add: example_bus1_def example_dev_def new_bus_def dev_of_def isAddrInRange_def)
  moreover obtain fb dev b' where f: "findDevAccordingToAddr example_bus1 260 = (fb, dev, b')"
    by (metis prod_cases3)
  moreover note lookup_is_search [OF example_bus1_wf, of 260]
  ultimately have "dev = Some 0" "fb = (if dev = None then MEMU_NOT_FOUND else MEMU_OK)" by auto
  then show ?thesis by (simp add: f)
qed

text \<open>The bus hands an access to the device that owns the address, relative to its base, replaces
  that device alone, and answers MEMU_OK whatever status the device returned.\<close>

theorem bus_routes_accesses:
  assumes "bus_wf dinv b" and "h \<in> set (mmioDevs b)" and "isAddrInRange (dev_of b h) a"
  shows "\<exists>b1. devHeap b1 = devHeap b \<and> mmioDevs b1 = mmioDevs b \<and>
    bus_read ops b a n =
      bindR (ReadBuffer_MMIODev_API ops (dev_of b h) (a - devBaseAddr (dev_of b h)) n)
        (\<lambda>(status, buf, d). Inr (MEMU_OK, buf, set_dev h d b1)) \<and>
    bus_write ops b a bs =
      bindR (WriteBuffer_MMIODev_API ops (dev_of b h) (a - devBaseAddr (dev_of b h)) bs)
        (\<lambda>(status, d). Inr (MEMU_OK, set_dev h d b1))"
  by (rule bus_routes [OF assms])

theorem bus_routes_accesses_witness:
  "\<exists>b1. bus_read \<lparr>ReadBuffer_MMIODev_API = (\<lambda>d a n. Inr (MEMU_UNKNOWN, Some [ucast a], d)),
                    WriteBuffer_MMIODev_API = (\<lambda>d a bs. Inr (MEMU_UNKNOWN, d))\<rparr> example_bus1 260 1 =
     Inr (MEMU_OK, Some [4], b1)"
proof -
  have d: "0 \<in> set (mmioDevs example_bus1)" "isAddrInRange (dev_of example_bus1 0) 260"
      "devBaseAddr (dev_of example_bus1 0) = 256"
    by (simp_all add: example_bus1_def example_dev_def new_bus_def dev_of_def isAddrInRange_def)
  show ?thesis
    using bus_routes_accesses [OF example_bus1_wf d(1,2),
        of "\<lparr>ReadBuffer_MMIODev_API = (\<lambda>d a n. Inr (MEMU_UNKNOWN, Some [ucast a], d)),
             WriteBuffer_MMIODev_API = (\<lambda>d a bs. Inr (MEMU_UNKNOWN, d))\<rparr>" 1] d(3)
    by auto
qed

text \<open>C20: Registering a device that no old device strictly encloses keeps the bus well-formed:
  sorted, without overlaps and with a sound lookup cache.\<close>

theorem register_keeps_bus_wf:
  assumes "bus_wf dinv b" and "dev < length (devHeap b)" and "dev \<notin> set (mmioDevs b)"
    and "dinv (setDevBaseAddr base (dev_of b dev))" and "region_ok (setDevBaseAddr base (dev_of b dev))"
    and "\<And>h. h \<in> set (mmioDevs b) \<Longrightarrow> \<not> strictly_encloses (dev_of b h) (setDevBaseAddr base (dev_of b dev))"
  shows "holdsR (RegisterMMIODev_MMIOBus_API b dev base)
    (\<lambda>(fb, b'). fb = MEMU_OK \<and> bus_wf dinv b' \<and> set (mmioDevs b') = insert dev (set (mmioDevs b)))"
  by (rule holdsR_I) (use register_wf [OF assms] register_cases [OF _ assms(2)] in fast)

theorem register_keeps_bus_wf_witness:
  "holdsR (RegisterMMIODev_MMIOBus_API example_bus1 1 512)
    (\<lambda>(fb, b'). fb = MEMU_OK \<and> bus_wf (\<lambda>_. True) b' \<and> set (mmioDevs b') = {0, 1})"
proof -
  have "1 < length (devHeap example_bus1)" "1 \<notin> set (mmioDevs example_bus1)"
    "region_ok (setDevBaseAddr 512 (dev_of example_bus1 1))"
    "\<And>h. h \<in> set (mmioDevs example_bus1) \<Longrightarrow>
       \<not> strictly_encloses (dev_of example_bus1 h) (setDevBaseAddr 512 (dev_of example_bus1 1))"
    by (simp_all add: example_bus1_def example_dev_def new_bus_def dev_of_def region_ok_def
        strictly_encloses_def dev_end_def)
  from register_keeps_bus_wf [OF example_bus1_wf this(1,2) TrueI this(3,4)]
  show ?thesis
    by (rule holdsR_mono) (auto simp: example_bus1_def)
qed

text \<open>The conflict test misses a new device that lies strictly inside an old one, although both
  regions then hold its base address.\<close>

theorem enclosed_device_is_accepted:
  assumes "region_ok old" and "region_ok dev" and "strictly_encloses old dev"
  shows "\<not> isAddrRegionConflict dev old \<and> isAddrRegionConflict old dev \<and>
    isAddrInRange old (devBaseAddr dev) \<and> isAddrInRange dev (devBaseAddr dev)"
  using assms region_ok_end [of dev]
  by (auto simp: conflict_iff strictly_encloses_def isAddrInRange_def dev_end_def)

theorem enclosed_device_is_accepted_witness:
  "\<not> isAddrRegionConflict (setDevBaseAddr 4 example_dev) (example_dev\<lparr>addrRegionSize := 64\<rparr>)"
proof -
  have "region_ok (example_dev\<lparr>addrRegionSize := 64\<rparr>)" "region_ok (setDevBaseAddr 4 example_dev)"
    "strictly_encloses (example_dev\<lparr>addrRegionSize := 64\<rparr>) (setDevBaseAddr 4 example_dev)"
    by (simp_all add: example_dev_def region_ok_def strictly_encloses_def dev_end_def)
  from enclosed_device_is_accepted [OF this] show ?thesis by simp
qed

end
