(* ===== verification/RV64_Structs.thy ===== *)
theory RV64_Structs
  imports Prelude
begin

unbundle bit_operations_syntax

text \<open>
  The enumerations and the register layouts of the core:
  \<open>include/rv64_structs.h\<close>, \<open>include/rv64_csr_structs.h\<close> and
  \<open>include/rv64_sv39_structs.h\<close> of \<open>modules/core/rv64\<close>. A field of a layout is the pair of its
  first bit and its width.
\<close>

section \<open>Privilege modes\<close>

datatype PrivMode_e = U_MODE | S_MODE | H_MODE | M_MODE

primrec priv_code :: "PrivMode_e \<Rightarrow> u64" where
  "priv_code U_MODE = 0"
| "priv_code S_MODE = 1"
| "priv_code H_MODE = 2"
| "priv_code M_MODE = 3"

text \<open>The cast of a two-bit field to the enumeration.\<close>

definition priv_of :: "u64 \<Rightarrow> PrivMode_e" where
  "priv_of w = (if w = 0 then U_MODE else if w = 1 then S_MODE else if w = 2 then H_MODE else M_MODE)"

instantiation PrivMode_e :: linorder
begin

definition less_eq_PrivMode_e :: "PrivMode_e \<Rightarrow> PrivMode_e \<Rightarrow> bool" where
  "less_eq_PrivMode_e p q \<longleftrightarrow> priv_code p \<le> priv_code q"

definition less_PrivMode_e :: "PrivMode_e \<Rightarrow> PrivMode_e \<Rightarrow> bool" where
  "less_PrivMode_e p q \<longleftrightarrow> priv_code p < priv_code q"

instance
proof
  fix p q r :: PrivMode_e
  show "(p < q) = (p \<le> q \<and> \<not> q \<le> p)"
    by (auto simp: less_eq_PrivMode_e_def less_PrivMode_e_def not_le)
  show "p \<le> p" by (simp add: less_eq_PrivMode_e_def)
  show "p \<le> q \<Longrightarrow> q \<le> r \<Longrightarrow> p \<le> r" by (simp add: less_eq_PrivMode_e_def)
  show "p \<le> q \<Longrightarrow> q \<le> p \<Longrightarrow> p = q"
    by (cases p; cases q) (simp_all add: less_eq_PrivMode_e_def word_le_nat_alt)
  show "p \<le> q \<or> q \<le> p" by (simp add: less_eq_PrivMode_e_def linear)
qed

end

lemma priv_less [simp]:
  "U_MODE < S_MODE" "U_MODE < H_MODE" "U_MODE < M_MODE" "S_MODE < H_MODE" "S_MODE < M_MODE" "H_MODE < M_MODE"
  by (simp_all add: less_PrivMode_e_def)

lemma priv_less_M [simp]: "p < M_MODE \<longleftrightarrow> p \<noteq> M_MODE"
  by (cases p) simp_all

lemma priv_of_code [simp]: "priv_of (priv_code p) = p"
  by (cases p) (simp_all add: priv_of_def)

section \<open>Exceptions and interrupts\<close>

datatype RV64_ExecFeedbackCode_e =
    exec_instr_misalign
  | exec_instr_acc_fault
  | exec_illegal_instr
  | exec_breakpoint
  | exec_load_misalign
  | exec_load_acc_fault
  | exec_store_misalign
  | exec_store_acc_fault
  | exec_ecall_from_user
  | exec_ecall_from_supervisor
  | exec_ecall_from_machine
  | exec_instr_pgfault
  | exec_load_pgfault
  | exec_store_pgfault
  | exec_ok

primrec exec_code :: "RV64_ExecFeedbackCode_e \<Rightarrow> u64" where
  "exec_code exec_instr_misalign = 0"
| "exec_code exec_instr_acc_fault = 1"
| "exec_code exec_illegal_instr = 2"
| "exec_code exec_breakpoint = 3"
| "exec_code exec_load_misalign = 4"
| "exec_code exec_load_acc_fault = 5"
| "exec_code exec_store_misalign = 6"
| "exec_code exec_store_acc_fault = 7"
| "exec_code exec_ecall_from_user = 8"
| "exec_code exec_ecall_from_supervisor = 9"
| "exec_code exec_ecall_from_machine = 11"
| "exec_code exec_instr_pgfault = 12"
| "exec_code exec_load_pgfault = 13"
| "exec_code exec_store_pgfault = 15"
| "exec_code exec_ok = 24"

datatype IntType_e =
    int_s_sw | int_m_sw | int_s_timer | int_m_timer | int_s_ext | int_m_ext | int_no_int

primrec int_code :: "IntType_e \<Rightarrow> nat" where
  "int_code int_s_sw = 1"
| "int_code int_m_sw = 3"
| "int_code int_s_timer = 5"
| "int_code int_m_timer = 7"
| "int_code int_s_ext = 9"
| "int_code int_m_ext = 11"
| "int_code int_no_int = 24"

definition int_bit :: "IntType_e \<Rightarrow> u64" where
  "int_bit i = push_bit (int_code i) 1"

definition bits_to_int_type :: "u64 \<Rightarrow> IntType_e" where
  "bits_to_int_type int_bits =
     (if int_bits AND int_bit int_m_ext \<noteq> 0 then int_m_ext
      else if int_bits AND int_bit int_m_sw \<noteq> 0 then int_m_sw
      else if int_bits AND int_bit int_m_timer \<noteq> 0 then int_m_timer
      else if int_bits AND int_bit int_s_ext \<noteq> 0 then int_s_ext
      else if int_bits AND int_bit int_s_sw \<noteq> 0 then int_s_sw
      else if int_bits AND int_bit int_s_timer \<noteq> 0 then int_s_timer
      else int_no_int)"

section \<open>Layouts\<close>

subsection \<open>\<open>satp\<close>, virtual addresses and page-table entries\<close>

definition satp_ppn :: bitfield where [field_defs]: "satp_ppn = (0, 44)"
definition satp_asid :: bitfield where [field_defs]: "satp_asid = (44, 16)"
definition satp_mode :: bitfield where [field_defs]: "satp_mode = (60, 4)"

definition va_vpn_0 :: bitfield where [field_defs]: "va_vpn_0 = (12, 9)"
definition va_vpn_1 :: bitfield where [field_defs]: "va_vpn_1 = (21, 9)"
definition va_vpn_2 :: bitfield where [field_defs]: "va_vpn_2 = (30, 9)"
definition va_blank :: bitfield where [field_defs]: "va_blank = (39, 25)"

definition pte_V :: bitfield where [field_defs]: "pte_V = (0, 1)"
definition pte_R :: bitfield where [field_defs]: "pte_R = (1, 1)"
definition pte_W :: bitfield where [field_defs]: "pte_W = (2, 1)"
definition pte_X :: bitfield where [field_defs]: "pte_X = (3, 1)"
definition pte_U :: bitfield where [field_defs]: "pte_U = (4, 1)"
definition pte_G :: bitfield where [field_defs]: "pte_G = (5, 1)"
definition pte_A :: bitfield where [field_defs]: "pte_A = (6, 1)"
definition pte_D :: bitfield where [field_defs]: "pte_D = (7, 1)"
definition pte_PPN0 :: bitfield where [field_defs]: "pte_PPN0 = (10, 9)"
definition pte_PPN1 :: bitfield where [field_defs]: "pte_PPN1 = (19, 9)"
definition pte_PPN2 :: bitfield where [field_defs]: "pte_PPN2 = (28, 26)"
definition pte_reserved :: bitfield where [field_defs]: "pte_reserved = (54, 7)"
definition pte_PBMT :: bitfield where [field_defs]: "pte_PBMT = (61, 2)"

subsection \<open>\<open>mstatus\<close> and \<open>sstatus\<close>\<close>

definition ms_blank0 :: bitfield where [field_defs]: "ms_blank0 = (0, 1)"
definition ms_sie :: bitfield where [field_defs]: "ms_sie = (1, 1)"
definition ms_blank1 :: bitfield where [field_defs]: "ms_blank1 = (2, 1)"
definition ms_mie :: bitfield where [field_defs]: "ms_mie = (3, 1)"
definition ms_blank2 :: bitfield where [field_defs]: "ms_blank2 = (4, 1)"
definition ms_spie :: bitfield where [field_defs]: "ms_spie = (5, 1)"
definition ms_ube :: bitfield where [field_defs]: "ms_ube = (6, 1)"
definition ms_mpie :: bitfield where [field_defs]: "ms_mpie = (7, 1)"
definition ms_spp :: bitfield where [field_defs]: "ms_spp = (8, 1)"
definition ms_vs :: bitfield where [field_defs]: "ms_vs = (9, 2)"
definition ms_mpp :: bitfield where [field_defs]: "ms_mpp = (11, 2)"
definition ms_fs :: bitfield where [field_defs]: "ms_fs = (13, 2)"
definition ms_xs :: bitfield where [field_defs]: "ms_xs = (15, 2)"
definition ms_mprv :: bitfield where [field_defs]: "ms_mprv = (17, 1)"
definition ms_sum :: bitfield where [field_defs]: "ms_sum = (18, 1)"
definition ms_mxr :: bitfield where [field_defs]: "ms_mxr = (19, 1)"
definition ms_tvm :: bitfield where [field_defs]: "ms_tvm = (20, 1)"
definition ms_tw :: bitfield where [field_defs]: "ms_tw = (21, 1)"
definition ms_tsr :: bitfield where [field_defs]: "ms_tsr = (22, 1)"
definition ms_blank3 :: bitfield where [field_defs]: "ms_blank3 = (23, 9)"
definition ms_uxl :: bitfield where [field_defs]: "ms_uxl = (32, 2)"
definition ms_sxl :: bitfield where [field_defs]: "ms_sxl = (34, 2)"
definition ms_sbe :: bitfield where [field_defs]: "ms_sbe = (36, 1)"
definition ms_mbe :: bitfield where [field_defs]: "ms_mbe = (37, 1)"
definition ms_blank4 :: bitfield where [field_defs]: "ms_blank4 = (38, 25)"
definition ms_sd :: bitfield where [field_defs]: "ms_sd = (63, 1)"

definition ss_sie :: bitfield where [field_defs]: "ss_sie = (1, 1)"
definition ss_spie :: bitfield where [field_defs]: "ss_spie = (5, 1)"
definition ss_ube :: bitfield where [field_defs]: "ss_ube = (6, 1)"
definition ss_spp :: bitfield where [field_defs]: "ss_spp = (8, 1)"
definition ss_vs :: bitfield where [field_defs]: "ss_vs = (9, 2)"
definition ss_fs :: bitfield where [field_defs]: "ss_fs = (13, 2)"
definition ss_xs :: bitfield where [field_defs]: "ss_xs = (15, 2)"
definition ss_sum :: bitfield where [field_defs]: "ss_sum = (18, 1)"
definition ss_mxr :: bitfield where [field_defs]: "ss_mxr = (19, 1)"
definition ss_uxl :: bitfield where [field_defs]: "ss_uxl = (32, 2)"
definition ss_sd :: bitfield where [field_defs]: "ss_sd = (63, 1)"

subsection \<open>Trap, interrupt, counter and identification registers\<close>

definition tv_mode :: bitfield where [field_defs]: "tv_mode = (0, 2)"
definition tv_base :: bitfield where [field_defs]: "tv_base = (2, 62)"

definition ca_cause :: bitfield where [field_defs]: "ca_cause = (0, 63)"
definition ca_interrupt :: bitfield where [field_defs]: "ca_interrupt = (63, 1)"

definition ip_m_s_ip :: bitfield where [field_defs]: "ip_m_s_ip = (3, 1)"
definition ip_m_t_ip :: bitfield where [field_defs]: "ip_m_t_ip = (7, 1)"
definition ip_s_e_ip :: bitfield where [field_defs]: "ip_s_e_ip = (9, 1)"
definition ip_m_e_ip :: bitfield where [field_defs]: "ip_m_e_ip = (11, 1)"

definition cen_cycle :: bitfield where [field_defs]: "cen_cycle = (0, 1)"

definition misa_ext :: bitfield where [field_defs]: "misa_ext = (0, 26)"
definition misa_blank :: bitfield where [field_defs]: "misa_blank = (26, 36)"
definition misa_mxl :: bitfield where [field_defs]: "misa_mxl = (62, 2)"

text \<open>\<open>rv_ext(x)\<close>, the bit of an extension letter.\<close>

definition rv_ext :: "char \<Rightarrow> u64" where
  "rv_ext x = push_bit (of_char x - of_char (CHR ''a'')) 1"

text \<open>A \<open>CSReg_Cause_t\<close> built from its two fields.\<close>

definition mk_cause :: "u64 \<Rightarrow> u64 \<Rightarrow> u64" where
  "mk_cause cause interrupt = bput ca_interrupt interrupt (bput ca_cause cause 0)"

section \<open>Lemmas\<close>

text \<open>Each field of \<open>sstatus\<close> is the homonymous field of \<open>mstatus\<close>.\<close>

lemma sstatus_in_mstatus:
  "ss_sie = ms_sie" "ss_spie = ms_spie" "ss_ube = ms_ube" "ss_spp = ms_spp" "ss_vs = ms_vs"
  "ss_fs = ms_fs" "ss_xs = ms_xs" "ss_sum = ms_sum" "ss_mxr = ms_mxr" "ss_uxl = ms_uxl" "ss_sd = ms_sd"
  by (simp_all add: field_defs)

lemma and_bit_nonzero: "w AND push_bit n 1 \<noteq> 0 \<longleftrightarrow> bit (w :: 'a::len word) n"
  by (simp add: and_exp_eq_0_iff_not_bit push_bit_eq_mult)

lemma int_bit_set: "w AND int_bit i \<noteq> 0 \<longleftrightarrow> bit w (int_code i)"
  unfolding int_bit_def by (rule and_bit_nonzero)

end
