(* ===== verification/Alu.thy ===== *)
theory Alu
  imports RV64_Structs "HOL-Library.Signed_Division"
begin

unbundle bit_operations_syntax

text \<open>
  The integer unit of the core: \<open>alu_exec\<close> of \<open>modules/core/rv64/inline_impl/rv64_common.hpp\<close>
  over the operations of \<open>ALU_Op_enum\<close>, and its specification over the integers.
\<close>

section \<open>The code\<close>

datatype ALU_Op_enum =
    ALU_ADD | ALU_SUB | ALU_SLL | ALU_SLT | ALU_SLTU | ALU_XOR | ALU_SRL | ALU_SRA | ALU_OR | ALU_AND
  | ALU_MUL | ALU_MULH | ALU_MULHU | ALU_MULHSU | ALU_DIV | ALU_DIVU | ALU_REM | ALU_REMU
  | ALU_NOP

text \<open>The conversion \<open>(int64_t)(int32_t)w\<close>.\<close>

definition sext32 :: "u64 \<Rightarrow> u64" where
  "sext32 w = scast (ucast w :: u32)"

definition LONG_MIN :: u64 where
  "LONG_MIN = 0x8000000000000000"

text \<open>
  An \<open>int64_t\<close> is its two's-complement word, read with \<open>sint\<close> where the code compares or
  divides; signed overflow wraps, as the compiled code does.
\<close>

definition alu_exec :: "u64 \<Rightarrow> u64 \<Rightarrow> ALU_Op_enum \<Rightarrow> bool \<Rightarrow> u64 res" where
  "alu_exec a0 b0 op op_32 =
     (let a = (if op_32 then sext32 a0 else a0);
          b = (if op_32 then sext32 b0 else b0);
          shamt = unat (b AND (if op_32 then 0x1f else 0x3f));
          ret = (\<lambda>result. Inr (if op_32 then sext32 result else result))
      in case op of
        ALU_ADD \<Rightarrow> ret (a + b)
      | ALU_SUB \<Rightarrow> ret (a - b)
      | ALU_SLL \<Rightarrow> ret (push_bit shamt a)
      | ALU_SLT \<Rightarrow> ret (if sint a < sint b then 1 else 0)
      | ALU_SLTU \<Rightarrow> ret (if a < b then 1 else 0)
      | ALU_XOR \<Rightarrow> ret (a XOR b)
      | ALU_SRL \<Rightarrow> ret (drop_bit shamt (if op_32 then a AND 0xffffffff else a))
      | ALU_SRA \<Rightarrow> ret (signed_drop_bit shamt a)
      | ALU_OR \<Rightarrow> ret (a OR b)
      | ALU_AND \<Rightarrow> ret (a AND b)
      | ALU_MUL \<Rightarrow> ret (a * b)
      | ALU_MULH \<Rightarrow> ret (ucast (drop_bit 64 ((scast a :: u128) * (scast b :: u128))))
      | ALU_MULHU \<Rightarrow> ret (ucast (drop_bit 64 ((ucast a :: u128) * (ucast b :: u128))))
      | ALU_MULHSU \<Rightarrow> ret (ucast (drop_bit 64 ((scast a :: u128) * (ucast b :: u128))))
      | ALU_DIV \<Rightarrow>
          ret (if b = 0 then - 1
               else if a = LONG_MIN \<and> b = - 1 then LONG_MIN
               else word_of_int (sint a sdiv sint b))
      | ALU_DIVU \<Rightarrow>
          ret (if b = 0 then - 1
               else if op_32 then ucast ((ucast a :: u32) div (ucast b :: u32))
               else a div b)
      | ALU_REM \<Rightarrow>
          ret (if b = 0 then a
               else if a = LONG_MIN \<and> b = - 1 then 0
               else word_of_int (sint a smod sint b))
      | ALU_REMU \<Rightarrow>
          ret (if b = 0 then a
               else if op_32 then ucast ((ucast a :: u32) mod (ucast b :: u32))
               else a mod b)
      | ALU_NOP \<Rightarrow> Inl AssertionFailure)"

section \<open>The specification\<close>

text \<open>
  The result of each operation of the RISC-V manual on operands of \<open>LENGTH('a)\<close> bits, as an
  integer; the destination register receives it modulo \<open>2 ^ LENGTH('a)\<close>.
\<close>

definition alu_spec :: "ALU_Op_enum \<Rightarrow> 'a::len word \<Rightarrow> 'a word \<Rightarrow> int" where
  "alu_spec op a b =
     (let n = nat (uint b mod int LENGTH('a)) in
      case op of
        ALU_ADD \<Rightarrow> sint a + sint b
      | ALU_SUB \<Rightarrow> sint a - sint b
      | ALU_SLL \<Rightarrow> uint a * 2 ^ n
      | ALU_SLT \<Rightarrow> of_bool (sint a < sint b)
      | ALU_SLTU \<Rightarrow> of_bool (uint a < uint b)
      | ALU_XOR \<Rightarrow> sint a XOR sint b
      | ALU_SRL \<Rightarrow> uint a div 2 ^ n
      | ALU_SRA \<Rightarrow> sint a div 2 ^ n
      | ALU_OR \<Rightarrow> sint a OR sint b
      | ALU_AND \<Rightarrow> sint a AND sint b
      | ALU_MUL \<Rightarrow> sint a * sint b
      | ALU_MULH \<Rightarrow> sint a * sint b div 2 ^ LENGTH('a)
      | ALU_MULHU \<Rightarrow> uint a * uint b div 2 ^ LENGTH('a)
      | ALU_MULHSU \<Rightarrow> sint a * uint b div 2 ^ LENGTH('a)
      | ALU_DIV \<Rightarrow> if b = 0 then - 1 else sint a sdiv sint b
      | ALU_DIVU \<Rightarrow> if b = 0 then 2 ^ LENGTH('a) - 1 else uint a div uint b
      | ALU_REM \<Rightarrow> if b = 0 then sint a else sint a smod sint b
      | ALU_REMU \<Rightarrow> if b = 0 then uint a else uint a mod uint b
      | ALU_NOP \<Rightarrow> 0)"

section \<open>Words as integers\<close>

lemma and_mask6: "unat (b AND 0x3f :: u64) = nat (uint b mod 64)"
proof -
  have "b AND 0x3f = take_bit 6 b" by (simp add: take_bit_eq_mask mask_eq_exp_minus_1)
  then show ?thesis by (simp add: unat_eq_nat_uint take_bit_eq_mod uint_mod)
qed

lemma mulh_128: "ucast (drop_bit 64 (word_of_int x :: u128)) = (word_of_int (x div 2 ^ 64) :: u64)"
proof -
  have d: "x div 2 ^ 64 = drop_bit 64 x" by (simp add: drop_bit_eq_div)
  show ?thesis unfolding d by (rule bit_word_eqI) (simp add: bit_simps)
qed

lemma scast_woi: "(scast (a :: 'a::len word) :: 'b::len word) = word_of_int (sint a)"
  by transfer simp

lemma ucast_woi: "(ucast (a :: 'a::len word) :: 'b::len word) = word_of_int (uint a)"
  by transfer simp

lemma mulh_woi: "ucast (drop_bit 64 ((scast (a :: u64) :: u128) * scast b)) = (word_of_int (sint a * sint b div 2 ^ 64) :: u64)"
  unfolding scast_woi of_int_mult [symmetric] by (rule mulh_128)

lemma mulhu_woi: "ucast (drop_bit 64 ((ucast (a :: u64) :: u128) * ucast b)) = (word_of_int (uint a * uint b div 2 ^ 64) :: u64)"
  using mulh_128 [of "uint a * uint b"] by (simp only: ucast_woi of_int_mult)

lemma mulhsu_woi: "ucast (drop_bit 64 ((scast (a :: u64) :: u128) * ucast b)) = (word_of_int (sint a * uint b div 2 ^ 64) :: u64)"
  using mulh_128 [of "sint a * uint b"] by (simp only: scast_woi ucast_woi of_int_mult)

lemma sra_woi: "signed_drop_bit n (a :: 'a::len word) = word_of_int (sint a div 2 ^ n)"
  by transfer (simp add: drop_bit_eq_div)

lemma srl_woi: "drop_bit n (a :: 'a::len word) = word_of_int (uint a div 2 ^ n)"
  by transfer (simp add: drop_bit_eq_div)

lemma sll_woi: "push_bit n (a :: 'a::len word) = word_of_int (uint a * 2 ^ n)"
  by (simp add: push_bit_eq_mult)

lemma bitop_woi:
  "word_of_int (sint a AND sint b) = (a AND b :: 'a::len word)"
  "word_of_int (sint a OR sint b) = (a OR b :: 'a::len word)"
  "word_of_int (sint a XOR sint b) = (a XOR b :: 'a::len word)"
  by (simp_all add: of_int_and_eq of_int_or_eq of_int_xor_eq)

lemma div_woi: 
  "word_of_int (uint a div uint b) = (a div b :: 'a::len word)"
  "word_of_int (uint a mod uint b) = (a mod b :: 'a::len word)"
  by (simp_all add: word_div_def word_mod_def)

lemma alu_exec_64:
  assumes "op \<noteq> ALU_NOP"
  shows "alu_exec a b op False = Inr (word_of_int (alu_spec op a b))"
proof -
  have sh: "unat (b AND 0x3f) = nat (uint b mod 64)" by (rule and_mask6)
  show ?thesis
  proof (cases op)
    case ALU_DIV
    then show ?thesis
      by (simp add: alu_exec_def alu_spec_def Let_def) (auto simp: LONG_MIN_def)
  next
    case ALU_REM
    then show ?thesis
      by (simp add: alu_exec_def alu_spec_def Let_def) (auto simp: LONG_MIN_def signed_modulo_int_def)
  next
    case ALU_MULH then show ?thesis by (simp only: alu_exec_def alu_spec_def Let_def mulh_woi ALU_Op_enum.case if_False) simp
  next
    case ALU_MULHU then show ?thesis by (simp only: alu_exec_def alu_spec_def Let_def mulhu_woi ALU_Op_enum.case if_False) simp
  next
    case ALU_MULHSU then show ?thesis by (simp only: alu_exec_def alu_spec_def Let_def mulhsu_woi ALU_Op_enum.case if_False) simp
  next
    case ALU_SRA then show ?thesis by (simp only: alu_exec_def alu_spec_def Let_def sh sra_woi ALU_Op_enum.case if_False) simp
  next
    case ALU_SRL then show ?thesis by (simp only: alu_exec_def alu_spec_def Let_def sh srl_woi ALU_Op_enum.case if_False) simp
  next
    case ALU_SLL then show ?thesis by (simp only: alu_exec_def alu_spec_def Let_def sh sll_woi ALU_Op_enum.case if_False) simp
  next
    case ALU_AND then show ?thesis by (simp only: alu_exec_def alu_spec_def Let_def bitop_woi ALU_Op_enum.case if_False)
  next
    case ALU_OR then show ?thesis by (simp only: alu_exec_def alu_spec_def Let_def bitop_woi ALU_Op_enum.case if_False)
  next
    case ALU_XOR then show ?thesis by (simp only: alu_exec_def alu_spec_def Let_def bitop_woi ALU_Op_enum.case if_False)
  next
    case ALU_DIVU then show ?thesis by (simp add: alu_exec_def alu_spec_def Let_def div_woi)
  next
    case ALU_REMU then show ?thesis by (simp add: alu_exec_def alu_spec_def Let_def div_woi)
  qed (use assms in \<open>simp_all add: alu_exec_def alu_spec_def Let_def word_less_def\<close>)
qed

text \<open>The operations that have a 32-bit form.\<close>

definition op32_ok :: "ALU_Op_enum \<Rightarrow> bool" where
  "op32_ok op \<longleftrightarrow> op \<in> {ALU_ADD, ALU_SUB, ALU_SLL, ALU_SRL, ALU_SRA, ALU_MUL, ALU_DIV, ALU_DIVU, ALU_REM, ALU_REMU}"

lemma ucast_sext32: "(ucast (sext32 a) :: u32) = ucast a"
  unfolding sext32_def by (rule bit_word_eqI) (simp add: bit_simps)

lemma sint_sext32: "sint (sext32 a) = sint (ucast a :: u32)"
  unfolding sext32_def by (rule sint_up_scast) (simp add: is_up)

lemma sext32_eq_0: "sext32 a = 0 \<longleftrightarrow> (ucast a :: u32) = 0"
  by (metis sint_sext32 signed_0 sint_0 signed_eq_0_iff)

lemma sext32_not_min: "sext32 a \<noteq> LONG_MIN"
proof
  assume "sext32 a = LONG_MIN"
  then have "sint (ucast a :: u32) = sint LONG_MIN" by (metis sint_sext32)
  moreover have "- (2 ^ 31) \<le> sint (ucast a :: u32)" using sint_greater_eq [of "ucast a :: u32"] by simp
  ultimately show False by (simp add: LONG_MIN_def)
qed

lemma and_mask5: "unat (b AND 0x1f :: u64) = nat (uint (ucast b :: u32) mod 32)"
proof -
  have "b AND 0x1f = take_bit 5 b" by (simp add: take_bit_eq_mask mask_eq_exp_minus_1)
  moreover have "uint (ucast b :: u32) mod 32 = uint b mod 32"
    by (simp add: unsigned_ucast_eq take_bit_eq_mod mod_mod_cancel)
  ultimately show ?thesis by (simp add: unat_eq_nat_uint take_bit_eq_mod uint_mod)
qed

lemma low32: "sext32 a AND 0xffffffff = ucast (ucast a :: u32)"
proof -
  have "sext32 a AND 0xffffffff = take_bit 32 (sext32 a)" by (simp add: take_bit_eq_mask mask_eq_exp_minus_1)
  also have "\<dots> = ucast (ucast a :: u32)" unfolding sext32_def by (rule bit_word_eqI) (auto simp add: bit_simps)
  finally show ?thesis .
qed

lemma woi_trunc: "(word_of_int (take_bit 64 k) :: u32) = word_of_int k"
  by transfer simp

lemma ucast_hom:
  "(ucast (x + y :: u64) :: u32) = ucast x + ucast y"
  "(ucast (x - y :: u64) :: u32) = ucast x - ucast y"
  "(ucast (x * y :: u64) :: u32) = ucast x * ucast y"
  "(ucast (push_bit n x :: u64) :: u32) = push_bit n (ucast x)"
  "(ucast (word_of_int i :: u64) :: u32) = word_of_int i"
  "(ucast (ucast z :: u64) :: u32) = z"
  "(ucast (- 1 :: u64) :: u32) = - 1"
proof -
  have u: "uint (x + y) = take_bit 64 (uint x + uint y)"
    "uint (x - y) = take_bit 64 (uint x - uint y)"
    "uint (x * y) = take_bit 64 (uint x * uint y)"
    by (simp_all add: uint_word_ariths take_bit_eq_mod)
  show "(ucast (x + y :: u64) :: u32) = ucast x + ucast y"
    unfolding ucast_woi u woi_trunc by (rule of_int_add)
  show "(ucast (x - y :: u64) :: u32) = ucast x - ucast y"
    unfolding ucast_woi u woi_trunc by (rule of_int_diff)
  show "(ucast (x * y :: u64) :: u32) = ucast x * ucast y"
    unfolding ucast_woi u woi_trunc by (rule of_int_mult)
  show "(ucast (push_bit n x :: u64) :: u32) = push_bit n (ucast x)"
    by (rule bit_word_eqI) (auto simp: bit_simps)
  show "(ucast (word_of_int i :: u64) :: u32) = word_of_int i"
    by transfer simp
  show "(ucast (ucast z :: u64) :: u32) = z" "(ucast (- 1 :: u64) :: u32) = - 1"
    by (rule bit_word_eqI, simp add: bit_simps)+
qed

lemma alu_exec_32I:
  "alu_exec a b op True = Inr (sext32 r) \<Longrightarrow>
   ucast r = (word_of_int (alu_spec op (ucast a :: u32) (ucast b)) :: u32) \<Longrightarrow>
   alu_exec a b op True = Inr (scast (word_of_int (alu_spec op (ucast a :: u32) (ucast b)) :: u32))"
  by (simp add: sext32_def)

lemma drop_bit_ucast: "drop_bit n (ucast (w :: u32) :: u64) = ucast (drop_bit n w)"
  by (rule bit_word_eqI) (auto simp: bit_simps dest: bit_imp_le_length)

lemma alu_exec_op32:
  assumes "op32_ok op"
  shows "alu_exec a b op True = Inr (scast (word_of_int (alu_spec op (ucast a :: u32) (ucast b)) :: u32))"
proof -
  have sh: "unat (sext32 b AND 0x1f) = nat (uint (ucast b :: u32) mod 32)"
    using and_mask5 [of "sext32 b"] by (simp only: ucast_sext32)
  note d = alu_exec_def alu_spec_def Let_def ALU_Op_enum.case if_True
  note h = ucast_hom ucast_sext32 sint_sext32 sext32_eq_0 sh
  consider "op = ALU_ADD" | "op = ALU_SUB" | "op = ALU_SLL" | "op = ALU_SRL" | "op = ALU_SRA" | "op = ALU_MUL"
    | "op = ALU_DIV" | "op = ALU_DIVU" | "op = ALU_REM" | "op = ALU_REMU"
    using assms by (auto simp: op32_ok_def)
  then show ?thesis
  proof cases
    case 1 then show ?thesis by (intro alu_exec_32I, simp only: d) (simp add: d h)
  next
    case 2 then show ?thesis by (intro alu_exec_32I, simp only: d) (simp add: d h)
  next
    case 3
    then show ?thesis by (intro alu_exec_32I, simp only: d) (simp only: d h sll_woi, simp add: h)
  next
    case 4
    then show ?thesis
      by (intro alu_exec_32I, simp only: d low32 drop_bit_ucast) (simp only: d h srl_woi, simp)
  next
    case 5
    then show ?thesis by (intro alu_exec_32I, simp only: d sra_woi) (simp only: d h, simp)
  next
    case 6 then show ?thesis by (intro alu_exec_32I, simp only: d) (simp add: d h)
  next
    case 7 then show ?thesis by (intro alu_exec_32I, simp only: d) (simp add: d h sext32_not_min)
  next
    case 8 then show ?thesis by (intro alu_exec_32I, simp only: d) (simp add: d h div_woi)
  next
    case 9 then show ?thesis by (intro alu_exec_32I, simp only: d) (simp add: d h sext32_not_min)
  next
    case 10 then show ?thesis by (intro alu_exec_32I, simp only: d) (simp add: d h div_woi)
  qed
qed


text \<open>Quotient and remainder of the integers, read back from the result words.\<close>

lemma smod_sint_range: "b \<noteq> 0 \<Longrightarrow> sint (word_of_int (sint a smod sint b) :: u64) = sint (a :: u64) smod sint (b :: u64)"
proof -
  assume "b \<noteq> 0"
  have "sint a smod sint b \<in> {- \<bar>sint b\<bar> + 1..\<bar>sint b\<bar> - 1}"
    by (rule smod_int_range) (use \<open>b \<noteq> 0\<close> in \<open>simp add: signed_eq_0_iff\<close>)
  moreover have "- (2 ^ 63) \<le> sint b" "sint b < 2 ^ 63"
    using sint_greater_eq [of b] sint_less [of b] by simp_all
  ultimately have "- (2 ^ 63) \<le> sint a smod sint b" "sint a smod sint b < 2 ^ 63" by auto
  then show ?thesis
    using signed_take_bit_int_eq_self [of 63 "sint a smod sint b"] by (simp add: sint_sbintrunc')
qed

section \<open>Properties\<close>

text \<open>C11: Every 64-bit operation of alu_exec computes the integer result the ISA manual gives,
  division by zero and signed overflow included, wrapped to 64 bits; every *W operation that the
  decoder can select computes it on the low words of its operands and sign-extends the word.\<close>

theorem alu_refines_manual:
  "(op \<noteq> ALU_NOP \<longrightarrow> alu_exec a b op False = Inr (word_of_int (alu_spec op a b))) \<and>
   (op32_ok op \<longrightarrow> alu_exec a b op True =
      Inr (scast (word_of_int (alu_spec op (ucast a :: u32) (ucast b)) :: u32)))"
  by (simp add: alu_exec_64 alu_exec_op32)

theorem alu_refines_manual_witness:
  "alu_exec (- 7) 3 ALU_DIV False = Inr (word_of_int (alu_spec ALU_DIV (- 7 :: u64) 3)) \<and>
   alu_exec (- 7) 3 ALU_DIV True =
     Inr (scast (word_of_int (alu_spec ALU_DIV (ucast (- 7 :: u64) :: u32) (ucast (3 :: u64))) :: u32))"
  using alu_refines_manual [of ALU_DIV "- 7" 3] by (simp add: op32_ok_def)

text \<open>Signed division and remainder satisfy the division identity for every non-zero divisor,
  overflow included, and the remainder has the sign of the dividend.\<close>

theorem alu_div_rem:
  assumes "b \<noteq> 0"
    and "alu_exec a b ALU_DIV False = Inr q" and "alu_exec a b ALU_REM False = Inr r"
  shows "q * b + r = a \<and> \<bar>sint r\<bar> < \<bar>sint b\<bar> \<and> (r = 0 \<or> sgn (sint r) = sgn (sint a))"
proof -
  have qr: "q = word_of_int (sint a sdiv sint b)" "r = word_of_int (sint a smod sint b)"
    using assms by (auto simp: alu_exec_64 alu_spec_def)
  have qbr: "q * b + r = word_of_int (sint a sdiv sint b * sint b + sint a smod sint b)"
    by (simp add: qr)
  have r: "sint r = sint a smod sint b"
    using assms(1) by (simp add: qr(2) smod_sint_range)
  have rng: "sint a smod sint b \<in> {- \<bar>sint b\<bar> + 1..\<bar>sint b\<bar> - 1}"
    by (rule smod_int_range) (use assms(1) in \<open>simp add: signed_eq_0_iff\<close>)
  moreover have "sint r = 0 \<or> sgn (sint r) = sgn (sint a)"
  proof -
    have "0 \<le> \<bar>sint a\<bar> mod \<bar>sint b\<bar>"
      using assms(1) by (simp add: signed_eq_0_iff)
    then have "\<bar>sint a\<bar> mod \<bar>sint b\<bar> = 0 \<or> sgn (\<bar>sint a\<bar> mod \<bar>sint b\<bar>) = 1"
      by (simp add: sgn_if)
    then show ?thesis by (auto simp: r smod_int_alt_def sgn_mult)
  qed
  moreover have "r = 0 \<longleftrightarrow> sint r = 0" by (simp add: signed_eq_0_iff)
  ultimately show ?thesis using qbr rng by (auto simp: sdiv_mult_smod_eq r)
qed

theorem alu_div_rem_witness:
  "(- 3 :: u64) * 2 + - 1 = - 7 \<and> \<bar>sint (- 1 :: u64)\<bar> < \<bar>sint (2 :: u64)\<bar> \<and>
   ((- 1 :: u64) = 0 \<or> sgn (sint (- 1 :: u64)) = sgn (sint (- 7 :: u64)))"
  by (rule alu_div_rem) (simp, code_simp, code_simp)

end
