(* ===== verification/Sv39_Mmu.thy ===== *)
theory Sv39_Mmu
  imports RV64_Structs Mmio_Bus
begin

unbundle bit_operations_syntax

text \<open>
  The SV39 translation unit \<open>RV64SV39_MMU\<close> (\<open>include/RV64SV39_MMU.h\<close>,
  \<open>inline_impl/rv64_sv39.hpp\<close> of \<open>modules/core/rv64\<close>): the translation buffer and its hash map,
  the page-table walk, and the translated reads, writes and instruction fetches. The bus is
  the interface record of the theory \<open>Mmio_Bus\<close>.
\<close>

section \<open>State\<close>

datatype VAddr_RW_Feedback = VADDR_ACCESS_OK | VADDR_ACCESS_FAULT | VADDR_PAGE_FAULT | VADDR_MIS_ALIGN

text \<open>The three instruction-fetch codes are the same numbers.\<close>

abbreviation "INST_ACCESS_OK \<equiv> VADDR_ACCESS_OK"
abbreviation "INST_ACCESS_FAULT \<equiv> VADDR_ACCESS_FAULT"
abbreviation "INST_PAGE_FAULT \<equiv> VADDR_PAGE_FAULT"

record SV39_TLB_Entry =
  te_ppa :: u64
  te_vpa :: u64
  te_asid :: u16
  te_pagesize :: u8
  te_R :: bool
  te_W :: bool
  te_X :: bool
  te_U :: bool
  te_G :: bool
  te_A :: bool
  te_D :: bool

text \<open>Pointers into the buffer are indices; \<open>tlbGetCache\<close> maps a page address to one.\<close>

record mmu =
  tlb :: "SV39_TLB_Entry list"
  tlbGetCache :: "u64 \<Rightarrow> nat option"
  lastSwappedIndex :: nat
  lr_pa :: u64
  lr_size :: u64
  lr_hart :: u64
  lr_valid :: bool

text \<open>The members that are references into the core: the unit reads them and never writes them.\<close>

record mmu_env =
  env_priv :: PrivMode_e
  env_satp :: u64
  env_status :: u64
  env_hart :: u64

definition TLB_SIZE :: nat where "TLB_SIZE = 32"
definition PAGE_MASK_4K :: u64 where "PAGE_MASK_4K = 0xFFFFFFFFFFFFF000"
definition PAGE_MASK_2M :: u64 where "PAGE_MASK_2M = 0xFFFFFFFFFFE00000"
definition PAGE_MASK_1G :: u64 where "PAGE_MASK_1G = 0xFFFFFFFFC0000000"

text \<open>The page sizes \<open>1 << 12\<close>, \<open>1 << 21\<close> and \<open>1 << 30\<close>.\<close>

definition PAGE_4K :: u64 where "PAGE_4K = 0x1000"
definition PAGE_2M :: u64 where "PAGE_2M = 0x200000"
definition PAGE_1G :: u64 where "PAGE_1G = 0x40000000"

lemmas page_sizes = PAGE_4K_def PAGE_2M_def PAGE_1G_def
lemmas page_masks = PAGE_MASK_4K_def PAGE_MASK_2M_def PAGE_MASK_1G_def

text \<open>
  The constructor: it sets \<open>pagesize\<close> of each entry, \<open>lastSwappedIndex\<close> and \<open>lr_valid\<close>;
  the remaining members keep whatever the memory held.
\<close>

definition new_mmu :: "SV39_TLB_Entry list \<Rightarrow> u64 \<Rightarrow> u64 \<Rightarrow> u64 \<Rightarrow> mmu" where
  "new_mmu junk pa sz hart =
     \<lparr>tlb = map (\<lambda>i. (junk ! i)\<lparr>te_pagesize := 0\<rparr>) [0..<TLB_SIZE], tlbGetCache = (\<lambda>_. None),
      lastSwappedIndex = 0, lr_pa = pa, lr_size = sz, lr_hart = hart, lr_valid = False\<rparr>"

text \<open>A one-bit field as a truth value.\<close>

definition bflag :: "bitfield \<Rightarrow> u64 \<Rightarrow> bool" where
  "bflag f w \<longleftrightarrow> bget f w \<noteq> 0"

definition env_asid :: "mmu_env \<Rightarrow> u16" where
  "env_asid e = ucast (bget satp_asid (env_satp e))"

section \<open>Page-table entries\<close>

definition isValidDirPTE :: "u64 \<Rightarrow> bool res" where
  "isValidDirPTE pte =
     (if \<not> bflag pte_V pte then Inr False
      else if bflag pte_R pte \<or> bflag pte_W pte \<or> bflag pte_X pte then Inr False
      else if bget pte_reserved pte \<noteq> 0 then Inr False
      else if bget pte_PBMT pte \<noteq> 0 then Inr False
      else if \<not> bflag pte_R pte \<and> \<not> bflag pte_W pte \<and> \<not> bflag pte_X pte then Inr True
      else Inl AssertionFailure)"

definition isValidLeafPTE :: "u64 \<Rightarrow> bool res" where
  "isValidLeafPTE pte =
     (if \<not> bflag pte_V pte then Inr False
      else if bflag pte_W pte \<and> \<not> bflag pte_R pte then Inr False
      else if \<not> bflag pte_R pte \<and> \<not> bflag pte_W pte \<and> \<not> bflag pte_X pte then Inr False
      else if bget pte_reserved pte \<noteq> 0 then Inr False
      else if bget pte_PBMT pte \<noteq> 0 then Inr False
      else if bflag pte_R pte \<or> bflag pte_X pte then Inr True
      else Inl AssertionFailure)"

text \<open>The physical page address an entry holds, in the two ways the code computes it.\<close>

definition pte_addr :: "u64 \<Rightarrow> u64" where
  "pte_addr pte =
     push_bit 12 (push_bit 18 (bget pte_PPN2 pte) OR push_bit 9 (bget pte_PPN1 pte) OR bget pte_PPN0 pte)"

definition pte_addr_check :: "u64 \<Rightarrow> u64" where
  "pte_addr_check pte =
     push_bit 12 (push_bit 9 (push_bit 9 (bget pte_PPN2 pte) OR bget pte_PPN1 pte) OR bget pte_PPN0 pte)"

section \<open>The translation buffer\<close>

definition getTLBIndexToSwapOut :: "mmu \<Rightarrow> nat \<times> mmu" where
  "getTLBIndexToSwapOut m =
     (lastSwappedIndex m, m\<lparr>lastSwappedIndex := (lastSwappedIndex m + 1) mod TLB_SIZE\<rparr>)"

definition page_mask_of_size :: "u64 \<Rightarrow> u64" where
  "page_mask_of_size page_size =
     (if page_size = PAGE_4K then PAGE_MASK_4K
      else if page_size = PAGE_2M then PAGE_MASK_2M
      else if page_size = PAGE_1G then PAGE_MASK_1G else 0)"

definition pagesize_code :: "u64 \<Rightarrow> u8" where
  "pagesize_code page_size =
     (if page_size = PAGE_4K then 1
      else if page_size = PAGE_2M then 2
      else if page_size = PAGE_1G then 3 else 0)"

definition writeTLB :: "mmu_env \<Rightarrow> mmu \<Rightarrow> u64 \<Rightarrow> u64 \<Rightarrow> u64 \<Rightarrow> (nat \<times> mmu) res" where
  "writeTLB e m0 leaf_pte page_size vaddr =
     (let (result, m) = getTLBIndexToSwapOut m0 in
      bindR (aget (tlb m) result) (\<lambda>old.
      let cache = (tlbGetCache m)(te_vpa old := None);
          ppa = pte_addr leaf_pte;
          pmask = page_mask_of_size page_size;
          vpa = vaddr AND pmask
      in
      assertR (ppa = pte_addr_check leaf_pte)
     (assertR (pmask \<noteq> 0)
     (assertR (vpa = (if page_size = PAGE_4K then vaddr - vaddr mod PAGE_4K
                      else if page_size = PAGE_2M then vaddr - vaddr mod PAGE_2M
                      else vaddr - vaddr mod PAGE_1G))
     (assertR (pagesize_code page_size \<noteq> 0)
       (let new = \<lparr>te_ppa = ppa, te_vpa = vpa, te_asid = env_asid e,
                   te_pagesize = pagesize_code page_size,
                   te_R = bflag pte_R leaf_pte, te_W = bflag pte_W leaf_pte,
                   te_X = bflag pte_X leaf_pte, te_U = bflag pte_U leaf_pte,
                   te_G = bflag pte_G leaf_pte, te_A = bflag pte_A leaf_pte,
                   te_D = bflag pte_D leaf_pte\<rparr>
        in Inr (result, m\<lparr>tlb := (tlb m)[result := new], tlbGetCache := cache(vpa \<mapsto> result)\<rparr>)))))))"

text \<open>The three look-ups in the hash map, one per page size.\<close>

definition tlb_hit :: "mmu_env \<Rightarrow> mmu \<Rightarrow> u64 \<Rightarrow> u64 \<Rightarrow> u8 \<Rightarrow> nat option" where
  "tlb_hit e m vaddr pmask code =
     (case tlbGetCache m (vaddr AND pmask) of
        None \<Rightarrow> None
      | Some ptr \<Rightarrow>
          if (te_asid (tlb m ! ptr) = env_asid e \<or> te_G (tlb m ! ptr)) \<and> te_pagesize (tlb m ! ptr) = code
          then Some ptr else None)"

definition entry_mask :: "SV39_TLB_Entry \<Rightarrow> u64" where
  "entry_mask t =
     (if te_pagesize t = 1 then PAGE_MASK_4K
      else if te_pagesize t = 2 then PAGE_MASK_2M
      else if te_pagesize t = 3 then PAGE_MASK_1G else 0)"

text \<open>The condition of the loop body, and the loop from index \<open>i\<close> on.\<close>

definition entry_matches :: "mmu_env \<Rightarrow> u64 \<Rightarrow> SV39_TLB_Entry \<Rightarrow> bool" where
  "entry_matches e vaddr t \<longleftrightarrow>
     (te_asid t = env_asid e \<or> te_G t) \<and> entry_mask t \<noteq> 0 \<and> vaddr AND entry_mask t = te_vpa t"

fun tlb_scan :: "mmu_env \<Rightarrow> u64 \<Rightarrow> nat \<Rightarrow> SV39_TLB_Entry list \<Rightarrow> nat option \<Rightarrow> (u64 \<Rightarrow> nat option) \<Rightarrow>
    (nat option \<times> (u64 \<Rightarrow> nat option)) res" where
  "tlb_scan e vaddr i [] found cache = Inr (found, cache)"
| "tlb_scan e vaddr i (t # ts) found cache =
     (if entry_matches e vaddr t
      then assertR (found = None)
             (tlb_scan e vaddr (Suc i) ts (Some i) (cache(vaddr AND entry_mask t \<mapsto> i)))
      else tlb_scan e vaddr (Suc i) ts found cache)"

definition canonical :: "u64 \<Rightarrow> bool" where
  "canonical vaddr \<longleftrightarrow>
     (bget va_blank vaddr = 0x1FFFFFF \<and> drop_bit 8 (bget va_vpn_2 vaddr) \<noteq> 0) \<or>
     (bget va_blank vaddr = 0 \<and> drop_bit 8 (bget va_vpn_2 vaddr) = 0)"

section \<open>The page-table walk\<close>

text \<open>One eight-byte read into a local that has no initial value.\<close>

definition read_pte :: "'b bus_ops \<Rightarrow> 'b \<Rightarrow> u64 \<Rightarrow> (u64 \<times> 'b) res" where
  "read_pte bus b addr =
     bindR (PAddr_ReadBuffer_MMIOBus_API bus b addr 8) (\<lambda>(feedback, buffer, b1).
     assertR (feedback = MEMU_OK)
       (bindR (initialised buffer) (\<lambda>bs. Inr (of_bytes bs, b1))))"

definition walk_l0 :: "'b bus_ops \<Rightarrow> mmu_env \<Rightarrow> mmu \<Rightarrow> 'b \<Rightarrow> u64 \<Rightarrow> u64 \<Rightarrow> (nat option \<times> mmu \<times> 'b) res" where
  "walk_l0 bus e m b page_table_addr vaddr =
     bindR (read_pte bus b (page_table_addr + bget va_vpn_0 vaddr * 8)) (\<lambda>(l0_pte, b0).
     bindR (isValidLeafPTE l0_pte) (\<lambda>leaf.
     if leaf then bindR (writeTLB e m l0_pte PAGE_4K vaddr) (\<lambda>(i, m'). Inr (Some i, m', b0))
     else Inr (None, m, b0)))"

definition walk_l1 :: "'b bus_ops \<Rightarrow> mmu_env \<Rightarrow> mmu \<Rightarrow> 'b \<Rightarrow> u64 \<Rightarrow> u64 \<Rightarrow> (nat option \<times> mmu \<times> 'b) res" where
  "walk_l1 bus e m b page_table_addr vaddr =
     bindR (read_pte bus b (page_table_addr + bget va_vpn_1 vaddr * 8)) (\<lambda>(l1_pte, b1).
     bindR (isValidLeafPTE l1_pte) (\<lambda>leaf.
     if leaf then bindR (writeTLB e m l1_pte PAGE_2M vaddr) (\<lambda>(i, m'). Inr (Some i, m', b1))
     else bindR (isValidDirPTE l1_pte) (\<lambda>dir.
       if \<not> dir then Inr (None, m, b1)
       else assertR (pte_addr l1_pte = pte_addr_check l1_pte)
              (walk_l0 bus e m b1 (pte_addr l1_pte) vaddr))))"

definition walk_l2 :: "'b bus_ops \<Rightarrow> mmu_env \<Rightarrow> mmu \<Rightarrow> 'b \<Rightarrow> u64 \<Rightarrow> (nat option \<times> mmu \<times> 'b) res" where
  "walk_l2 bus e m b vaddr =
     (if bget satp_mode (env_satp e) \<noteq> 8 then Inr (None, m, b)
      else let page_table_addr = push_bit 12 (bget satp_ppn (env_satp e)) in
      bindR (read_pte bus b (page_table_addr + bget va_vpn_2 vaddr * 8)) (\<lambda>(l2_pte, b2).
      bindR (isValidLeafPTE l2_pte) (\<lambda>leaf.
      if leaf then bindR (writeTLB e m l2_pte PAGE_1G vaddr) (\<lambda>(i, m'). Inr (Some i, m', b2))
      else bindR (isValidDirPTE l2_pte) (\<lambda>dir.
        if \<not> dir then Inr (None, m, b2)
        else assertR (pte_addr l2_pte = pte_addr_check l2_pte)
               (walk_l1 bus e m b2 (pte_addr l2_pte) vaddr)))))"

definition getTLBEntry :: "'b bus_ops \<Rightarrow> mmu_env \<Rightarrow> mmu \<Rightarrow> 'b \<Rightarrow> u64 \<Rightarrow> (nat option \<times> mmu \<times> 'b) res" where
  "getTLBEntry bus e m b vaddr =
     assertR (canonical vaddr)
      (case tlb_hit e m vaddr PAGE_MASK_4K 1 of
         Some ptr \<Rightarrow> Inr (Some ptr, m, b)
       | None \<Rightarrow>
      (case tlb_hit e m vaddr PAGE_MASK_2M 2 of
         Some ptr \<Rightarrow> Inr (Some ptr, m, b)
       | None \<Rightarrow>
      (case tlb_hit e m vaddr PAGE_MASK_1G 3 of
         Some ptr \<Rightarrow> Inr (Some ptr, m, b)
       | None \<Rightarrow>
          bindR (tlb_scan e vaddr 0 (tlb m) None (tlbGetCache m)) (\<lambda>(tlb_entry_ptr, cache).
          let m1 = m\<lparr>tlbGetCache := cache\<rparr> in
          case tlb_entry_ptr of
            Some ptr \<Rightarrow> Inr (Some ptr, m1, b)
          | None \<Rightarrow> walk_l2 bus e m1 b vaddr))))"

section \<open>Translated accesses\<close>

definition page_size_of :: "SV39_TLB_Entry \<Rightarrow> u64" where
  "page_size_of t =
     (if te_pagesize t = 1 then PAGE_4K
      else if te_pagesize t = 2 then PAGE_2M
      else if te_pagesize t = 3 then PAGE_1G else 0)"

definition crosses_page :: "u64 \<Rightarrow> u64 \<Rightarrow> bool" where
  "crosses_page begin_addr sz \<longleftrightarrow> drop_bit 12 begin_addr \<noteq> drop_bit 12 (begin_addr + sz - 1)"

definition bare_access :: "mmu_env \<Rightarrow> bool" where
  "bare_access e \<longleftrightarrow>
     (env_priv e = M_MODE \<and>
        (\<not> bflag ms_mprv (env_status e) \<or> bget ms_mpp (env_status e) = priv_code M_MODE)) \<or>
     bget satp_mode (env_satp e) = 0"

definition access_priv :: "mmu_env \<Rightarrow> PrivMode_e" where
  "access_priv e =
     (if bflag ms_mprv (env_status e) \<and> env_priv e = M_MODE
      then priv_of (bget ms_mpp (env_status e)) else env_priv e)"

definition VAddr_ReadBuffer_MMU_API ::
    "'b bus_ops \<Rightarrow> mmu_env \<Rightarrow> mmu \<Rightarrow> 'b \<Rightarrow> u64 \<Rightarrow> u64 \<Rightarrow>
     (VAddr_RW_Feedback \<times> u8 list option \<times> mmu \<times> 'b) res" where
  "VAddr_ReadBuffer_MMU_API bus e m b begin_addr sz =
     (if bare_access e then
        bindR (PAddr_ReadBuffer_MMIOBus_API bus b begin_addr sz) (\<lambda>(pread_fb, buffer, b1).
        Inr (if pread_fb \<noteq> MEMU_OK then VADDR_ACCESS_FAULT else VADDR_ACCESS_OK, buffer, m, b1))
      else if crosses_page begin_addr sz then Inr (VADDR_MIS_ALIGN, None, m, b)
      else
        bindR (getTLBEntry bus e m b begin_addr) (\<lambda>(tlb_entry, m1, b1).
        case tlb_entry of
          None \<Rightarrow> Inr (VADDR_PAGE_FAULT, None, m1, b1)
        | Some ptr \<Rightarrow>
            let t = tlb m1 ! ptr in
            if \<not> te_A t \<or> (\<not> te_R t \<and> \<not> (bflag ms_mxr (env_status e) \<and> \<not> te_X t))
            then Inr (VADDR_PAGE_FAULT, None, m1, b1)
            else if access_priv e = U_MODE \<and> \<not> te_U t then Inr (VADDR_PAGE_FAULT, None, m1, b1)
            else if \<not> bflag ms_sum (env_status e) \<and> env_priv e = S_MODE \<and> te_U t
            then Inr (VADDR_ACCESS_FAULT, None, m1, b1)
            else
              assertR (page_size_of t \<noteq> 0)
                (let paddr = te_ppa t + begin_addr mod page_size_of t in
                 bindR (PAddr_ReadBuffer_MMIOBus_API bus b1 paddr sz) (\<lambda>(pread_fb, buffer, b2).
                 Inr (if pread_fb \<noteq> MEMU_OK then VADDR_ACCESS_FAULT else VADDR_ACCESS_OK,
                      buffer, m1, b2)))))"

definition VAddr_WriteBuffer_MMU_API ::
    "'b bus_ops \<Rightarrow> mmu_env \<Rightarrow> mmu \<Rightarrow> 'b \<Rightarrow> u64 \<Rightarrow> u8 list \<Rightarrow> (VAddr_RW_Feedback \<times> mmu \<times> 'b) res" where
  "VAddr_WriteBuffer_MMU_API bus e m b begin_addr buffer =
     (if bare_access e then
        bindR (PAddr_WriteBuffer_MMIOBus_API bus b begin_addr buffer) (\<lambda>(pwrite_fb, b1).
        Inr (if pwrite_fb \<noteq> MEMU_OK then VADDR_ACCESS_FAULT else VADDR_ACCESS_OK, m, b1))
      else if crosses_page begin_addr (of_nat (length buffer)) then Inr (VADDR_MIS_ALIGN, m, b)
      else
        bindR (getTLBEntry bus e m b begin_addr) (\<lambda>(tlb_entry, m1, b1).
        case tlb_entry of
          None \<Rightarrow> Inr (VADDR_PAGE_FAULT, m1, b1)
        | Some ptr \<Rightarrow>
            let t = tlb m1 ! ptr in
            if \<not> te_A t \<or> \<not> te_D t \<or> \<not> te_W t then Inr (VADDR_PAGE_FAULT, m1, b1)
            else if access_priv e = U_MODE \<and> \<not> te_U t then Inr (VADDR_PAGE_FAULT, m1, b1)
            else if \<not> bflag ms_sum (env_status e) \<and> access_priv e = S_MODE \<and> te_U t
            then Inr (VADDR_PAGE_FAULT, m1, b1)
            else
              assertR (page_size_of t \<noteq> 0)
                (let paddr = te_ppa t + begin_addr mod page_size_of t in
                 bindR (PAddr_WriteBuffer_MMIOBus_API bus b1 paddr buffer) (\<lambda>(pstatus, b2).
                 Inr (if pstatus \<noteq> MEMU_OK then VADDR_PAGE_FAULT else VADDR_ACCESS_OK, m1, b2)))))"

text \<open>
  Instruction fetch into a buffer that already holds \<open>buffer\<close>. The first definition is the
  function from its first assertion on with the split of a misaligned four-byte fetch left
  out; the second adds the split, whose two recursive calls ask for two bytes.
\<close>

definition inst_fetch_part ::
    "'b bus_ops \<Rightarrow> mmu_env \<Rightarrow> mmu \<Rightarrow> 'b \<Rightarrow> u64 \<Rightarrow> u64 \<Rightarrow> u8 list \<Rightarrow>
     (VAddr_RW_Feedback \<times> u8 list \<times> mmu \<times> 'b) res" where
  "inst_fetch_part bus e m b begin_addr sz buffer =
     assertR (begin_addr mod 2 = 0)
     (if env_priv e = M_MODE \<or> bget satp_mode (env_satp e) = 0 then
        bindR (PAddr_ReadBuffer_MMIOBus_API bus b begin_addr sz) (\<lambda>(pstatus, data, b1).
        Inr (if pstatus \<noteq> MEMU_OK then INST_ACCESS_FAULT else INST_ACCESS_OK,
             case data of None \<Rightarrow> buffer | Some bs \<Rightarrow> bs, m, b1))
      else if crosses_page begin_addr sz then Inr (VADDR_MIS_ALIGN, buffer, m, b)
      else
        bindR (getTLBEntry bus e m b begin_addr) (\<lambda>(tlb_entry, m1, b1).
        case tlb_entry of
          None \<Rightarrow> Inr (INST_PAGE_FAULT, buffer, m1, b1)
        | Some ptr \<Rightarrow>
            let t = tlb m1 ! ptr in
            if \<not> te_A t \<or> \<not> te_X t then Inr (INST_PAGE_FAULT, buffer, m1, b1)
            else if (env_priv e = U_MODE \<and> \<not> te_U t) \<or> (env_priv e = S_MODE \<and> te_U t)
            then Inr (INST_PAGE_FAULT, buffer, m1, b1)
            else
              assertR (page_size_of t \<noteq> 0)
                (let paddr = te_ppa t + begin_addr mod page_size_of t in
                 bindR (PAddr_ReadBuffer_MMIOBus_API bus b1 paddr sz) (\<lambda>(pstatus, data, b2).
                 Inr (if pstatus \<noteq> MEMU_OK then INST_ACCESS_FAULT else INST_ACCESS_OK,
                      case data of None \<Rightarrow> buffer | Some bs \<Rightarrow> bs, m1, b2)))))"

definition VAddr_InstFetch_MMU_API ::
    "'b bus_ops \<Rightarrow> mmu_env \<Rightarrow> mmu \<Rightarrow> 'b \<Rightarrow> u64 \<Rightarrow> u64 \<Rightarrow> u8 list \<Rightarrow>
     (VAddr_RW_Feedback \<times> u8 list \<times> mmu \<times> 'b) res" where
  "VAddr_InstFetch_MMU_API bus e m b begin_addr sz buffer =
     (if sz = 4 \<and> begin_addr mod 4 = 2 then
        bindR (inst_fetch_part bus e m b begin_addr 2 (take 2 buffer)) (\<lambda>(fb_1, low, m1, b1).
        if fb_1 \<noteq> VADDR_ACCESS_OK then Inr (fb_1, low @ drop 2 buffer, m1, b1)
        else bindR (inst_fetch_part bus e m1 b1 (begin_addr + 2) 2 (drop 2 buffer)) (\<lambda>(fb_2, high, m2, b2).
          Inr (if fb_2 \<noteq> VADDR_ACCESS_OK then fb_2 else VADDR_ACCESS_OK, low @ high, m2, b2)))
      else inst_fetch_part bus e m b begin_addr sz buffer)"

section \<open>Flushing\<close>

definition flush_entry :: "u64 \<Rightarrow> u64 \<Rightarrow> SV39_TLB_Entry \<Rightarrow> SV39_TLB_Entry" where
  "flush_entry vaddr asid t =
     (if ucast (te_asid t) = asid \<or> asid = 0 then
        if vaddr = 0 then t\<lparr>te_pagesize := 0\<rparr>
        else if te_pagesize t = 1 then
          (if te_vpa t AND PAGE_MASK_4K = vaddr AND PAGE_MASK_4K then t\<lparr>te_pagesize := 0\<rparr> else t)
        else if te_pagesize t = 2 then
          (if te_vpa t AND PAGE_MASK_2M = vaddr AND PAGE_MASK_2M then t\<lparr>te_pagesize := 0\<rparr> else t)
        else if te_pagesize t = 3 then
          (if te_vpa t AND PAGE_MASK_1G = vaddr AND PAGE_MASK_1G then t\<lparr>te_pagesize := 0\<rparr> else t)
        else t
      else t)"

definition SV39_FlushTLB_sfence_vma :: "u64 \<Rightarrow> u64 \<Rightarrow> mmu \<Rightarrow> mmu" where
  "SV39_FlushTLB_sfence_vma vaddr asid m = m\<lparr>tlb := map (flush_entry vaddr asid) (tlb m)\<rparr>"

section \<open>Entries of the page table\<close>

definition leaf_pte :: "u64 \<Rightarrow> bool" where
  "leaf_pte pte \<longleftrightarrow> bflag pte_V pte \<and> (bflag pte_R pte \<or> bflag pte_X pte) \<and>
     (bflag pte_W pte \<longrightarrow> bflag pte_R pte) \<and> bget pte_reserved pte = 0 \<and> bget pte_PBMT pte = 0"

definition dir_pte :: "u64 \<Rightarrow> bool" where
  "dir_pte pte \<longleftrightarrow> bflag pte_V pte \<and> \<not> bflag pte_R pte \<and> \<not> bflag pte_W pte \<and> \<not> bflag pte_X pte \<and>
     bget pte_reserved pte = 0 \<and> bget pte_PBMT pte = 0"

text \<open>Neither test reaches its final assertion.\<close>

lemma isValidLeafPTE_spec: "isValidLeafPTE pte = Inr (leaf_pte pte)"
  by (auto simp: isValidLeafPTE_def leaf_pte_def)

lemma isValidDirPTE_spec: "isValidDirPTE pte = Inr (dir_pte pte)"
  by (auto simp: isValidDirPTE_def dir_pte_def)

lemma leaf_not_dir: "leaf_pte pte \<Longrightarrow> \<not> dir_pte pte"
  by (auto simp: leaf_pte_def dir_pte_def)

lemma pte_addr_check_eq: "pte_addr_check pte = pte_addr pte"
  unfolding pte_addr_check_def pte_addr_def
  by (rule bit_word_eqI) (auto simp: bit_simps field_defs bit_bget)

lemma and_not_mask_mod: "v AND NOT (mask k) = v - v mod 2 ^ k" for v :: u64
proof -
  have "NOT v AND take_bit k v = 0" by (rule bit_eqI) (auto simp: bit_simps)
  then have "v - take_bit k v = v AND NOT (take_bit k v)" by (rule disjunctive_diff_eq_and_not)
  also have "\<dots> = v AND NOT (mask k)" by (rule bit_eqI) (auto simp: bit_simps)
  finally show ?thesis by (simp add: take_bit_eq_mod)
qed

lemma page_masks_not_mask:
  "PAGE_MASK_4K = NOT (mask 12)" "PAGE_MASK_2M = NOT (mask 21)" "PAGE_MASK_1G = NOT (mask 30)"
  by (simp_all add: page_masks mask_eq_exp_minus_1)

lemma page_mask_nonzero:
  "NOT (mask 12) \<noteq> (0 :: u64)" "NOT (mask 21) \<noteq> (0 :: u64)" "NOT (mask 30) \<noteq> (0 :: u64)"
  by (simp_all add: mask_eq_exp_minus_1)

definition level_bits :: "nat \<Rightarrow> nat" where
  "level_bits l = 12 + 9 * l"

definition leaf_entry :: "mmu_env \<Rightarrow> u64 \<Rightarrow> nat \<Rightarrow> u64 \<Rightarrow> SV39_TLB_Entry" where
  "leaf_entry e pte l vaddr =
     \<lparr>te_ppa = pte_addr pte, te_vpa = vaddr AND NOT (mask (level_bits l)), te_asid = env_asid e,
      te_pagesize = of_nat (l + 1),
      te_R = bflag pte_R pte, te_W = bflag pte_W pte, te_X = bflag pte_X pte, te_U = bflag pte_U pte,
      te_G = bflag pte_G pte, te_A = bflag pte_A pte, te_D = bflag pte_D pte\<rparr>"

definition mmu_wf :: "mmu \<Rightarrow> bool" where
  "mmu_wf m \<longleftrightarrow> length (tlb m) = TLB_SIZE \<and> lastSwappedIndex m < TLB_SIZE \<and>
     (\<forall>k i. tlbGetCache m k = Some i \<longrightarrow> i < TLB_SIZE \<and> te_vpa (tlb m ! i) = k)"

definition install :: "SV39_TLB_Entry \<Rightarrow> mmu \<Rightarrow> mmu" where
  "install t m = m\<lparr>lastSwappedIndex := (lastSwappedIndex m + 1) mod TLB_SIZE,
     tlb := (tlb m)[lastSwappedIndex m := t],
     tlbGetCache := ((tlbGetCache m)(te_vpa (tlb m ! lastSwappedIndex m) := None))(te_vpa t \<mapsto> lastSwappedIndex m)\<rparr>"

lemma page_sizes_distinct: "PAGE_4K \<noteq> PAGE_2M" "PAGE_4K \<noteq> PAGE_1G" "PAGE_2M \<noteq> PAGE_1G"
  by (simp_all add: page_sizes)

lemma page_sizes_pow: "PAGE_4K = 2 ^ 12" "PAGE_2M = 2 ^ 21" "PAGE_1G = 2 ^ 30"
  by (simp_all add: page_sizes)

lemma writeTLB_spec:
  assumes "mmu_wf m"
  shows "writeTLB e m pte PAGE_4K vaddr = Inr (lastSwappedIndex m, install (leaf_entry e pte 0 vaddr) m)"
    and "writeTLB e m pte PAGE_2M vaddr = Inr (lastSwappedIndex m, install (leaf_entry e pte 1 vaddr) m)"
    and "writeTLB e m pte PAGE_1G vaddr = Inr (lastSwappedIndex m, install (leaf_entry e pte 2 vaddr) m)"
proof -
  have a: "lastSwappedIndex m < length (tlb m)" using assms(1) by (simp add: mmu_wf_def)
  note w = writeTLB_def getTLBIndexToSwapOut_def level_bits_def Let_def page_mask_of_size_def
    pagesize_code_def pte_addr_check_eq page_mask_nonzero page_masks_not_mask and_not_mask_mod
    install_def leaf_entry_def page_sizes_distinct page_sizes_distinct [symmetric]
  show "writeTLB e m pte PAGE_4K vaddr = Inr (lastSwappedIndex m, install (leaf_entry e pte 0 vaddr) m)"
    using a by (simp add: w) (simp add: page_sizes_pow)
  show "writeTLB e m pte PAGE_2M vaddr = Inr (lastSwappedIndex m, install (leaf_entry e pte 1 vaddr) m)"
    using a by (simp add: w) (simp add: page_sizes_pow)
  show "writeTLB e m pte PAGE_1G vaddr = Inr (lastSwappedIndex m, install (leaf_entry e pte 2 vaddr) m)"
    using a by (simp add: w) (simp add: page_sizes_pow)
qed

lemma mmu_wf_install: "mmu_wf m \<Longrightarrow> mmu_wf (install t m)"
  by (auto simp: mmu_wf_def install_def nth_list_update TLB_SIZE_def split: if_splits)

lemma mmu_wf_new: "mmu_wf (new_mmu junk pa sz hart)"
  by (simp add: mmu_wf_def new_mmu_def TLB_SIZE_def)

lemma mmu_wf_flush: "mmu_wf m \<Longrightarrow> mmu_wf (SV39_FlushTLB_sfence_vma vaddr asid m)"
proof -
  have "te_vpa (flush_entry vaddr asid t) = te_vpa t" for t by (simp add: flush_entry_def)
  then show "mmu_wf m \<Longrightarrow> mmu_wf (SV39_FlushTLB_sfence_vma vaddr asid m)"
    by (auto simp: mmu_wf_def SV39_FlushTLB_sfence_vma_def)
qed

section \<open>Lookup\<close>

lemma tlb_hit_Some:
  assumes "mmu_wf m" "tlb_hit e m vaddr pmask code = Some i"
  shows "i < TLB_SIZE \<and> te_vpa (tlb m ! i) = vaddr AND pmask \<and> te_pagesize (tlb m ! i) = code \<and>
    (te_asid (tlb m ! i) = env_asid e \<or> te_G (tlb m ! i))"
  using assms by (auto simp: tlb_hit_def mmu_wf_def split: option.splits if_splits)

lemma tlb_hit_matches:
  assumes "mmu_wf m" "tlb_hit e m vaddr pmask code = Some i"
    and "(pmask, code) \<in> {(PAGE_MASK_4K, 1), (PAGE_MASK_2M, 2), (PAGE_MASK_1G, 3)}"
  shows "i < TLB_SIZE \<and> entry_matches e vaddr (tlb m ! i)"
  using tlb_hit_Some [OF assms(1,2)] assms(3) page_mask_nonzero
  by (auto simp: entry_matches_def entry_mask_def page_masks_not_mask)

lemma nth_shift: "Suc i \<le> j \<Longrightarrow> (t # ts) ! (j - i) = ts ! (j - Suc i)"
  by (metis Suc_diff_le diff_Suc_Suc nth_Cons_Suc)

lemma tlb_scan_spec:
  "tlb_scan e va i ts found cache = Inr (r, c') \<Longrightarrow>
   (\<forall>k j. c' k = Some j \<longrightarrow> cache k = Some j \<or> (i \<le> j \<and> j < i + length ts \<and> te_vpa (ts ! (j - i)) = k)) \<and>
   (case r of None \<Rightarrow> found = None \<and> c' = cache \<and> (\<forall>t \<in> set ts. \<not> entry_matches e va t)
    | Some j \<Rightarrow> found = Some j \<or> (i \<le> j \<and> j < i + length ts \<and> entry_matches e va (ts ! (j - i))))"
proof (induction e va i ts found cache rule: tlb_scan.induct)
  case (1 e vaddr i found cache)
  then show ?case by (auto split: option.splits)
next
  case (2 e vaddr i t ts found cache)
  show ?case
  proof (cases "entry_matches e vaddr t")
    case True
    with 2 have "tlb_scan e vaddr (Suc i) ts (Some i) (cache(vaddr AND entry_mask t \<mapsto> i)) = Inr (r, c')"
      by (simp add: assertR_eq_Inr)
    note ih = 2(1) [OF True this]
    have vpa: "vaddr AND entry_mask t = te_vpa t" using True by (simp add: entry_matches_def)
    have "c' k = Some j \<Longrightarrow> cache k = Some j \<or> (i \<le> j \<and> j < i + length (t # ts) \<and> te_vpa ((t # ts) ! (j - i)) = k)" for k j
      using ih vpa nth_shift [of i j t ts] by (fastforce split: if_splits)
    moreover from ih obtain j where "r = Some j" "j = i \<or> (Suc i \<le> j \<and> j < Suc i + length ts \<and> entry_matches e vaddr (ts ! (j - Suc i)))"
      by (auto split: option.splits)
    then have "\<exists>j. r = Some j \<and> i \<le> j \<and> j < i + length (t # ts) \<and> entry_matches e vaddr ((t # ts) ! (j - i))"
      using True nth_shift [of i j t ts] by auto
    ultimately show ?thesis by (auto split: option.splits)
  next
    case False
    with 2 have "tlb_scan e vaddr (Suc i) ts found cache = Inr (r, c')" by simp
    note ih = 2(2) [OF False this]
    have "c' k = Some j \<Longrightarrow> cache k = Some j \<or> (i \<le> j \<and> j < i + length (t # ts) \<and> te_vpa ((t # ts) ! (j - i)) = k)" for k j
      using ih nth_shift [of i j t ts] by fastforce
    moreover have "found = Some j \<or> (i \<le> j \<and> j < i + length (t # ts) \<and> entry_matches e vaddr ((t # ts) ! (j - i)))" if "r = Some j" for j
      using ih that nth_shift [of i j t ts] by auto
    ultimately show ?thesis using ih False by (auto split: option.splits)
  qed
qed

definition lr_part :: "mmu \<Rightarrow> u64 \<times> u64 \<times> u64 \<times> bool" where
  "lr_part m = (lr_pa m, lr_size m, lr_hart m, lr_valid m)"

lemma lr_part_install [simp]: "lr_part (install t m) = lr_part m"
  by (simp add: lr_part_def install_def)

lemma lr_part_cache [simp]: "lr_part (m\<lparr>tlbGetCache := c\<rparr>) = lr_part m"
  by (simp add: lr_part_def)

text \<open>What every lookup keeps, and what it returns when it returns an entry.\<close>

definition lookup_post :: "mmu_env \<Rightarrow> u64 \<Rightarrow> mmu \<Rightarrow> nat option \<times> mmu \<times> 'b \<Rightarrow> bool" where
  "lookup_post e va m r \<longleftrightarrow> (case r of (p, m', _) \<Rightarrow>
     mmu_wf m' \<and> lr_part m' = lr_part m \<and>
     (\<forall>i. p = Some i \<longrightarrow> i < TLB_SIZE \<and> entry_matches e va (tlb m' ! i)))"

lemma leaf_entry_matches: "l \<le> 2 \<Longrightarrow> entry_matches e va (leaf_entry e pte l va)"
proof -
  assume "l \<le> 2"
  then have "l = 0 \<or> l = 1 \<or> l = 2" by linarith
  then show ?thesis
    by (auto simp: entry_matches_def leaf_entry_def entry_mask_def level_bits_def page_masks_not_mask
        page_mask_nonzero)
qed

lemma install_at: "mmu_wf m \<Longrightarrow> tlb (install t m) ! lastSwappedIndex m = t"
  by (simp add: install_def mmu_wf_def)

lemma lookup_post_install:
  "mmu_wf m \<Longrightarrow> l \<le> 2 \<Longrightarrow>
   lookup_post e va m (Some (lastSwappedIndex m), install (leaf_entry e pte l va) m, b)"
  by (simp add: lookup_post_def mmu_wf_install install_at leaf_entry_matches)
    (simp add: mmu_wf_def)

lemma lookup_post_None: "mmu_wf m \<Longrightarrow> lookup_post e va m (None, m, b)"
  by (simp add: lookup_post_def)

text \<open>The three levels with the tests, the assertions and the buffer update resolved.\<close>

lemma walk_l0_eq:
  "mmu_wf m \<Longrightarrow> walk_l0 bus e m b a va =
     bindR (read_pte bus b (a + bget va_vpn_0 va * 8)) (\<lambda>(pte, b').
     Inr (if leaf_pte pte then (Some (lastSwappedIndex m), install (leaf_entry e pte 0 va) m, b')
          else (None, m, b')))"
  by (auto simp: walk_l0_def writeTLB_spec isValidLeafPTE_spec intro!: bindR_cong)

lemma walk_l1_eq:
  "mmu_wf m \<Longrightarrow> walk_l1 bus e m b a va =
     bindR (read_pte bus b (a + bget va_vpn_1 va * 8)) (\<lambda>(pte, b').
     if leaf_pte pte then Inr (Some (lastSwappedIndex m), install (leaf_entry e pte 1 va) m, b')
     else if dir_pte pte then walk_l0 bus e m b' (pte_addr pte) va
     else Inr (None, m, b'))"
  by (auto simp: walk_l1_def writeTLB_spec isValidLeafPTE_spec isValidDirPTE_spec pte_addr_check_eq
      intro!: bindR_cong)

lemma walk_l2_eq:
  "mmu_wf m \<Longrightarrow> bget satp_mode (env_satp e) = 8 \<Longrightarrow> walk_l2 bus e m b va =
     bindR (read_pte bus b (push_bit 12 (bget satp_ppn (env_satp e)) + bget va_vpn_2 va * 8)) (\<lambda>(pte, b').
     if leaf_pte pte then Inr (Some (lastSwappedIndex m), install (leaf_entry e pte 2 va) m, b')
     else if dir_pte pte then walk_l1 bus e m b' (pte_addr pte) va
     else Inr (None, m, b'))"
  by (auto simp: walk_l2_def writeTLB_spec isValidLeafPTE_spec isValidDirPTE_spec pte_addr_check_eq
      intro!: bindR_cong)

lemma walk_l0_post: "mmu_wf m \<Longrightarrow> holdsR (walk_l0 bus e m b a va) (lookup_post e va m)"
  by (auto simp: walk_l0_eq lookup_post_install lookup_post_None intro!: holdsR_I split: if_splits)

lemma walk_l1_post: "mmu_wf m \<Longrightarrow> holdsR (walk_l1 bus e m b a va) (lookup_post e va m)"
  by (auto simp: walk_l1_eq lookup_post_install lookup_post_None intro!: holdsR_I split: if_splits
      dest: holdsR_D [OF walk_l0_post])

lemma walk_l2_post: "mmu_wf m \<Longrightarrow> holdsR (walk_l2 bus e m b va) (lookup_post e va m)"
proof (cases "bget satp_mode (env_satp e) = 8")
  case True
  then show "mmu_wf m \<Longrightarrow> ?thesis"
    by (auto simp: walk_l2_eq lookup_post_install lookup_post_None intro!: holdsR_I split: if_splits
      dest: holdsR_D [OF walk_l1_post])
next
  case False
  then show "mmu_wf m \<Longrightarrow> ?thesis" by (simp add: walk_l2_def lookup_post_None)
qed

lemma tlb_scan_wf:
  assumes "mmu_wf m" "tlb_scan e va 0 (tlb m) None (tlbGetCache m) = Inr (r, c)"
  shows "mmu_wf (m\<lparr>tlbGetCache := c\<rparr>)"
    and "r = Some i \<Longrightarrow> i < TLB_SIZE \<and> entry_matches e va (tlb m ! i)"
    and "r = None \<Longrightarrow> c = tlbGetCache m \<and> (\<forall>t \<in> set (tlb m). \<not> entry_matches e va t)"
  using tlb_scan_spec [OF assms(2)] assms(1) by (auto simp: mmu_wf_def split: option.splits)

lemma getTLBEntry_post:
  assumes "mmu_wf m"
  shows "holdsR (getTLBEntry bus e m b va) (lookup_post e va m)"
proof -
  have hit: "lookup_post e va m (Some i, m, b)"
    if "tlb_hit e m va pm c = Some i" "(pm, c) \<in> {(PAGE_MASK_4K, 1), (PAGE_MASK_2M, 2), (PAGE_MASK_1G, 3)}" for i pm c
    using tlb_hit_matches [OF assms that] assms by (simp add: lookup_post_def)
  have scan: "holdsR (tlb_scan e va 0 (tlb m) None (tlbGetCache m))
     (\<lambda>(r, c). case r of Some i \<Rightarrow> lookup_post e va m (Some i, m\<lparr>tlbGetCache := c\<rparr>, b)
       | None \<Rightarrow> holdsR (walk_l2 bus e (m\<lparr>tlbGetCache := c\<rparr>) b va) (lookup_post e va m))"
  proof (rule holdsR_I, clarify)
    fix r c
    assume "tlb_scan e va 0 (tlb m) None (tlbGetCache m) = Inr (r, c)"
    note s = tlb_scan_wf [OF assms this]
    have "holdsR (walk_l2 bus e (m\<lparr>tlbGetCache := c\<rparr>) b va) (lookup_post e va m)"
      by (rule holdsR_mono [OF walk_l2_post [OF s(1)]]) (auto simp: lookup_post_def)
    with s show "case r of Some i \<Rightarrow> lookup_post e va m (Some i, m\<lparr>tlbGetCache := c\<rparr>, b)
       | None \<Rightarrow> holdsR (walk_l2 bus e (m\<lparr>tlbGetCache := c\<rparr>) b va) (lookup_post e va m)"
      by (auto simp: lookup_post_def split: option.splits)
  qed
  show ?thesis
    by (auto simp: getTLBEntry_def hit Let_def split: option.splits intro!: holdsR_mono [OF scan])
qed

end
