(* ===== verification/Sv39_Walk.thy ===== *)
theory Sv39_Walk
  imports Sv39_Mmu
begin

unbundle bit_operations_syntax

text \<open>
  The abstract specification of the translation unit: the SV39 walk of the privileged manual as
  a recursion over the levels of the page table, the coherence of the translation buffer with
  it, and the proofs that lookups, flushes and translated accesses implement it.
\<close>

section \<open>The page-table walk of the manual\<close>

definition vpn :: "nat \<Rightarrow> u64 \<Rightarrow> u64" where
  "vpn i va = take_bit 9 (drop_bit (level_bits i) va)"

text \<open>The walk as a recursion over the level, on a memory that maps an address to its eight bytes.\<close>

fun sv39_walk :: "(u64 \<Rightarrow> u64) \<Rightarrow> nat \<Rightarrow> u64 \<Rightarrow> u64 \<Rightarrow> (u64 \<times> nat) option" where
  "sv39_walk mem 0 base va =
     (let pte = mem (base + vpn 0 va * 8) in if leaf_pte pte then Some (pte, 0) else None)"
| "sv39_walk mem (Suc i) base va =
     (let pte = mem (base + vpn (Suc i) va * 8)
      in if leaf_pte pte then Some (pte, Suc i)
         else if dir_pte pte then sv39_walk mem i (pte_addr pte) va else None)"

text \<open>The addresses it reads.\<close>

fun walk_addrs :: "(u64 \<Rightarrow> u64) \<Rightarrow> nat \<Rightarrow> u64 \<Rightarrow> u64 \<Rightarrow> u64 list" where
  "walk_addrs mem 0 base va = [base + vpn 0 va * 8]"
| "walk_addrs mem (Suc i) base va =
     (let a = base + vpn (Suc i) va * 8
      in a # (if dir_pte (mem a) then walk_addrs mem i (pte_addr (mem a)) va else []))"

definition sv39_root :: "mmu_env \<Rightarrow> u64" where
  "sv39_root e = push_bit 12 (bget satp_ppn (env_satp e))"

definition sv39 :: "(u64 \<Rightarrow> u64) \<Rightarrow> mmu_env \<Rightarrow> u64 \<Rightarrow> (u64 \<times> nat) option" where
  "sv39 mem e va = sv39_walk mem 2 (sv39_root e) va"

text \<open>A bus that answers the reads at \<open>A\<close> from \<open>mem\<close> as long as \<open>I\<close> holds of its state.\<close>

definition pt_memory :: "'b bus_ops \<Rightarrow> ('b \<Rightarrow> bool) \<Rightarrow> (u64 \<Rightarrow> u64) \<Rightarrow> u64 set \<Rightarrow> bool" where
  "pt_memory bus I mem A \<longleftrightarrow>
     (\<forall>b a. I b \<and> a \<in> A \<longrightarrow>
        returnsR (PAddr_ReadBuffer_MMIOBus_API bus b a 8)
          (\<lambda>(fb, r, b'). fb = MEMU_OK \<and> r = Some (to_bytes 8 (mem a)) \<and> I b'))"

lemma read_pte_memory:
  assumes "pt_memory bus I mem A" "I b" "a \<in> A"
  obtains b' where "read_pte bus b a = Inr (mem a, b')" "I b'"
proof -
  have "returnsR (PAddr_ReadBuffer_MMIOBus_API bus b a 8)
     (\<lambda>(fb, r, b'). fb = MEMU_OK \<and> r = Some (to_bytes 8 (mem a)) \<and> I b')"
    using assms unfolding pt_memory_def by blast
  then obtain b' where "PAddr_ReadBuffer_MMIOBus_API bus b a 8 = Inr (MEMU_OK, Some (to_bytes 8 (mem a)), b')" "I b'"
    by (auto simp: returnsR_iff)
  then show thesis
    by (intro that [of b']) (simp_all add: read_pte_def of_bytes_to_bytes_full)
qed

lemma vpn_fields: "bget va_vpn_0 va = vpn 0 va" "bget va_vpn_1 va = vpn 1 va" "bget va_vpn_2 va = vpn 2 va"
  by (simp_all add: bget_def field_defs vpn_def level_bits_def)

lemma vpn_same: "drop_bit (level_bits l) va = drop_bit (level_bits l) va' \<Longrightarrow> l \<le> i \<Longrightarrow> vpn i va = vpn i va'"
proof -
  assume a: "drop_bit (level_bits l) va = drop_bit (level_bits l) va'" and "l \<le> i"
  then have "level_bits i = level_bits i - level_bits l + level_bits l" by (simp add: level_bits_def)
  then have "drop_bit (level_bits i) x = drop_bit (level_bits i - level_bits l) (drop_bit (level_bits l) x)" for x :: u64
    by (metis drop_bit_drop_bit)
  then show ?thesis by (simp only: vpn_def a)
qed

lemma sv39_walk_level: "sv39_walk mem n base va = Some (pte, l) \<Longrightarrow> l \<le> n \<and> leaf_pte pte"
  by (induction mem n base va rule: sv39_walk.induct) (auto simp: Let_def split: if_splits)

text \<open>All addresses of a page have the same walk.\<close>

lemma sv39_walk_page:
  "sv39_walk mem n base va = Some (pte, l) \<Longrightarrow> drop_bit (level_bits l) va' = drop_bit (level_bits l) va \<Longrightarrow>
   sv39_walk mem n base va' = Some (pte, l)"
proof (induction mem n base va rule: sv39_walk.induct)
  case (1 mem base va)
  then show ?case using vpn_same [of l va' va 0] by (auto simp: Let_def split: if_splits)
next
  case (2 mem i base va)
  then have "l \<le> Suc i" using sv39_walk_level [OF 2(2)] by simp
  then have "vpn (Suc i) va' = vpn (Suc i) va" using 2 vpn_same by blast
  with 2 show ?case by (auto simp: Let_def split: if_splits)
qed

definition entry_attrs :: "SV39_TLB_Entry \<Rightarrow> u64 \<Rightarrow> nat \<Rightarrow> bool" where
  "entry_attrs t pte l \<longleftrightarrow> te_ppa t = pte_addr pte \<and> te_pagesize t = of_nat (l + 1) \<and>
     te_R t = bflag pte_R pte \<and> te_W t = bflag pte_W pte \<and> te_X t = bflag pte_X pte \<and>
     te_U t = bflag pte_U pte \<and> te_G t = bflag pte_G pte \<and> te_A t = bflag pte_A pte \<and> te_D t = bflag pte_D pte"

lemma leaf_entry_attrs: "entry_attrs (leaf_entry e pte l va) pte l"
  by (simp add: entry_attrs_def leaf_entry_def)

definition tlb_coherent :: "(u64 \<Rightarrow> u64) \<Rightarrow> mmu_env \<Rightarrow> mmu \<Rightarrow> bool" where
  "tlb_coherent mem e m \<longleftrightarrow> (\<forall>i < TLB_SIZE. \<forall>va. entry_matches e va (tlb m ! i) \<longrightarrow>
     (\<exists>pte l. sv39 mem e va = Some (pte, l) \<and> entry_attrs (tlb m ! i) pte l))"

definition tlb_unique :: "mmu_env \<Rightarrow> mmu \<Rightarrow> bool" where
  "tlb_unique e m \<longleftrightarrow> (\<forall>i < TLB_SIZE. \<forall>j < TLB_SIZE. \<forall>va.
     entry_matches e va (tlb m ! i) \<and> entry_matches e va (tlb m ! j) \<longrightarrow> i = j)"

definition tlb_ok :: "(u64 \<Rightarrow> u64) \<Rightarrow> mmu_env \<Rightarrow> mmu \<Rightarrow> bool" where
  "tlb_ok mem e m \<longleftrightarrow> mmu_wf m \<and> tlb_coherent mem e m \<and> tlb_unique e m"

lemma and_not_mask_iff: "va AND NOT (mask k) = va' AND NOT (mask k) \<longleftrightarrow> drop_bit k va = drop_bit k (va' :: u64)"
proof
  assume "va AND NOT (mask k) = va' AND NOT (mask k)"
  then have "drop_bit k (va AND NOT (mask k)) = drop_bit k (va' AND NOT (mask k))" by simp
  moreover have "drop_bit k (x AND NOT (mask k)) = drop_bit k x" for x :: u64
    by (rule bit_word_eqI) (auto simp: bit_simps dest: bit_imp_le_length)
  ultimately show "drop_bit k va = drop_bit k va'" by simp
next
  assume "drop_bit k va = drop_bit k va'"
  then have "push_bit k (drop_bit k va) = push_bit k (drop_bit k va')" by simp
  moreover have "push_bit k (drop_bit k x) = x AND NOT (mask k)" for x :: u64
    by (rule bit_word_eqI) (auto simp: bit_simps)
  ultimately show "va AND NOT (mask k) = va' AND NOT (mask k)" by simp
qed

lemma entry_mask_level:
  assumes "te_pagesize t = of_nat (l + 1)" "l \<le> 2"
  shows "entry_mask t = NOT (mask (level_bits l))"
proof -
  have "l = 0 \<or> l = 1 \<or> l = 2" using assms(2) by linarith
  with assms(1) show ?thesis
    by (auto simp: entry_mask_def level_bits_def page_masks_not_mask)
qed

lemma not_mask_level: "l \<le> 2 \<Longrightarrow> NOT (mask (level_bits l)) \<noteq> (0 :: u64)"
proof -
  assume "l \<le> 2"
  then have "l = 0 \<or> l = 1 \<or> l = 2" by linarith
  then show ?thesis using page_mask_nonzero by (auto simp: level_bits_def)
qed

lemma leaf_entry_matches_iff:
  assumes "l \<le> 2"
  shows "entry_matches e va (leaf_entry e' pte l va0) \<longleftrightarrow>
    (env_asid e' = env_asid e \<or> bflag pte_G pte) \<and> drop_bit (level_bits l) va = drop_bit (level_bits l) va0"
proof -
  let ?t = "leaf_entry e' pte l va0"
  have p: "te_pagesize ?t = of_nat (l + 1)" by (simp add: leaf_entry_def)
  show ?thesis
    using not_mask_level [OF assms] entry_mask_level [OF p assms]
    by (simp add: entry_matches_def leaf_entry_def and_not_mask_iff)
qed

lemma tlb_scan_returns:
  "(if found = None then 0 else 1) + length (filter (entry_matches e va) ts) \<le> 1 \<Longrightarrow>
   \<exists>r. tlb_scan e va i ts found cache = Inr r"
  by (induction e va i ts found cache rule: tlb_scan.induct) (auto split: if_splits)

lemma tlb_unique_filter:
  assumes "mmu_wf m" "tlb_unique e m"
  shows "length (filter (entry_matches e va) (tlb m)) \<le> 1"
proof -
  have "length (filter (entry_matches e va) (tlb m)) = card {i. i < length (tlb m) \<and> entry_matches e va (tlb m ! i)}"
    by (rule length_filter_conv_card)
  moreover have "card {i. i < length (tlb m) \<and> entry_matches e va (tlb m ! i)} \<le> Suc 0"
    using assms by (subst card_le_Suc0_iff_eq) (auto simp: mmu_wf_def tlb_unique_def)
  ultimately show ?thesis by simp
qed

lemma install_nth:
  "mmu_wf m \<Longrightarrow> i < TLB_SIZE \<Longrightarrow>
   tlb (install t m) ! i = (if i = lastSwappedIndex m then t else tlb m ! i)"
  by (simp add: install_def mmu_wf_def nth_list_update)

lemma tlb_ok_install:
  assumes ok: "tlb_ok mem e m" and new: "sv39 mem e va0 = Some (pte, l)"
    and miss: "\<forall>t \<in> set (tlb m). \<not> entry_matches e va0 t"
  shows "tlb_ok mem e (install (leaf_entry e pte l va0) m)"
proof -
  have wf: "mmu_wf m" and co: "tlb_coherent mem e m" and un: "tlb_unique e m" using ok by (simp_all add: tlb_ok_def)
  have l: "l \<le> 2" using sv39_walk_level new by (auto simp: sv39_def)
  let ?t = "leaf_entry e pte l va0"
  have page: "sv39 mem e va = Some (pte, l)" if "entry_matches e va ?t" for va
    using sv39_walk_page [OF new [unfolded sv39_def]] that leaf_entry_matches_iff [OF l]
    by (simp add: sv39_def)
  have "tlb_coherent mem e (install ?t m)"
    using co page leaf_entry_attrs wf by (auto simp: tlb_coherent_def install_nth)
  moreover have clash: False if "entry_matches e va ?t" "i < TLB_SIZE" "entry_matches e va (tlb m ! i)" for va i
  proof -
    from co that(2,3) obtain pte' l' where w: "sv39 mem e va = Some (pte', l')" "entry_attrs (tlb m ! i) pte' l'"
      unfolding tlb_coherent_def by blast
    with page [OF that(1)] have a: "entry_attrs (tlb m ! i) pte l" by simp
    then have em: "entry_mask (tlb m ! i) = NOT (mask (level_bits l))"
      by (intro entry_mask_level [OF _ l]) (simp add: entry_attrs_def)
    have "va AND NOT (mask (level_bits l)) = va0 AND NOT (mask (level_bits l))"
      using that(1) leaf_entry_matches_iff [OF l] by (simp add: and_not_mask_iff)
    with that(3) em have "entry_matches e va0 (tlb m ! i)" by (simp add: entry_matches_def)
    with miss that(2) wf show False by (simp add: mmu_wf_def)
  qed
  then have "tlb_unique e (install ?t m)"
    using un wf by (auto simp: tlb_unique_def install_nth split: if_splits)
  ultimately show ?thesis using wf by (simp add: tlb_ok_def mmu_wf_install)
qed

definition walk_outcome :: "mmu_env \<Rightarrow> mmu \<Rightarrow> u64 \<Rightarrow> (u64 \<times> nat) option \<Rightarrow> 'b \<Rightarrow> nat option \<times> mmu \<times> 'b" where
  "walk_outcome e m va w b =
     (case w of None \<Rightarrow> (None, m, b)
      | Some (pte, l) \<Rightarrow> (Some (lastSwappedIndex m), install (leaf_entry e pte l va) m, b))"

lemma walk_l0_memory:
  assumes "pt_memory bus I mem A" "mmu_wf m" "I b" "set (walk_addrs mem 0 a va) \<subseteq> A"
  shows "\<exists>b'. I b' \<and> walk_l0 bus e m b a va = Inr (walk_outcome e m va (sv39_walk mem 0 a va) b')"
proof -
  obtain b' where "read_pte bus b (a + vpn 0 va * 8) = Inr (mem (a + vpn 0 va * 8), b')" "I b'"
    using read_pte_memory [OF assms(1,3), of "a + vpn 0 va * 8"] assms(4) by auto
  then show ?thesis using assms(2) by (auto simp: walk_l0_eq vpn_fields walk_outcome_def)
qed

lemma walk_l1_memory:
  assumes "pt_memory bus I mem A" "mmu_wf m" "I b" "set (walk_addrs mem 1 a va) \<subseteq> A"
  shows "\<exists>b'. I b' \<and> walk_l1 bus e m b a va = Inr (walk_outcome e m va (sv39_walk mem 1 a va) b')"
proof -
  let ?a = "a + vpn 1 va * 8"
  obtain b' where r: "read_pte bus b ?a = Inr (mem ?a, b')" "I b'"
    using read_pte_memory [OF assms(1,3), of ?a] assms(4) by (auto simp: Let_def)
  show ?thesis
  proof (cases "dir_pte (mem ?a)")
    case True
    with assms(4) have "set (walk_addrs mem 0 (pte_addr (mem ?a)) va) \<subseteq> A" by (simp add: Let_def)
    from walk_l0_memory [OF assms(1,2) r(2) this] show ?thesis
      using True leaf_not_dir [of "mem ?a"] r assms(2) by (auto simp: walk_l1_eq vpn_fields Let_def)
  next
    case False
    then show ?thesis
      using r assms(2) by (auto simp: walk_l1_eq vpn_fields Let_def walk_outcome_def)
  qed
qed

lemma walk_addrs_2:
  "set (walk_addrs mem 2 a va) = insert (a + vpn 2 va * 8)
     (if dir_pte (mem (a + vpn 2 va * 8)) then set (walk_addrs mem 1 (pte_addr (mem (a + vpn 2 va * 8))) va) else {})"
  unfolding numeral_2_eq_2 One_nat_def by (subst walk_addrs.simps(2)) (simp add: Let_def del: walk_addrs.simps)

lemma walk_l2_memory:
  assumes "pt_memory bus I mem A" "mmu_wf m" "I b" "set (walk_addrs mem 2 (sv39_root e) va) \<subseteq> A"
    and "bget satp_mode (env_satp e) = 8"
  shows "\<exists>b'. I b' \<and> walk_l2 bus e m b va = Inr (walk_outcome e m va (sv39 mem e va) b')"
proof -
  let ?a = "sv39_root e + vpn 2 va * 8"
  note A = assms(4) [unfolded walk_addrs_2]
  obtain b' where r: "read_pte bus b ?a = Inr (mem ?a, b')" "I b'"
    using read_pte_memory [OF assms(1,3), of ?a] A by auto
  show ?thesis
  proof (cases "dir_pte (mem ?a)")
    case True
    with A have "set (walk_addrs mem 1 (pte_addr (mem ?a)) va) \<subseteq> A" by simp
    from walk_l1_memory [OF assms(1,2) r(2) this] show ?thesis
      using True leaf_not_dir [of "mem ?a"] r assms(2,5)
      by (auto simp: walk_l2_eq vpn_fields Let_def sv39_def sv39_root_def numeral_2_eq_2)
  next
    case False
    then show ?thesis
      using r assms(2,5)
      by (auto simp: walk_l2_eq vpn_fields Let_def walk_outcome_def sv39_def sv39_root_def numeral_2_eq_2)
  qed
qed

lemma tlb_ok_cache: "tlb_ok mem e m \<Longrightarrow> mmu_wf (m\<lparr>tlbGetCache := c\<rparr>) \<Longrightarrow> tlb_ok mem e (m\<lparr>tlbGetCache := c\<rparr>)"
  by (simp add: tlb_ok_def tlb_coherent_def tlb_unique_def)

text \<open>Through the buffer or not, a lookup answers what the manual's walk answers.\<close>

lemma getTLBEntry_walk:
  assumes ok: "tlb_ok mem e m" and I: "I b"
    and mem: "pt_memory bus I mem A" "set (walk_addrs mem 2 (sv39_root e) va) \<subseteq> A"
    and mode: "bget satp_mode (env_satp e) = 8" and can: "canonical va"
  shows "returnsR (getTLBEntry bus e m b va) (\<lambda>(p, m', b').
    tlb_ok mem e m' \<and> I b' \<and> lr_part m' = lr_part m \<and>
    (case sv39 mem e va of None \<Rightarrow> p = None
     | Some (pte, l) \<Rightarrow> \<exists>i < TLB_SIZE. p = Some i \<and> entry_attrs (tlb m' ! i) pte l))"
    (is "returnsR _ ?post")
proof -
  have wf: "mmu_wf m" and co: "tlb_coherent mem e m" and un: "tlb_unique e m"
    using ok by (simp_all add: tlb_ok_def)
  have present: "?post (Some i, m', b)" if "tlb m' = tlb m" "tlb_ok mem e m'" "lr_part m' = lr_part m"
      "i < TLB_SIZE" "entry_matches e va (tlb m ! i)" for i m'
    using co that I by (fastforce simp: tlb_coherent_def)
  have hit: "?post (Some i, m, b)"
    if "tlb_hit e m va pm c = Some i" "(pm, c) \<in> {(PAGE_MASK_4K, 1), (PAGE_MASK_2M, 2), (PAGE_MASK_1G, 3)}" for i pm c
    using tlb_hit_matches [OF wf that] ok by (intro present) auto
  obtain r c where s: "tlb_scan e va 0 (tlb m) None (tlbGetCache m) = Inr (r, c)"
    using tlb_scan_returns [of None e va "tlb m" 0 "tlbGetCache m"] tlb_unique_filter [OF wf un, of va] by auto
  note sw = tlb_scan_wf [OF wf s]
  have scan: "returnsR (case r of Some i \<Rightarrow> Inr (Some i, m\<lparr>tlbGetCache := c\<rparr>, b)
      | None \<Rightarrow> walk_l2 bus e (m\<lparr>tlbGetCache := c\<rparr>) b va) ?post"
  proof (cases r)
    case (Some i)
    then show ?thesis
      using sw present [of "m\<lparr>tlbGetCache := c\<rparr>" i] tlb_ok_cache [OF ok sw(1)] by simp
  next
    case None
    with sw have m: "m\<lparr>tlbGetCache := c\<rparr> = m" and miss: "\<forall>t \<in> set (tlb m). \<not> entry_matches e va t" by simp_all
    from walk_l2_memory [OF mem(1) wf I mem(2) mode] obtain b' where
      w: "I b'" "walk_l2 bus e m b va = Inr (walk_outcome e m va (sv39 mem e va) b')" by blast
    have "lastSwappedIndex m < TLB_SIZE" using wf by (simp add: mmu_wf_def)
    then show ?thesis
      using None m w ok tlb_ok_install [OF ok _ miss] install_at [OF wf] leaf_entry_attrs
      by (auto simp: walk_outcome_def split: option.splits)
  qed
  show ?thesis
    using can hit s scan by (auto simp: getTLBEntry_def Let_def split: option.split)
qed

section \<open>Flushing and coherence\<close>

lemma no_match_pagesize_0: "te_pagesize t = 0 \<Longrightarrow> \<not> entry_matches e va t"
  by (simp add: entry_matches_def entry_mask_def)

lemma tlb_ok_empty: "mmu_wf m \<Longrightarrow> (\<And>i. i < TLB_SIZE \<Longrightarrow> te_pagesize (tlb m ! i) = 0) \<Longrightarrow> tlb_ok mem e m"
  by (simp add: tlb_ok_def tlb_coherent_def tlb_unique_def no_match_pagesize_0)

lemma flush_nth:
  "mmu_wf m \<Longrightarrow> i < TLB_SIZE \<Longrightarrow>
   tlb (SV39_FlushTLB_sfence_vma v a m) ! i = flush_entry v a (tlb m ! i)"
  by (simp add: SV39_FlushTLB_sfence_vma_def mmu_wf_def)

lemma tlb_ok_new: "tlb_ok mem e (new_mmu junk pa sz hart)"
  by (rule tlb_ok_empty [OF mmu_wf_new]) (simp add: new_mmu_def TLB_SIZE_def)

lemma tlb_ok_flush_all: "mmu_wf m \<Longrightarrow> tlb_ok mem e (SV39_FlushTLB_sfence_vma 0 0 m)"
  by (rule tlb_ok_empty [OF mmu_wf_flush]) (simp_all add: flush_nth flush_entry_def)

lemma flush_entry_matches:
  assumes "entry_matches e va (flush_entry v 0 t)"
  shows "flush_entry v 0 t = t" and "drop_bit 12 va \<noteq> drop_bit 12 v"
proof -
  have ps: "te_pagesize (flush_entry v 0 t) \<noteq> 0" using assms no_match_pagesize_0 by blast
  then show t: "flush_entry v 0 t = t" by (auto simp: flush_entry_def split: if_splits)
  show "drop_bit 12 va \<noteq> drop_bit 12 v"
  proof
    assume eq: "drop_bit 12 va = drop_bit 12 v"
    have same: "va AND NOT (mask k) = v AND NOT (mask k)" if "12 \<le> k" for k
    proof -
      have "drop_bit k x = drop_bit (k - 12) (drop_bit 12 x)" for x :: u64
        using that by (metis drop_bit_drop_bit le_add_diff_inverse2)
      then show ?thesis by (simp only: and_not_mask_iff eq)
    qed
    from assms t have m: "entry_matches e va t" by simp
    then have idem: "te_vpa t AND entry_mask t = te_vpa t"
      unfolding entry_matches_def by (metis and.assoc and.idem)
    from ps show False
      using m same [of 12] same [of 21] same [of 30] idem
      by (auto simp: flush_entry_def entry_matches_def entry_mask_def page_masks_not_mask split: if_splits)
  qed
qed

lemma tlb_ok_flush_page:
  assumes "tlb_ok mem e m" and "\<And>va. drop_bit 12 va \<noteq> drop_bit 12 v \<Longrightarrow> sv39 mem' e va = sv39 mem e va"
  shows "tlb_ok mem' e (SV39_FlushTLB_sfence_vma v 0 m)"
proof -
  have wf: "mmu_wf m" and co: "tlb_coherent mem e m" and un: "tlb_unique e m" using assms(1) by (simp_all add: tlb_ok_def)
  have old: "entry_matches e va (tlb m ! i) \<and> sv39 mem' e va = sv39 mem e va \<and> flush_entry v 0 (tlb m ! i) = tlb m ! i"
    if "entry_matches e va (flush_entry v 0 (tlb m ! i))" for va i
    using flush_entry_matches [OF that] that assms(2) by auto
  have "tlb_coherent mem' e (SV39_FlushTLB_sfence_vma v 0 m)"
    using co old unfolding tlb_coherent_def by (metis flush_nth [OF wf])
  moreover have "tlb_unique e (SV39_FlushTLB_sfence_vma v 0 m)"
    using un old unfolding tlb_unique_def by (metis flush_nth [OF wf])
  ultimately show ?thesis by (simp add: tlb_ok_def mmu_wf_flush wf)
qed

section \<open>Accesses\<close>

text \<open>The permission rules of the manual for a store and for a fetch.\<close>

definition store_allowed :: "mmu_env \<Rightarrow> u64 \<Rightarrow> bool" where
  "store_allowed e pte \<longleftrightarrow> bflag pte_A pte \<and> bflag pte_D pte \<and> bflag pte_W pte \<and>
     (access_priv e = U_MODE \<longrightarrow> bflag pte_U pte) \<and>
     (access_priv e = S_MODE \<and> bflag pte_U pte \<longrightarrow> bflag ms_sum (env_status e))"

definition fetch_allowed :: "mmu_env \<Rightarrow> u64 \<Rightarrow> bool" where
  "fetch_allowed e pte \<longleftrightarrow> bflag pte_A pte \<and> bflag pte_X pte \<and>
     (env_priv e = U_MODE \<longrightarrow> bflag pte_U pte) \<and> (env_priv e = S_MODE \<longrightarrow> \<not> bflag pte_U pte)"

definition sv39_paddr :: "u64 \<Rightarrow> nat \<Rightarrow> u64 \<Rightarrow> u64" where
  "sv39_paddr pte l va = pte_addr pte + take_bit (level_bits l) va"

lemma attrs_page_size:
  assumes "entry_attrs t pte l" "l \<le> 2"
  shows "page_size_of t \<noteq> 0 \<and> te_ppa t + va mod page_size_of t = sv39_paddr pte l va"
proof -
  have at: "te_ppa t = pte_addr pte" "te_pagesize t = of_nat (l + 1)"
    using assms(1) by (simp_all add: entry_attrs_def)
  consider "l = 0" | "l = 1" | "l = 2" using assms(2) by linarith
  then have "page_size_of t \<noteq> 0 \<and> va mod page_size_of t = take_bit (level_bits l) va"
    by cases (simp_all add: at(2) page_size_of_def page_sizes level_bits_def take_bit_eq_mod)
  then show ?thesis by (simp add: sv39_paddr_def at(1))
qed

lemma sv39_level: "sv39 mem e va = Some (pte, l) \<Longrightarrow> l \<le> 2 \<and> leaf_pte pte"
  unfolding sv39_def by (rule sv39_walk_level)

lemma getTLBEntry_walk_cases:
  assumes "tlb_ok mem e m" "I b" "pt_memory bus I mem A" "set (walk_addrs mem 2 (sv39_root e) va) \<subseteq> A"
    "bget satp_mode (env_satp e) = 8" "canonical va"
  obtains
    (unmapped) m' b' where "sv39 mem e va = None" "getTLBEntry bus e m b va = Inr (None, m', b')"
      "tlb_ok mem e m'" "I b'" "lr_part m' = lr_part m"
  | (mapped) pte l i m' b' where "sv39 mem e va = Some (pte, l)" "l \<le> 2" "leaf_pte pte"
      "getTLBEntry bus e m b va = Inr (Some i, m', b')" "entry_attrs (tlb m' ! i) pte l"
      "tlb_ok mem e m'" "I b'" "lr_part m' = lr_part m"
proof -
  obtain p m' b' where g: "getTLBEntry bus e m b va = Inr (p, m', b')"
    and q: "tlb_ok mem e m'" "I b'" "lr_part m' = lr_part m"
      "case sv39 mem e va of None \<Rightarrow> p = None
       | Some (pte, l) \<Rightarrow> \<exists>i < TLB_SIZE. p = Some i \<and> entry_attrs (tlb m' ! i) pte l"
    using getTLBEntry_walk [OF assms] by (auto simp: returnsR_iff)
  show thesis
  proof (cases "sv39 mem e va")
    case None
    with g q show thesis by (intro unmapped [of m' b']) auto
  next
    case (Some w)
    then obtain pte l where w: "sv39 mem e va = Some (pte, l)" by (cases w) auto
    with g q sv39_level [OF w] show thesis by (auto intro: mapped [of pte l _ m' b'])
  qed
qed

lemma bare_access_mode: "\<not> bare_access e \<Longrightarrow> bget satp_mode (env_satp e) \<noteq> 0"
  by (simp add: bare_access_def)

lemma write_walk:
  assumes hyps: "tlb_ok mem e m" "I b" "pt_memory bus I mem A" "set (walk_addrs mem 2 (sv39_root e) va) \<subseteq> A"
    "bget satp_mode (env_satp e) = 8" "canonical va"
    and acc: "\<not> bare_access e" "\<not> crosses_page va (of_nat (length buf))"
  shows "\<exists>m' b1. tlb_ok mem e m' \<and> I b1 \<and> lr_part m' = lr_part m \<and>
    VAddr_WriteBuffer_MMU_API bus e m b va buf =
     (case sv39 mem e va of
        None \<Rightarrow> Inr (VADDR_PAGE_FAULT, m', b1)
      | Some (pte, l) \<Rightarrow>
          if \<not> store_allowed e pte then Inr (VADDR_PAGE_FAULT, m', b1)
          else bindR (PAddr_WriteBuffer_MMIOBus_API bus b1 (sv39_paddr pte l va) buf) (\<lambda>(fb, b2).
            Inr (if fb = MEMU_OK then VADDR_ACCESS_OK else VADDR_PAGE_FAULT, m', b2)))"
  using hyps
proof (cases rule: getTLBEntry_walk_cases)
  case (unmapped m' b')
  then show ?thesis using acc by (intro exI [of _ m'] exI [of _ b']) (simp add: VAddr_WriteBuffer_MMU_API_def)
next
  case (mapped pte l i m' b')
  note ps = attrs_page_size [OF mapped(5,2), of va]
  from mapped(5) have at: "te_A (tlb m' ! i) = bflag pte_A pte" "te_D (tlb m' ! i) = bflag pte_D pte"
    "te_W (tlb m' ! i) = bflag pte_W pte" "te_U (tlb m' ! i) = bflag pte_U pte"
    by (simp_all add: entry_attrs_def)
  show ?thesis
    using acc mapped ps
    by (intro exI [of _ m'] exI [of _ b'])
      (auto simp: VAddr_WriteBuffer_MMU_API_def Let_def at store_allowed_def intro!: bindR_cong)
qed

lemma fetch_walk:
  assumes hyps: "tlb_ok mem e m" "I b" "pt_memory bus I mem A" "set (walk_addrs mem 2 (sv39_root e) va) \<subseteq> A"
    "bget satp_mode (env_satp e) = 8" "canonical va"
    and acc: "env_priv e \<noteq> M_MODE" "\<not> crosses_page va sz" "va mod 2 = 0"
  shows "\<exists>m' b1. tlb_ok mem e m' \<and> I b1 \<and> lr_part m' = lr_part m \<and>
    inst_fetch_part bus e m b va sz buf =
     (case sv39 mem e va of
        None \<Rightarrow> Inr (INST_PAGE_FAULT, buf, m', b1)
      | Some (pte, l) \<Rightarrow>
          if \<not> fetch_allowed e pte then Inr (INST_PAGE_FAULT, buf, m', b1)
          else bindR (PAddr_ReadBuffer_MMIOBus_API bus b1 (sv39_paddr pte l va) sz) (\<lambda>(fb, data, b2).
            Inr (if fb = MEMU_OK then INST_ACCESS_OK else INST_ACCESS_FAULT,
                 case data of None \<Rightarrow> buf | Some bs \<Rightarrow> bs, m', b2)))"
  using hyps
proof (cases rule: getTLBEntry_walk_cases)
  case (unmapped m' b')
  then show ?thesis using acc hyps(5) by (intro exI [of _ m'] exI [of _ b']) (simp add: inst_fetch_part_def)
next
  case (mapped pte l i m' b')
  note ps = attrs_page_size [OF mapped(5,2), of va]
  from mapped(5) have at: "te_A (tlb m' ! i) = bflag pte_A pte" "te_X (tlb m' ! i) = bflag pte_X pte"
    "te_U (tlb m' ! i) = bflag pte_U pte"
    by (simp_all add: entry_attrs_def)
  show ?thesis
    using acc hyps(5) mapped ps
    by (intro exI [of _ m'] exI [of _ b'])
      (auto simp: inst_fetch_part_def Let_def at fetch_allowed_def intro!: bindR_cong)
qed

text \<open>The rule the code applies to a load: \<open>mxr\<close> never helps, because a leaf that is not readable is executable.\<close>

definition load_outcome :: "mmu_env \<Rightarrow> u64 \<Rightarrow> VAddr_RW_Feedback" where
  "load_outcome e pte =
     (if \<not> bflag pte_A pte \<or> \<not> bflag pte_R pte then VADDR_PAGE_FAULT
      else if access_priv e = U_MODE \<and> \<not> bflag pte_U pte then VADDR_PAGE_FAULT
      else if env_priv e = S_MODE \<and> bflag pte_U pte \<and> \<not> bflag ms_sum (env_status e) then VADDR_ACCESS_FAULT
      else VADDR_ACCESS_OK)"

lemma read_walk:
  assumes hyps: "tlb_ok mem e m" "I b" "pt_memory bus I mem A" "set (walk_addrs mem 2 (sv39_root e) va) \<subseteq> A"
    "bget satp_mode (env_satp e) = 8" "canonical va"
    and acc: "\<not> bare_access e" "\<not> crosses_page va sz"
  shows "\<exists>m' b1. tlb_ok mem e m' \<and> I b1 \<and> lr_part m' = lr_part m \<and>
    VAddr_ReadBuffer_MMU_API bus e m b va sz =
     (case sv39 mem e va of
        None \<Rightarrow> Inr (VADDR_PAGE_FAULT, None, m', b1)
      | Some (pte, l) \<Rightarrow>
          if load_outcome e pte \<noteq> VADDR_ACCESS_OK then Inr (load_outcome e pte, None, m', b1)
          else bindR (PAddr_ReadBuffer_MMIOBus_API bus b1 (sv39_paddr pte l va) sz) (\<lambda>(fb, data, b2).
            Inr (if fb = MEMU_OK then VADDR_ACCESS_OK else VADDR_ACCESS_FAULT, data, m', b2)))"
  using hyps
proof (cases rule: getTLBEntry_walk_cases)
  case (unmapped m' b')
  then show ?thesis using acc by (intro exI [of _ m'] exI [of _ b']) (simp add: VAddr_ReadBuffer_MMU_API_def)
next
  case (mapped pte l i m' b')
  note ps = attrs_page_size [OF mapped(5,2), of va]
  from mapped(5) have at: "te_A (tlb m' ! i) = bflag pte_A pte" "te_R (tlb m' ! i) = bflag pte_R pte"
    "te_X (tlb m' ! i) = bflag pte_X pte" "te_U (tlb m' ! i) = bflag pte_U pte"
    by (simp_all add: entry_attrs_def)
  from mapped(3) have rx: "bflag pte_R pte \<or> bflag pte_X pte" by (simp add: leaf_pte_def)
  show ?thesis
    using acc mapped ps rx
    by (intro exI [of _ m'] exI [of _ b'])
      (auto simp: VAddr_ReadBuffer_MMU_API_def Let_def at load_outcome_def intro!: bindR_cong)
qed

lemma aligned4_no_cross:
  assumes "va mod 4 = (0 :: u64)"
  shows "\<not> crosses_page va 4"
proof -
  have z: "take_bit 2 va = 0" using assms by (simp add: take_bit_eq_mod)
  have "va AND 3 = 0" using z by (simp add: take_bit_eq_mask mask_eq_exp_minus_1)
  then have "va + 4 - 1 = va OR 3" using disjunctive_add_eq_or [of va 3] by (simp add: add.commute)
  moreover have "drop_bit 12 (3 :: u64) = 0" by code_simp
  ultimately show ?thesis by (simp add: crosses_page_def drop_bit_or)
qed

lemma aligned4_even: "va mod 4 = (0 :: u64) \<Longrightarrow> va mod 2 = 0"
proof -
  assume "va mod 4 = (0 :: u64)"
  then have "take_bit 2 va = 0" by (simp add: take_bit_eq_mod)
  then have "take_bit 1 va = 0" using take_bit_take_bit [of 1 2 va] by simp
  then show ?thesis by (simp only: take_bit_eq_mod power_one_right)
qed

section \<open>An example address space\<close>

text \<open>
  A root table at \<open>0x80000000\<close> whose entry 1 points to a table at \<open>0x81000000\<close>, which maps
  the first two megabytes at \<open>0x80200000\<close> for the supervisor and the next two, execute-only,
  at \<open>0x80400000\<close>. The status register has \<open>mxr\<close> set.
\<close>

definition example_mem :: "u64 \<Rightarrow> u64" where
  "example_mem a = (if a = 0x80000008 then 0x20400001 else if a = 0x81000000 then 0x200800CF
     else if a = 0x81000008 then 0x201000C9 else 0)"

definition example_bus :: "unit bus_ops" where
  "example_bus =
     \<lparr>PAddr_ReadBuffer_MMIOBus_API = (\<lambda>b a n. Inr (MEMU_OK, Some (to_bytes (unat n) (example_mem a)), b)),
      PAddr_WriteBuffer_MMIOBus_API = (\<lambda>b a bs. Inr (MEMU_OK, b))\<rparr>"

definition example_env :: mmu_env where
  "example_env = \<lparr>env_priv = S_MODE, env_satp = 0x8000000000080000, env_status = 0x80000, env_hart = 0\<rparr>"

definition example_mmu :: mmu where
  "example_mmu = new_mmu (replicate 32 (leaf_entry example_env 0 0 0)) 0 0 0"

lemma example_pt_memory: "pt_memory example_bus (\<lambda>_. True) example_mem UNIV"
  by (simp add: pt_memory_def example_bus_def)

lemma example_facts:
  "tlb_ok example_mem example_env example_mmu"
  "bget satp_mode (env_satp example_env) = 8"
  "canonical 0x40001234"
  "\<not> bare_access example_env"
  "env_priv example_env \<noteq> M_MODE"
  subgoal by (simp add: example_mmu_def tlb_ok_new)
  subgoal by code_simp
  subgoal by code_simp
  subgoal by code_simp
  subgoal by (simp add: example_env_def)
  done

section \<open>Properties\<close>

text \<open>Whatever the bus answers, a TLB lookup that returns an entry returns an index inside the
  TLB whose entry matches the address and the current address space; the TLB stays well-formed and
  the reservation is untouched.\<close>

theorem lookup_returns_matching_entry:
  assumes "mmu_wf m"
  shows "holdsR (getTLBEntry bus e m b va) (\<lambda>(p, m', b').
    mmu_wf m' \<and> lr_part m' = lr_part m \<and>
    (\<forall>i. p = Some i \<longrightarrow> i < TLB_SIZE \<and> entry_matches e va (tlb m' ! i)))"
  using getTLBEntry_post [OF assms] by (simp add: lookup_post_def [abs_def])

theorem lookup_returns_matching_entry_witness:
  "holdsR (getTLBEntry example_bus example_env example_mmu () 0x40001234) (\<lambda>(p, m', b').
    mmu_wf m' \<and> lr_part m' = lr_part example_mmu \<and>
    (\<forall>i. p = Some i \<longrightarrow> i < TLB_SIZE \<and> entry_matches example_env 0x40001234 (tlb m' ! i)))"
  by (rule lookup_returns_matching_entry) (simp add: example_mmu_def mmu_wf_new)

text \<open>C1: With page tables held in memory and a coherent TLB, getTLBEntry answers as a direct walk of
  the page tables does: it finds no entry exactly when the walk fails, and otherwise a TLB entry
  with the attributes and the physical page of the leaf PTE; the TLB stays coherent. An address
  that is not canonical, and no other, ends it with an assertion failure.\<close>

theorem tlb_transparent:
  assumes "tlb_ok mem e m" and "I b"
    and "pt_memory bus I mem A" and "set (walk_addrs mem 2 (sv39_root e) va) \<subseteq> A"
    and "bget satp_mode (env_satp e) = 8"
  shows "if canonical va
    then returnsR (getTLBEntry bus e m b va) (\<lambda>(p, m', b').
      tlb_ok mem e m' \<and> I b' \<and> lr_part m' = lr_part m \<and>
      (case sv39 mem e va of None \<Rightarrow> p = None
       | Some (pte, l) \<Rightarrow> \<exists>i < TLB_SIZE. p = Some i \<and> entry_attrs (tlb m' ! i) pte l))
    else getTLBEntry bus e m b va = Inl AssertionFailure"
proof (cases "canonical va")
  case True
  then show ?thesis using getTLBEntry_walk [OF assms] by simp
qed (simp add: getTLBEntry_def)

theorem tlb_transparent_witness:
  "sv39 example_mem example_env 0x40001234 = Some (0x200800CF, 1) \<and>
   returnsR (getTLBEntry example_bus example_env example_mmu () 0x40001234) (\<lambda>(p, m', b').
    tlb_ok example_mem example_env m' \<and> True \<and> lr_part m' = lr_part example_mmu \<and>
    (case sv39 example_mem example_env 0x40001234 of None \<Rightarrow> p = None
     | Some (pte, l) \<Rightarrow> \<exists>i < TLB_SIZE. p = Some i \<and> entry_attrs (tlb m' ! i) pte l))"
proof
  show "sv39 example_mem example_env 0x40001234 = Some (0x200800CF, 1)" by code_simp
qed (use tlb_transparent [OF example_facts(1) TrueI example_pt_memory subset_UNIV example_facts(2), where va = "0x40001234"] example_facts(3) in simp)







text \<open>A load from a page that is not readable faults whatever mstatus.mxr and the execute
  permission say: making executable pages readable has no effect.\<close>

theorem mxr_has_no_effect:
  assumes "tlb_ok mem e m" and "I b"
    and "pt_memory bus I mem A" and "set (walk_addrs mem 2 (sv39_root e) va) \<subseteq> A"
    and "bget satp_mode (env_satp e) = 8" and "canonical va"
    and "\<not> bare_access e" and "\<not> crosses_page va sz"
    and "sv39 mem e va = Some (pte, l)" and "\<not> bflag pte_R pte"
  shows "\<exists>m' b1. VAddr_ReadBuffer_MMU_API bus e m b va sz = Inr (VADDR_PAGE_FAULT, None, m', b1)"
  using read_walk [OF assms(1-8)] assms(9,10) by (auto simp: load_outcome_def)

theorem mxr_has_no_effect_witness:
  "bflag ms_mxr (env_status example_env) \<and>
   (\<exists>m'. VAddr_ReadBuffer_MMU_API example_bus example_env example_mmu () 0x40201000 4 =
     Inr (VADDR_PAGE_FAULT, None, m', ()))"
proof
  show "bflag ms_mxr (env_status example_env)" by code_simp
  have s: "sv39 example_mem example_env 0x40201000 = Some (0x201000C9, 1)" by code_simp
  have r: "\<not> bflag pte_R 0x201000C9" by code_simp
  have c: "canonical 0x40201000" "\<not> crosses_page 0x40201000 4" by code_simp+
  show "\<exists>m'. VAddr_ReadBuffer_MMU_API example_bus example_env example_mmu () 0x40201000 4 =
      Inr (VADDR_PAGE_FAULT, None, m', ())"
    using mxr_has_no_effect [OF example_facts(1) TrueI example_pt_memory _ example_facts(2) c(1)
        example_facts(4) c(2) s r] by simp
qed

end
