(* ===== verification/Sv39_Amo.thy ===== *)
theory Sv39_Amo
  imports Sv39_Walk Alu
begin

unbundle bit_operations_syntax

text \<open>
  The atomic memory operations of the translation unit
  (\<open>modules/core/rv64/inline_impl/rv64_amo.hpp\<close>): read-modify-write, load-reserved and
  store-conditional with the reservation registers.
\<close>

section \<open>The operations\<close>

datatype AMO_Funct_enum =
    AMOLR | AMOSC | AMOSWAP | AMOADD | AMOXOR | AMOAND | AMOOR | AMOMIN | AMOMAX | AMOMINU | AMOMAXU

primrec amo_code :: "AMO_Funct_enum \<Rightarrow> u32" where
  "amo_code AMOLR = 2"
| "amo_code AMOSC = 3"
| "amo_code AMOSWAP = 1"
| "amo_code AMOADD = 0"
| "amo_code AMOXOR = 4"
| "amo_code AMOAND = 12"
| "amo_code AMOOR = 8"
| "amo_code AMOMIN = 16"
| "amo_code AMOMAX = 20"
| "amo_code AMOMINU = 24"
| "amo_code AMOMAXU = 28"

definition amo_of :: "u32 \<Rightarrow> AMO_Funct_enum option" where
  "amo_of funct5 = find (\<lambda>op. amo_code op = funct5)
     [AMOLR, AMOSC, AMOSWAP, AMOADD, AMOXOR, AMOAND, AMOOR, AMOMIN, AMOMAX, AMOMINU, AMOMAXU]"

text \<open>The \<open>switch\<close> of \<open>pa_amo_op\<close>: the value to store from the source and the loaded value.\<close>

definition amo_to_write :: "AMO_Funct_enum \<Rightarrow> u64 \<Rightarrow> u64 \<Rightarrow> u64 res" where
  "amo_to_write op src val =
     (case op of
        AMOSWAP \<Rightarrow> Inr src
      | AMOADD \<Rightarrow> Inr (src + val)
      | AMOAND \<Rightarrow> Inr (src AND val)
      | AMOOR \<Rightarrow> Inr (src OR val)
      | AMOXOR \<Rightarrow> Inr (src XOR val)
      | AMOMAX \<Rightarrow> Inr (if sint src < sint val then val else src)
      | AMOMIN \<Rightarrow> Inr (if sint val < sint src then val else src)
      | AMOMAXU \<Rightarrow> Inr (if src < val then val else src)
      | AMOMINU \<Rightarrow> Inr (if val < src then val else src)
      | AMOLR \<Rightarrow> Inl AssertionFailure
      | AMOSC \<Rightarrow> Inl AssertionFailure)"

text \<open>The result is the success flag, the destination if it was assigned, and the bus.\<close>

definition pa_amo_op ::
    "'b bus_ops \<Rightarrow> 'b \<Rightarrow> u64 \<Rightarrow> u64 \<Rightarrow> AMO_Funct_enum \<Rightarrow> u64 \<Rightarrow> (bool \<times> u64 option \<times> 'b) res" where
  "pa_amo_op bus b pa sz op src =
     bindR (PAddr_ReadBuffer_MMIOBus_API bus b pa sz) (\<lambda>(feedback, buffer, b1).
     if feedback \<noteq> MEMU_OK then Inr (False, None, b1)
     else
       bindR (initialised buffer) (\<lambda>bs.
       let val = (if sz = 4 then scast (of_bytes bs :: u32) else of_bytes bs) in
       bindR (amo_to_write op src val) (\<lambda>to_write.
       bindR (PAddr_WriteBuffer_MMIOBus_API bus b1 pa (to_bytes (unat sz) to_write)) (\<lambda>(feedback, b2).
       Inr (feedback = MEMU_OK, Some val, b2)))))"

definition vaddrAtomicMemOperation ::
    "'b bus_ops \<Rightarrow> mmu_env \<Rightarrow> mmu \<Rightarrow> 'b \<Rightarrow> u64 \<Rightarrow> u64 \<Rightarrow> AMO_Funct_enum \<Rightarrow> u64 \<Rightarrow>
     (RV64_ExecFeedbackCode_e \<times> u64 option \<times> mmu \<times> 'b) res" where
  "vaddrAtomicMemOperation bus e m b start_addr sz op src =
     assertR (sz = 4 \<or> sz = 8)
     (if bare_access e then
        bindR (pa_amo_op bus b start_addr sz op src) (\<lambda>(amo_fb, dst, b1).
        Inr (if \<not> amo_fb then exec_store_acc_fault else exec_ok, dst, m, b1))
      else if crosses_page start_addr sz then Inr (exec_store_misalign, None, m, b)
      else
        bindR (getTLBEntry bus e m b start_addr) (\<lambda>(tlb_entry, m1, b1).
        case tlb_entry of
          None \<Rightarrow> Inr (exec_store_pgfault, None, m1, b1)
        | Some ptr \<Rightarrow>
            let t = tlb m1 ! ptr in
            if \<not> te_A t \<or> \<not> te_D t \<or> \<not> te_W t then Inr (exec_store_pgfault, None, m1, b1)
            else if access_priv e = U_MODE \<and> \<not> te_U t then Inr (exec_store_pgfault, None, m1, b1)
            else if \<not> bflag ms_sum (env_status e) \<and> access_priv e = S_MODE \<and> te_U t
            then Inr (exec_store_pgfault, None, m1, b1)
            else
              assertR (page_size_of t \<noteq> 0)
                (let paddr = te_ppa t + start_addr mod page_size_of t in
                 bindR (pa_amo_op bus b1 paddr sz op src) (\<lambda>(amo_fb, dst, b2).
                 Inr (if \<not> amo_fb then exec_store_acc_fault else exec_ok, dst, m1, b2)))))"

text \<open>Taking a reservation: the four assignments of \<open>vaddrLoadReserved\<close>.\<close>

definition reserve :: "mmu_env \<Rightarrow> u64 \<Rightarrow> u64 \<Rightarrow> mmu \<Rightarrow> mmu" where
  "reserve e begin_addr sz m =
     m\<lparr>lr_pa := begin_addr, lr_size := sz, lr_valid := True, lr_hart := env_hart e\<rparr>"

definition vaddrLoadReserved ::
    "'b bus_ops \<Rightarrow> mmu_env \<Rightarrow> mmu \<Rightarrow> 'b \<Rightarrow> u64 \<Rightarrow> u64 \<Rightarrow>
     (RV64_ExecFeedbackCode_e \<times> u8 list option \<times> mmu \<times> 'b) res" where
  "vaddrLoadReserved bus e m b begin_addr sz =
     (if bare_access e then
        bindR (PAddr_ReadBuffer_MMIOBus_API bus b begin_addr sz) (\<lambda>(pread_fb, buffer, b1).
        Inr (if pread_fb \<noteq> MEMU_OK then exec_store_acc_fault else exec_ok, buffer,
             reserve e begin_addr sz m, b1))
      else if crosses_page begin_addr sz then Inr (exec_store_misalign, None, m, b)
      else
        bindR (getTLBEntry bus e m b begin_addr) (\<lambda>(tlb_entry, m1, b1).
        case tlb_entry of
          None \<Rightarrow> Inr (exec_store_pgfault, None, m1, b1)
        | Some ptr \<Rightarrow>
            let t = tlb m1 ! ptr in
            if \<not> te_A t \<or> (\<not> te_R t \<and> \<not> (bflag ms_mxr (env_status e) \<and> \<not> te_X t))
            then Inr (exec_store_pgfault, None, m1, b1)
            else if access_priv e = U_MODE \<and> \<not> te_U t then Inr (exec_store_pgfault, None, m1, b1)
            else if \<not> bflag ms_sum (env_status e) \<and> env_priv e = S_MODE \<and> te_U t
            then Inr (exec_store_acc_fault, None, m1, b1)
            else
              assertR (page_size_of t \<noteq> 0)
                (let paddr = te_ppa t + begin_addr mod page_size_of t in
                 bindR (PAddr_ReadBuffer_MMIOBus_API bus b1 paddr sz) (\<lambda>(pread_fb, buffer, b2).
                 Inr (if pread_fb \<noteq> MEMU_OK then exec_store_acc_fault else exec_ok, buffer,
                      reserve e begin_addr sz m1, b2)))))"

text \<open>The reservation test and the failing branch of \<open>vaddrStoreConditional\<close>.\<close>

definition reserved :: "mmu_env \<Rightarrow> u64 \<Rightarrow> u64 \<Rightarrow> mmu \<Rightarrow> bool" where
  "reserved e begin_addr sz m \<longleftrightarrow>
     lr_valid m \<and> lr_pa m = begin_addr \<and> lr_size m = sz \<and> lr_hart m = env_hart e"

definition drop_reservation :: "mmu_env \<Rightarrow> mmu \<Rightarrow> mmu" where
  "drop_reservation e m = (if env_hart e = lr_hart m then m\<lparr>lr_valid := False\<rparr> else m)"

definition vaddrStoreConditional ::
    "'b bus_ops \<Rightarrow> mmu_env \<Rightarrow> mmu \<Rightarrow> 'b \<Rightarrow> u64 \<Rightarrow> u8 list \<Rightarrow>
     (RV64_ExecFeedbackCode_e \<times> bool option \<times> mmu \<times> 'b) res" where
  "vaddrStoreConditional bus e m b begin_addr buffer =
     (let sz = of_nat (length buffer) in
      if bare_access e then
        if \<not> reserved e begin_addr sz m then Inr (exec_ok, Some True, drop_reservation e m, b)
        else
          bindR (PAddr_WriteBuffer_MMIOBus_API bus b begin_addr buffer) (\<lambda>(pwrite_fb, b1).
          Inr (if pwrite_fb \<noteq> MEMU_OK then exec_store_acc_fault else exec_ok, Some False,
               m\<lparr>lr_valid := False\<rparr>, b1))
      else if crosses_page begin_addr sz then Inr (exec_store_misalign, None, m, b)
      else
        bindR (getTLBEntry bus e m b begin_addr) (\<lambda>(tlb_entry, m1, b1).
        case tlb_entry of
          None \<Rightarrow> Inr (exec_store_pgfault, None, m1, b1)
        | Some ptr \<Rightarrow>
            let t = tlb m1 ! ptr in
            if \<not> te_A t \<or> \<not> te_D t \<or> \<not> te_W t then Inr (exec_store_pgfault, None, m1, b1)
            else if access_priv e = U_MODE \<and> \<not> te_U t then Inr (exec_store_pgfault, None, m1, b1)
            else if \<not> bflag ms_sum (env_status e) \<and> access_priv e = S_MODE \<and> te_U t
            then Inr (exec_store_pgfault, None, m1, b1)
            else
              assertR (page_size_of t \<noteq> 0)
                (let paddr = te_ppa t + begin_addr mod page_size_of t in
                 if \<not> reserved e begin_addr sz m1 then Inr (exec_ok, Some True, drop_reservation e m1, b1)
                 else
                   bindR (PAddr_WriteBuffer_MMIOBus_API bus b1 paddr buffer) (\<lambda>(pstatus, b2).
                   Inr (if pstatus \<noteq> MEMU_OK then exec_store_pgfault else exec_ok, Some False,
                        m1\<lparr>lr_valid := False\<rparr>, b2)))))"

section \<open>Lemmas\<close>

lemma amo_of_code [simp]: "amo_of (amo_code op) = Some op"
  by (cases op) (simp_all add: amo_of_def)

text \<open>The operation of the manual on operands of either width.\<close>

definition amo_spec :: "AMO_Funct_enum \<Rightarrow> 'a::len word \<Rightarrow> 'a word \<Rightarrow> 'a word" where
  "amo_spec op src val =
     (case op of
        AMOSWAP \<Rightarrow> src
      | AMOADD \<Rightarrow> src + val
      | AMOAND \<Rightarrow> src AND val
      | AMOOR \<Rightarrow> src OR val
      | AMOXOR \<Rightarrow> src XOR val
      | AMOMAX \<Rightarrow> word_of_int (max (sint src) (sint val))
      | AMOMIN \<Rightarrow> word_of_int (min (sint src) (sint val))
      | AMOMAXU \<Rightarrow> max src val
      | AMOMINU \<Rightarrow> min src val
      | _ \<Rightarrow> 0)"

lemma mmu_wf_lr [simp]:
  "mmu_wf (m\<lparr>lr_valid := v\<rparr>) = mmu_wf m" "mmu_wf (reserve e a n m) = mmu_wf m"
  "mmu_wf (drop_reservation e m) = mmu_wf m"
  by (simp_all add: mmu_wf_def reserve_def drop_reservation_def)

definition rmw_op :: "AMO_Funct_enum \<Rightarrow> bool" where
  "rmw_op op \<longleftrightarrow> op \<noteq> AMOLR \<and> op \<noteq> AMOSC"

lemma amo_to_write_64: "rmw_op op \<Longrightarrow> amo_to_write op src val = Inr (amo_spec op src val)"
  by (cases op) (auto simp: rmw_op_def amo_to_write_def amo_spec_def max_def min_def)

lemma ucast_scast [simp]: "(ucast (scast (x :: u32) :: u64) :: u32) = x"
  by (rule bit_word_eqI) (simp add: bit_simps)

lemma sint_scast [simp]: "sint (scast (x :: u32) :: u64) = sint x"
  by (rule sint_up_scast) (simp add: is_up)

lemma uint_by_sint: "uint (a :: 'a::len word) = sint a + (if sint a < 0 then 2 ^ LENGTH('a) else 0)"
proof -
  have u: "uint a = sint a mod 2 ^ LENGTH('a)"
    using uint_word_of_int [of "sint a", where 'a = 'a] by simp
  have b: "- (2 ^ LENGTH('a)) \<le> sint a" "sint a < 2 ^ LENGTH('a)"
  proof -
    have p: "(2 :: int) ^ (LENGTH('a) - Suc 0) \<le> 2 ^ LENGTH('a)" by (rule power_increasing) simp_all
    show "- (2 ^ LENGTH('a)) \<le> sint a" using sint_greater_eq [of a] p by linarith
    show "sint a < 2 ^ LENGTH('a)" using sint_less [of a] p by linarith
  qed
  show ?thesis
  proof (cases "sint a < 0")
    case True
    have "uint a = (sint a + 2 ^ LENGTH('a)) mod 2 ^ LENGTH('a)" by (simp add: u)
    also have "\<dots> = sint a + 2 ^ LENGTH('a)" using True b by (intro mod_pos_pos_trivial) linarith+
    finally show ?thesis using True by simp
  next
    case False
    then show ?thesis using b by (simp add: u)
  qed
qed

text \<open>The unsigned order survives sign extension.\<close>

lemma scast_less: "(scast (x :: u32) :: u64) < scast y \<longleftrightarrow> x < y"
proof -
  note b = sint_greater_eq [of x] sint_less [of x] sint_greater_eq [of y] sint_less [of y]
  show ?thesis using b by (simp add: word_less_def uint_by_sint)
qed

lemma sint_inj: "sint (x :: 'a::len word) = sint y \<Longrightarrow> x = y"
proof -
  assume "sint x = sint y"
  then have "(word_of_int (sint x) :: 'a word) = word_of_int (sint y)" by (rule arg_cong)
  then show ?thesis by simp
qed

lemma amo_to_write_32:
  assumes "rmw_op op"
  shows "\<exists>w. amo_to_write op (scast (x :: u32)) (scast y) = Inr w \<and> ucast w = amo_spec op x y"
proof (cases op)
  case AMOADD
  then show ?thesis by (simp add: amo_to_write_def amo_spec_def ucast_hom)
next
  case AMOAND
  then show ?thesis by (auto simp: amo_to_write_def amo_spec_def bit_simps intro!: bit_word_eqI)
next
  case AMOOR
  then show ?thesis by (auto simp: amo_to_write_def amo_spec_def bit_simps intro!: bit_word_eqI)
next
  case AMOXOR
  then show ?thesis by (auto simp: amo_to_write_def amo_spec_def bit_simps intro!: bit_word_eqI)
qed (use assms in \<open>auto simp: rmw_op_def amo_to_write_def amo_spec_def max_def min_def scast_less not_le not_less dest: sint_inj\<close>)

lemma to_bytes_ucast: "n \<le> 4 \<Longrightarrow> to_bytes n (w :: u64) = to_bytes n (ucast w :: u32)"
  by (rule nth_equalityI) (auto simp: intro!: bit_word_eqI simp: bit_simps)

lemma vaddrAMO_bare:
  assumes "bare_access e" "rmw_op op"
    and "PAddr_ReadBuffer_MMIOBus_API bus b a 8 = Inr (MEMU_OK, Some (to_bytes 8 old), b1)"
  shows "vaddrAtomicMemOperation bus e m b a 8 op src =
    bindR (PAddr_WriteBuffer_MMIOBus_API bus b1 a (to_bytes 8 (amo_spec op src old))) (\<lambda>(fb, b2).
    Inr (if fb = MEMU_OK then exec_ok else exec_store_acc_fault, Some old, m, b2))"
  using assms
  by (simp add: vaddrAtomicMemOperation_def pa_amo_op_def amo_to_write_64 of_bytes_to_bytes_full split_def Let_def bindR_assoc)
    (auto intro!: bindR_cong)

lemma vaddrAMO_bare_32:
  assumes "bare_access e" "rmw_op op"
    and "PAddr_ReadBuffer_MMIOBus_API bus b a 4 = Inr (MEMU_OK, Some (to_bytes 4 (old :: u32)), b1)"
  shows "vaddrAtomicMemOperation bus e m b a 4 op (scast (x :: u32)) =
    bindR (PAddr_WriteBuffer_MMIOBus_API bus b1 a (to_bytes 4 (amo_spec op x old))) (\<lambda>(fb, b2).
    Inr (if fb = MEMU_OK then exec_ok else exec_store_acc_fault, Some (scast old), m, b2))"
proof -
  obtain w where "amo_to_write op (scast x) (scast old) = Inr w" "ucast w = amo_spec op x old"
    using amo_to_write_32 [OF assms(2)] by blast
  then show ?thesis
    using assms
    by (simp add: vaddrAtomicMemOperation_def pa_amo_op_def of_bytes_to_bytes_full split_def Let_def bindR_assoc
        to_bytes_ucast)
      (auto intro!: bindR_cong)
qed

text \<open>A store-conditional reports success exactly when the reservation registers match, and always ends the reservation.\<close>

lemma lookup_post_lr: "mmu_wf m \<Longrightarrow> getTLBEntry bus e m b va = Inr (p, m', b') \<Longrightarrow> lr_part m' = lr_part m"
  using getTLBEntry_post [of m bus e b va] by (simp add: lookup_post_def)

lemma reserved_cong: "lr_part m' = lr_part m \<Longrightarrow> reserved e a n m' = reserved e a n m"
  by (simp add: lr_part_def reserved_def)

lemma sc_post:
  assumes "mmu_wf m" "lr_valid m \<longrightarrow> lr_hart m = env_hart e"
  shows "holdsR (vaddrStoreConditional bus e m b a buf) (\<lambda>(fb, sc_fail, m', b').
    (\<forall>f. sc_fail = Some f \<longrightarrow> \<not> lr_valid m' \<and> f = (\<not> reserved e a (of_nat (length buf)) m)) \<and>
    (fb = exec_ok \<longrightarrow> sc_fail \<noteq> None))"
proof -
  let ?ok = "\<lambda>sc_fail m'. \<forall>f. sc_fail = Some f \<longrightarrow> \<not> lr_valid m' \<and> f = (\<not> reserved e a (of_nat (length buf)) m)"
  have drop: "\<not> lr_valid (drop_reservation e m')" if "lr_part m' = lr_part m" for m'
    using that assms(2) by (auto simp: drop_reservation_def lr_part_def)
  show ?thesis
  proof (cases "bare_access e")
    case True
    then show ?thesis
      using drop [of m] by (auto simp: vaddrStoreConditional_def Let_def intro!: holdsR_I split: if_splits)
  next
    case False
    show ?thesis
    proof (cases "getTLBEntry bus e m b a")
      case (Inl c)
      with False show ?thesis by (simp add: vaddrStoreConditional_def Let_def)
    next
      case (Inr r)
      then obtain p m1 b1 where g: "getTLBEntry bus e m b a = Inr (p, m1, b1)" by (cases r) auto
      note lr = lookup_post_lr [OF assms(1) g]
      show ?thesis
        using False g drop [OF lr] reserved_cong [OF lr]
        by (cases p) (simp_all add: vaddrStoreConditional_def Let_def, auto intro!: holdsR_I split: if_splits)
    qed
  qed
qed

text \<open>No store of this core touches the reservation, not even one to the reserved address.\<close>

lemma store_keeps_reservation:
  assumes "mmu_wf m"
  shows "holdsR (VAddr_WriteBuffer_MMU_API bus e m b a buf) (\<lambda>(fb, m', b'). lr_part m' = lr_part m)"
proof (cases "getTLBEntry bus e m b a")
  case (Inl c)
  then show ?thesis by (auto simp: VAddr_WriteBuffer_MMU_API_def intro!: holdsR_I split: if_splits)
next
  case (Inr r)
  then obtain p m1 b1 where g: "getTLBEntry bus e m b a = Inr (p, m1, b1)" by (cases r) auto
  show ?thesis
    using g lookup_post_lr [OF assms g]
    by (cases p) (simp_all add: VAddr_WriteBuffer_MMU_API_def Let_def, auto intro!: holdsR_I split: if_splits)
qed

text \<open>
  The word-sized comparisons look at all 64 bits of the source register: with \<open>1\<close> in the low
  half and other bits above it, the minimum of \<open>1\<close> and \<open>2\<close> is \<open>2\<close>.
\<close>

lemma amominu_w_uses_high_half:
  "amo_to_write AMOMINU 0xFFFFFFFF00000001 (scast (2 :: u32)) = Inr 2"
  "amo_spec AMOMINU (ucast (0xFFFFFFFF00000001 :: u64) :: u32) 2 = 1"
  by code_simp+

section \<open>Properties\<close>

definition example_bare :: mmu_env where
  "example_bare = \<lparr>env_priv = M_MODE, env_satp = 0, env_status = 0, env_hart = 0\<rparr>"

lemma example_bare: "bare_access example_bare"
  by code_simp



text \<open>A word AMO whose source register holds a sign-extended word returns the sign-extended old
  word and writes the word the manual gives for the operation.\<close>

theorem amo_word_reads_combines_writes:
  assumes "bare_access e" and "rmw_op op"
    and "PAddr_ReadBuffer_MMIOBus_API bus b a 4 = Inr (MEMU_OK, Some (to_bytes 4 (old :: u32)), b1)"
    and "src = sext32 src"
  shows "vaddrAtomicMemOperation bus e m b a 4 op src =
    bindR (PAddr_WriteBuffer_MMIOBus_API bus b1 a (to_bytes 4 (amo_spec op (ucast src) old))) (\<lambda>(fb, b2).
    Inr (if fb = MEMU_OK then exec_ok else exec_store_acc_fault, Some (scast old), m, b2))"
  using vaddrAMO_bare_32 [OF assms(1-3), of m "ucast src"] assms(4) by (simp add: sext32_def)

theorem amo_word_reads_combines_writes_witness:
  "vaddrAtomicMemOperation example_bus example_bare example_mmu () 0x80000008 4 AMOADD (- 1) =
    Inr (exec_ok, Some 0x20400001, example_mmu, ())"
proof -
  have d: "to_bytes 4 (0x20400001 :: u64) = to_bytes 4 (0x20400001 :: u32)" by code_simp
  have s: "- 1 = sext32 (- 1)" "scast (0x20400001 :: u32) = (0x20400001 :: u64)" by code_simp+
  show ?thesis
    using amo_word_reads_combines_writes [OF example_bare, where op = AMOADD and bus = example_bus
      and a = "0x80000008" and old = "0x20400001" and m = example_mmu and src = "- 1"] s d
    by (simp add: rmw_op_def example_bus_def example_mem_def)
qed

text \<open>A store-conditional that completes reports success exactly when the hart held a reservation
  on that very address and size, and leaves no reservation behind.\<close>

theorem sc_ends_reservation:
  assumes "mmu_wf m" and "lr_valid m \<longrightarrow> lr_hart m = env_hart e"
  shows "holdsR (vaddrStoreConditional bus e m b a buf) (\<lambda>(fb, sc_fail, m', b').
    (\<forall>f. sc_fail = Some f \<longrightarrow> \<not> lr_valid m' \<and> f = (\<not> reserved e a (of_nat (length buf)) m)) \<and>
    (fb = exec_ok \<longrightarrow> sc_fail \<noteq> None))"
  by (rule sc_post [OF assms])

theorem sc_ends_reservation_witness:
  "holdsR (vaddrStoreConditional example_bus example_bare (reserve example_bare 64 4 example_mmu) () 64 [1, 2, 3, 4])
    (\<lambda>(fb, sc_fail, m', b').
      (\<forall>f. sc_fail = Some f \<longrightarrow> \<not> lr_valid m' \<and>
         f = (\<not> reserved example_bare 64 (of_nat (length [1, 2, 3, 4 :: u8])) (reserve example_bare 64 4 example_mmu))) \<and>
      (fb = exec_ok \<longrightarrow> sc_fail \<noteq> None))"
  by (rule sc_ends_reservation) (simp_all add: example_mmu_def mmu_wf_new, simp add: reserve_def)



end
