(* ===== verification/RV64_Core.thy ===== *)
theory RV64_Core
  imports Sv39_Amo Clint
begin

unbundle bit_operations_syntax

text \<open>
  The register file and the control and status registers of a core, traps and returns from
  traps: \<open>include/RV64Core.h\<close>, \<open>inline_impl/rv64_privilege.hpp\<close> and \<open>src/rv64_common.cpp\<close> of
  \<open>modules/core/rv64\<close>.
\<close>

section \<open>State\<close>

record core =
  GPR :: "u64 list"
  csrMCycleNum :: u64
  csrMIntDelegation :: u64
  csrMExceptionDelegation :: u64
  csrMachineTrapVal :: u64
  csrMachineCause :: u64
  csrMExceptionPC :: u64
  csrMTrapVecBaseAddr :: u64
  csrMCounterEN :: u64
  csrMachineISA :: u64
  csrMscratch :: u64
  csrSupervisorTrapVal :: u64
  csrSupervisorCause :: u64
  csrSExceptionPC :: u64
  csrSTrapVecBaseAddr :: u64
  csrSCounterEN :: u64
  csrSscratch :: u64
  minstret :: u64
  status :: u64
  rvHartID :: u64
  satp :: u64
  csrIntPending :: u64
  csrIntEnable :: u64
  trapProgramCounter :: u64
  currentProgramCounter :: u64
  needTrap :: bool
  currentPrivMode :: PrivMode_e
  nextPrivMode :: PrivMode_e
  sv39MMU :: mmu
  intStatus :: IntStatus

definition S_MODE_INT_MASK :: u64 where
  "S_MODE_INT_MASK = int_bit int_s_ext OR int_bit int_s_sw OR int_bit int_s_timer"
definition M_MODE_INT_MASK :: u64 where
  "M_MODE_INT_MASK = S_MODE_INT_MASK OR int_bit int_m_ext OR int_bit int_m_sw OR int_bit int_m_timer"
definition COUNTER_MASK :: u64 where "COUNTER_MASK = push_bit 0 1 OR push_bit 2 1"
definition S_MODE_EXC_MASK :: u64 where
  "S_MODE_EXC_MASK = push_bit 16 1 - 1 - push_bit (unat (exec_code exec_ecall_from_machine)) 1"
definition PC_ALIGN :: u64 where "PC_ALIGN = 2"

text \<open>The references the translation unit holds.\<close>

definition core_env :: "core \<Rightarrow> mmu_env" where
  "core_env c = \<lparr>env_priv = currentPrivMode c, env_satp = satp c, env_status = status c, env_hart = rvHartID c\<rparr>"

text \<open>\<open>reset\<close>; it leaves the program counter, the hart number and the translation unit alone.\<close>

definition reset_misa :: "u64 \<Rightarrow> u64" where
  "reset_misa misa =
     bput misa_blank 0 (bput misa_mxl 2 (bput misa_ext
       (rv_ext (CHR ''i'') OR rv_ext (CHR ''m'') OR rv_ext (CHR ''a'') OR
        rv_ext (CHR ''c'') OR rv_ext (CHR ''s'') OR rv_ext (CHR ''u'')) misa))"

definition core_reset :: "core \<Rightarrow> core" where
  "core_reset c = c\<lparr>
     trapProgramCounter := 0, needTrap := False, currentPrivMode := M_MODE, nextPrivMode := M_MODE,
     status := bput ms_uxl 2 (bput ms_sxl 2 0), csrMachineISA := reset_misa (csrMachineISA c),
     csrMExceptionDelegation := 0, csrMIntDelegation := 0, csrIntEnable := 0, csrMTrapVecBaseAddr := 0,
     csrMscratch := 0, csrMExceptionPC := 0, csrMachineCause := 0, csrMachineTrapVal := 0,
     csrMCounterEN := 0, csrIntPending := 0, csrMCycleNum := 0, minstret := 0,
     csrSTrapVecBaseAddr := 0, csrSscratch := 0, csrSExceptionPC := 0, csrSupervisorCause := 0,
     csrSupervisorTrapVal := 0, satp := 0, csrSCounterEN := 0, GPR := replicate 32 0\<rparr>"

text \<open>The constructor: \<open>junk\<close> is the memory the object is built in, with its \<open>new\<close> translation unit.\<close>

definition new_core :: "core \<Rightarrow> mmu \<Rightarrow> u16 \<Rightarrow> core" where
  "new_core junk mmu0 hart_id =
     core_reset (junk\<lparr>rvHartID := ucast hart_id, csrMCycleNum := 0, needTrap := False, sv39MMU := mmu0,
       intStatus := \<lparr>meip = False, ist_msip = False, mtip = False, seip = False\<rparr>\<rparr>)"

section \<open>General-purpose registers\<close>

text \<open>Register numbers are five-bit fields, so every index is below 32.\<close>

definition gpr :: "core \<Rightarrow> nat \<Rightarrow> u64" where
  "gpr c i = GPR c ! i"

definition setGPR :: "nat \<Rightarrow> u64 \<Rightarrow> core \<Rightarrow> core res" where
  "setGPR i v c =
     assertR (i < 32) (Inr (if i \<noteq> 0 then c\<lparr>GPR := (GPR c)[i := v]\<rparr> else c))"

text \<open>\<open>SetGPRByIndex_CoreAPI\<close> and \<open>WriteProgramCounter_CoreAPI\<close>.\<close>

definition SetGPRByIndex_CoreAPI :: "nat \<Rightarrow> u64 \<Rightarrow> core \<Rightarrow> (FuncReturnFeedback_e \<times> core) res" where
  "SetGPRByIndex_CoreAPI gpr_index val c =
     assertR (gpr_index < 32)
       (if gpr_index = 0 then Inr (MEMU_OK, c)
        else Inr (MEMU_OK, c\<lparr>GPR := (GPR c)[gpr_index := val]\<rparr>))"

definition WriteProgramCounter_CoreAPI :: "u64 \<Rightarrow> core \<Rightarrow> FuncReturnFeedback_e \<times> core" where
  "WriteProgramCounter_CoreAPI reg_val c = (MEMU_OK, c\<lparr>currentProgramCounter := reg_val\<rparr>)"

section \<open>Traps\<close>

definition cause_of :: "RV64_ExecFeedbackCode_e \<Rightarrow> u64" where
  "cause_of x = mk_cause (exec_code x) 0"

definition trap_to_S :: "u64 \<Rightarrow> core \<Rightarrow> bool" where
  "trap_to_S cause c \<longleftrightarrow>
     currentPrivMode c \<noteq> M_MODE \<and>
     (if bget ca_interrupt cause \<noteq> 0
      then csrMIntDelegation c AND push_bit (unat (bget ca_cause cause)) 1 \<noteq> 0
      else csrMExceptionDelegation c AND push_bit (unat (bget ca_cause cause)) 1 \<noteq> 0)"

definition trap_vector :: "u64 \<Rightarrow> u64 \<Rightarrow> u64" where
  "trap_vector tvec cause =
     push_bit 2 (bget tv_base tvec) + (if bget tv_mode tvec = 1 then bget ca_cause cause * 4 else 0)"

definition raiseTrap :: "u64 \<Rightarrow> u64 \<Rightarrow> core \<Rightarrow> core res" where
  "raiseTrap cause tval c =
     assertR (\<not> needTrap c)
    (assertR (bget ca_cause cause \<noteq> exec_code exec_ok)
      (let c1 =
         (if trap_to_S cause c then
            c\<lparr>needTrap := True, csrSupervisorTrapVal := tval, csrSupervisorCause := cause,
              csrSExceptionPC := currentProgramCounter c,
              status := bput ss_spp (priv_code (currentPrivMode c))
                (bput ss_sie 0 (bput ss_spie (bget ss_sie (status c)) (status c))),
              trapProgramCounter := trap_vector (csrSTrapVecBaseAddr c) cause,
              nextPrivMode := S_MODE\<rparr>
          else
            c\<lparr>needTrap := True, csrMachineTrapVal := tval, csrMachineCause := cause,
              csrMExceptionPC := currentProgramCounter c,
              status := bput ms_mpp (priv_code (currentPrivMode c))
                (bput ms_mie 0 (bput ms_mpie (bget ms_mie (status c)) (status c))),
              trapProgramCounter := trap_vector (csrMTrapVecBaseAddr c) cause,
              nextPrivMode := M_MODE\<rparr>)
       in assertR (\<not> (bget ca_cause cause = exec_code exec_instr_pgfault \<and> tval = trapProgramCounter c1))
            (Inr c1)))"

definition ecall :: "core \<Rightarrow> core res" where
  "ecall c = raiseTrap (mk_cause (priv_code (currentPrivMode c) + 8) 0) 0 c"

definition ebreak :: "core \<Rightarrow> core res" where
  "ebreak c = raiseTrap (cause_of exec_breakpoint) 0 c"

text \<open>\<open>None\<close>: the return is refused.\<close>

definition mret :: "core \<Rightarrow> core option" where
  "mret c =
     (if currentPrivMode c \<noteq> M_MODE then None
      else
        let s1 = bput ms_mie (bget ms_mpie (status c)) (status c);
            next = priv_of (bget ms_mpp s1);
            s2 = bput ms_mpie 1 s1;
            s3 = (if bget ms_mpp s2 \<noteq> priv_code M_MODE then bput ms_mprv 0 s2 else s2);
            s4 = bput ms_mpp (priv_code U_MODE) s3
        in Some (c\<lparr>status := s4, nextPrivMode := next, needTrap := True,
                   trapProgramCounter := csrMExceptionPC c\<rparr>))"

definition sret :: "core \<Rightarrow> core option" where
  "sret c =
     (if currentPrivMode c < S_MODE then None
      else if bflag ms_tsr (status c) then None
      else
        let s1 = bput ss_sie (bget ss_spie (status c)) (status c);
            next = priv_of (bget ss_spp s1);
            s2 = bput ss_spie 1 s1;
            s3 = (if bget ss_spp s2 \<noteq> priv_code M_MODE then bput ms_mprv 0 s2 else s2);
            s4 = bput ss_spp (priv_code U_MODE) s3
        in Some (c\<lparr>status := s4, nextPrivMode := next, needTrap := True,
                   trapProgramCounter := csrSExceptionPC c\<rparr>))"

definition sfence_vma :: "u64 \<Rightarrow> u64 \<Rightarrow> core \<Rightarrow> core option" where
  "sfence_vma vaddr asid c =
     (if currentPrivMode c < S_MODE \<or> (currentPrivMode c = S_MODE \<and> bflag ms_tvm (status c)) then None
      else Some (c\<lparr>sv39MMU := SV39_FlushTLB_sfence_vma vaddr asid (sv39MMU c)\<rparr>))"

text \<open>The bookkeeping before an instruction, and the interrupt it may raise.\<close>

definition preExec_update :: "core \<Rightarrow> core" where
  "preExec_update c =
     c\<lparr>csrMCycleNum := csrMCycleNum c + 1,
       csrIntPending :=
         bput ip_s_e_ip (of_bool (seip (intStatus c)))
        (bput ip_m_t_ip (of_bool (mtip (intStatus c)))
        (bput ip_m_s_ip (of_bool (ist_msip (intStatus c)))
        (bput ip_m_e_ip (of_bool (meip (intStatus c))) (csrIntPending c)))),
       needTrap := False,
       currentPrivMode := nextPrivMode c\<rparr>"

definition int_cause :: "IntType_e \<Rightarrow> u64" where
  "int_cause i = mk_cause (of_nat (int_code i)) 1"

definition preExec :: "core \<Rightarrow> core res" where
  "preExec c0 =
     (let c = preExec_update c0;
          int_bits = csrIntPending c AND csrIntEnable c;
          int_type = bits_to_int_type int_bits
      in
      if int_type = int_no_int then Inr c
      else if currentPrivMode c = M_MODE then
        let m_mode_int_bits = int_bits AND NOT (csrMIntDelegation c) in
        if bflag ms_mie (status c) \<and> m_mode_int_bits \<noteq> 0
        then raiseTrap (int_cause (bits_to_int_type m_mode_int_bits)) 0 c
        else Inr c
      else
        if int_bits AND csrMIntDelegation c \<noteq> 0 then
          if currentPrivMode c < S_MODE then raiseTrap (int_cause int_type) 0 c
          else if bflag ms_sie (status c) then raiseTrap (int_cause int_type) 0 c
          else Inr c
        else
          if currentPrivMode c < M_MODE then raiseTrap (int_cause int_type) 0 c
          else if bflag ms_mie (status c) then raiseTrap (int_cause int_type) 0 c
          else Inr c)"

section \<open>Well-formed cores\<close>

definition MSTATUS_WRITABLE :: u64 where "MSTATUS_WRITABLE = 0x7E19AA"
definition MSTATUS_FIXED :: u64 where "MSTATUS_FIXED = 0xA00000000"

definition status_wf :: "u64 \<Rightarrow> bool" where
  "status_wf s \<longleftrightarrow> s AND NOT MSTATUS_WRITABLE = MSTATUS_FIXED"

definition core_wf :: "core \<Rightarrow> bool" where
  "core_wf c \<longleftrightarrow> length (GPR c) = 32 \<and> GPR c ! 0 = 0 \<and> status_wf (status c) \<and>
     csrMIntDelegation c AND NOT S_MODE_INT_MASK = 0 \<and>
     csrMExceptionDelegation c AND NOT S_MODE_EXC_MASK = 0 \<and>
     csrIntEnable c AND NOT M_MODE_INT_MASK = 0 \<and> csrIntPending c AND NOT M_MODE_INT_MASK = 0 \<and>
     csrMCounterEN c AND NOT COUNTER_MASK = 0 \<and> csrSCounterEN c AND NOT COUNTER_MASK = 0 \<and>
     bget satp_mode (satp c) \<in> {0, 8} \<and>
     bget tv_mode (csrMTrapVecBaseAddr c) \<le> 1 \<and> bget tv_mode (csrSTrapVecBaseAddr c) \<le> 1 \<and>
     mmu_wf (sv39MMU c) \<and> (lr_valid (sv39MMU c) \<longrightarrow> lr_hart (sv39MMU c) = rvHartID c)"

text \<open>The fields instructions may change lie in the writable part.\<close>

definition status_field :: "bitfield \<Rightarrow> bool" where
  "status_field f \<longleftrightarrow> f \<in> {ms_sie, ms_mie, ms_spie, ms_mpie, ms_spp, ms_mpp, ms_mprv, ms_sum, ms_mxr, ms_tvm, ms_tw, ms_tsr}"

lemma status_field_outside: "status_field f \<Longrightarrow> NOT MSTATUS_WRITABLE AND push_bit (fst f) (mask (snd f)) = 0"
proof -
  have "\<forall>f \<in> set [ms_sie, ms_mie, ms_spie, ms_mpie, ms_spp, ms_mpp, ms_mprv, ms_sum, ms_mxr, ms_tvm, ms_tw, ms_tsr].
     NOT MSTATUS_WRITABLE AND push_bit (fst f) (mask (snd f)) = 0" by code_simp
  then show "status_field f \<Longrightarrow> ?thesis" by (auto simp: status_field_def)
qed

lemma status_wf_bput: "status_field f \<Longrightarrow> status_wf (bput f v s) = status_wf s"
  by (simp add: status_wf_def bput_and_outside status_field_outside)

lemma status_fields [simp]:
  "status_field ms_sie" "status_field ms_mie" "status_field ms_spie" "status_field ms_mpie"
  "status_field ms_spp" "status_field ms_mpp" "status_field ms_mprv" "status_field ms_sum"
  "status_field ms_mxr" "status_field ms_tvm" "status_field ms_tw" "status_field ms_tsr"
  by (simp_all add: status_field_def)

lemma status_wf_reset: "status_wf (bput ms_uxl 2 (bput ms_sxl 2 0))"
  by code_simp

text \<open>The assertions at the end of each step.\<close>

lemma status_wf_blank:
  assumes "status_wf s" "f \<in> {ms_blank0, ms_blank1, ms_blank2, ms_blank3, ms_blank4}"
  shows "bget f s = 0"
proof -
  have d: "drop_bit (fst f) s AND mask (snd f) = drop_bit (fst f) (s AND NOT MSTATUS_WRITABLE) AND mask (snd f)"
    if "push_bit (fst f) (mask (snd f)) AND MSTATUS_WRITABLE = 0"
  proof (rule bit_word_eqI)
    fix n assume "n < LENGTH(64)"
    have "\<not> (bit (push_bit (fst f) (mask (snd f)) :: u64) (fst f + n) \<and> bit MSTATUS_WRITABLE (fst f + n))"
      using that by (metis bit_and_iff bit_0_eq bot_apply bot_bool_def)
    then show "bit (drop_bit (fst f) s AND mask (snd f)) n = bit (drop_bit (fst f) (s AND NOT MSTATUS_WRITABLE) AND mask (snd f)) n"
      by (auto simp: bit_simps dest: bit_imp_le_length)
  qed
  have "\<forall>f \<in> set [ms_blank0, ms_blank1, ms_blank2, ms_blank3, ms_blank4].
     push_bit (fst f) (mask (snd f)) AND MSTATUS_WRITABLE = 0 \<and>
     drop_bit (fst f) MSTATUS_FIXED AND mask (snd f) = 0" by code_simp
  then show ?thesis
    using assms d by (auto simp: bget_def take_bit_eq_mask status_wf_def)
qed

lemma core_wf_new: "mmu_wf m \<Longrightarrow> \<not> lr_valid m \<Longrightarrow> core_wf (new_core junk m h)"
  by (simp add: core_wf_def new_core_def core_reset_def status_wf_reset)
    (simp add: bget_def field_defs)

lemma core_wf_setGPR: "core_wf c \<Longrightarrow> holdsR (setGPR i v c) core_wf"
  by (auto simp: setGPR_def core_wf_def nth_list_update)

lemma setGPR_returns: "i < 32 \<Longrightarrow> setGPR i v c = Inr (if i \<noteq> 0 then c\<lparr>GPR := (GPR c)[i := v]\<rparr> else c)"
  by (simp add: setGPR_def)

lemma core_wf_raiseTrap: "core_wf c \<Longrightarrow> holdsR (raiseTrap cause tval c) core_wf"
  by (auto simp: raiseTrap_def Let_def core_wf_def sstatus_in_mstatus status_wf_bput)

lemma core_wf_mret: "core_wf c \<Longrightarrow> mret c = Some c' \<Longrightarrow> core_wf c'"
  by (auto simp: mret_def Let_def core_wf_def status_wf_bput split: if_splits)

lemma core_wf_sret: "core_wf c \<Longrightarrow> sret c = Some c' \<Longrightarrow> core_wf c'"
  by (auto simp: sret_def Let_def core_wf_def sstatus_in_mstatus status_wf_bput split: if_splits)

lemma lr_flush [simp]: "lr_valid (SV39_FlushTLB_sfence_vma v a m) = lr_valid m"
    "lr_hart (SV39_FlushTLB_sfence_vma v a m) = lr_hart m"
  by (simp_all add: SV39_FlushTLB_sfence_vma_def)

lemma core_wf_sfence: "core_wf c \<Longrightarrow> sfence_vma v a c = Some c' \<Longrightarrow> core_wf c'"
  by (auto simp: sfence_vma_def core_wf_def mmu_wf_flush split: if_splits)

lemma pending_bput:
  assumes "f \<in> {ip_m_s_ip, ip_m_t_ip, ip_s_e_ip, ip_m_e_ip}"
  shows "bput f v w AND NOT M_MODE_INT_MASK = w AND NOT M_MODE_INT_MASK"
proof (rule bput_and_outside)
  have "\<forall>f \<in> set [ip_m_s_ip, ip_m_t_ip, ip_s_e_ip, ip_m_e_ip].
     NOT M_MODE_INT_MASK AND push_bit (fst f) (mask (snd f)) = 0" by code_simp
  with assms show "NOT M_MODE_INT_MASK AND push_bit (fst f) (mask (snd f)) = 0" by auto
qed

lemma core_wf_preExec_update: "core_wf c \<Longrightarrow> core_wf (preExec_update c)"
  by (simp add: preExec_update_def core_wf_def pending_bput)

lemma core_wf_preExec: "core_wf c \<Longrightarrow> holdsR (preExec c) core_wf"
  using core_wf_preExec_update [of c] by (simp add: preExec_def Let_def core_wf_raiseTrap)

section \<open>Traps\<close>

lemma mk_cause_fields [simp]:
  "bget ca_cause (mk_cause a b) = take_bit 63 a" "bget ca_interrupt (mk_cause a b) = take_bit 1 b"
  by (simp_all add: mk_cause_def bget_bput_same bget_bput_other disjoint_fields_def field_defs)

lemma exec_code_small: "take_bit 63 (exec_code x) = exec_code x"
  by (cases x; simp only: exec_code.simps; code_simp)

lemma cause_of_fields [simp]:
  "bget ca_cause (cause_of x) = exec_code x" "bget ca_interrupt (cause_of x) = 0"
  by (simp_all add: cause_of_def exec_code_small)

lemma exec_code_inj [simp]: "exec_code x = exec_code y \<longleftrightarrow> x = y"
  by (cases x; cases y) simp_all

lemma int_cause_fields [simp]:
  "bget ca_cause (int_cause i) = of_nat (int_code i)" "bget ca_interrupt (int_cause i) = 1"
  by (cases i; simp add: int_cause_def; code_simp)+

text \<open>When the assertions of \<open>raiseTrap\<close> hold.\<close>

lemma raiseTrap_returns:
  "returnsR (raiseTrap cause tval c) P \<longleftrightarrow>
     \<not> needTrap c \<and> bget ca_cause cause \<noteq> 24 \<and>
     (bget ca_cause cause = 12 \<longrightarrow>
        tval \<noteq> trap_vector (if trap_to_S cause c then csrSTrapVecBaseAddr c else csrMTrapVecBaseAddr c) cause) \<and>
     holdsR (raiseTrap cause tval c) P"
  by (auto simp: raiseTrap_def Let_def)

lemma bget_priv [simp]:
  "take_bit 2 (priv_code p) = priv_code p" 
  by (cases p; simp only: priv_code.simps; code_simp)

lemma spp_roundtrip: "p \<le> S_MODE \<Longrightarrow> priv_code p mod 2 = priv_code p \<and> priv_code p \<noteq> 3"
  by (cases p) (simp_all add: less_eq_PrivMode_e_def word_le_nat_alt)

lemmas ms_fields = ms_mie_def ms_mpie_def ms_mpp_def ms_mprv_def ms_sie_def ms_spie_def ms_spp_def

lemma bput_and_field: "bput f v (bput f w s) = bput f v s"
  by (rule bit_word_eqI) (simp add: bit_bput)

text \<open>A trap to machine mode followed by \<open>mret\<close>.\<close>

lemma trap_mret:
  assumes "raiseTrap cause tval c = Inr c1" "\<not> trap_to_S cause c"
    and "status c2 = status c1" "csrMExceptionPC c2 = csrMExceptionPC c1" "currentPrivMode c2 = nextPrivMode c1"
  shows "\<exists>c3. mret c2 = Some c3 \<and> nextPrivMode c3 = currentPrivMode c \<and>
    trapProgramCounter c3 = currentProgramCounter c \<and> bget ms_mie (status c3) = bget ms_mie (status c) \<and>
    bget ms_sie (status c3) = bget ms_sie (status c)"
proof -
  have 1: "nextPrivMode c1 = M_MODE" "csrMExceptionPC c1 = currentProgramCounter c"
    "status c1 = bput ms_mpp (priv_code (currentPrivMode c))
                (bput ms_mie 0 (bput ms_mpie (bget ms_mie (status c)) (status c)))"
    using assms(1,2) by (auto simp: raiseTrap_def Let_def assertR_eq_Inr)
  have p: "bget ms_mpie (status c1) = bget ms_mie (status c)" "bget ms_mpp (status c1) = priv_code (currentPrivMode c)"
    "bget ms_sie (status c1) = bget ms_sie (status c)"
    using take_bit_bget [of ms_mie "status c"]
    by (simp_all add: 1 bget_bput_same bget_bput_other disjoint_fields_def ms_fields)
  show ?thesis
    using assms(3-5) 1 p take_bit_bget [of ms_mie "status c"]
    by (auto simp: mret_def Let_def bget_bput_same bget_bput_other disjoint_fields_def ms_fields)
qed

lemma trap_sret:
  assumes "raiseTrap cause tval c = Inr c1" "trap_to_S cause c" "currentPrivMode c \<le> S_MODE"
    and "status c2 = status c1" "csrSExceptionPC c2 = csrSExceptionPC c1" "currentPrivMode c2 = nextPrivMode c1"
    and "\<not> bflag ms_tsr (status c)"
  shows "\<exists>c3. sret c2 = Some c3 \<and> nextPrivMode c3 = currentPrivMode c \<and>
    trapProgramCounter c3 = currentProgramCounter c \<and> bget ms_sie (status c3) = bget ms_sie (status c) \<and>
    bget ms_mie (status c3) = bget ms_mie (status c)"
proof -
  have 1: "nextPrivMode c1 = S_MODE" "csrSExceptionPC c1 = currentProgramCounter c"
    "status c1 = bput ms_spp (priv_code (currentPrivMode c))
                (bput ms_sie 0 (bput ms_spie (bget ms_sie (status c)) (status c)))"
    using assms(1,2) by (auto simp: raiseTrap_def Let_def assertR_eq_Inr sstatus_in_mstatus)
  have p: "bget ms_spie (status c1) = bget ms_sie (status c)" "bget ms_spp (status c1) = take_bit 1 (priv_code (currentPrivMode c))"
    "bget ms_mie (status c1) = bget ms_mie (status c)" "bflag ms_tsr (status c1) = bflag ms_tsr (status c)"
    using take_bit_bget [of ms_sie "status c"]
    by (simp_all add: 1 bget_bput_same bget_bput_other disjoint_fields_def ms_fields bflag_def ms_tsr_def)
  show ?thesis
    using assms(3-7) 1 p take_bit_bget [of ms_sie "status c"] spp_roundtrip [OF assms(3)]
    by (auto simp: sret_def Let_def bget_bput_same bget_bput_other disjoint_fields_def ms_fields sstatus_in_mstatus)
qed

section \<open>Interrupts\<close>

definition takes_interrupt :: "core \<Rightarrow> bool" where
  "takes_interrupt c \<longleftrightarrow>
     (let pending = csrIntPending c AND csrIntEnable c in
      if currentPrivMode c = M_MODE then bflag ms_mie (status c) \<and> pending AND NOT (csrMIntDelegation c) \<noteq> 0
      else pending \<noteq> 0 \<and>
        (pending AND csrMIntDelegation c \<noteq> 0 \<longrightarrow> currentPrivMode c < S_MODE \<or> bflag ms_sie (status c)))"

definition interrupt_bits :: "core \<Rightarrow> u64" where
  "interrupt_bits c =
     (csrIntPending c AND csrIntEnable c) AND (if currentPrivMode c = M_MODE then NOT (csrMIntDelegation c) else - 1)"

definition no_int_bits :: "u64 \<Rightarrow> bool" where
  "no_int_bits w \<longleftrightarrow> w AND int_bit int_s_sw = 0 \<and> w AND int_bit int_m_sw = 0 \<and> w AND int_bit int_s_timer = 0 \<and>
     w AND int_bit int_m_timer = 0 \<and> w AND int_bit int_s_ext = 0 \<and> w AND int_bit int_m_ext = 0"

lemma no_int_bits_mask: "no_int_bits w \<longleftrightarrow> w AND M_MODE_INT_MASK = 0"
proof -
  have d: "w AND (a OR b) = 0 \<longleftrightarrow> w AND a = 0 \<and> w AND b = 0" for a b :: u64
    by (auto simp: bit_eq_iff bit_simps)
  show ?thesis by (auto simp: M_MODE_INT_MASK_def S_MODE_INT_MASK_def d no_int_bits_def)
qed

lemma no_int_iff: "bits_to_int_type w = int_no_int \<longleftrightarrow> w AND M_MODE_INT_MASK = 0"
  unfolding no_int_bits_mask [symmetric] by (auto simp: bits_to_int_type_def no_int_bits_def)

lemma enabled_bits:
  assumes "ie AND NOT M_MODE_INT_MASK = (0 :: u64)"
  shows "bits_to_int_type ((ip AND ie) AND x) = int_no_int \<longleftrightarrow> (ip AND ie) AND x = 0"
proof -
  have "bit M_MODE_INT_MASK n" if "bit ie n" for n
  proof -
    have "\<not> bit (ie AND NOT M_MODE_INT_MASK) n" by (simp add: assms)
    with that show ?thesis by (auto simp: bit_simps dest: bit_imp_le_length)
  qed
  then have "((ip AND ie) AND x) AND M_MODE_INT_MASK = (ip AND ie) AND x"
    by (intro bit_word_eqI) (auto simp: bit_simps)
  then show ?thesis by (simp add: no_int_iff)
qed

lemma raiseTrap_int:
  assumes "\<not> needTrap c" "i \<noteq> int_no_int"
  obtains c' where "raiseTrap (int_cause i) 0 c = Inr c'" "needTrap c'"
    "currentPrivMode c' = currentPrivMode c"
    "nextPrivMode c' = (if trap_to_S (int_cause i) c then S_MODE else M_MODE)"
    "(if trap_to_S (int_cause i) c then csrSupervisorCause c' else csrMachineCause c') = int_cause i"
proof -
  have "of_nat (int_code i) \<noteq> (24 :: u64)" "of_nat (int_code i) \<noteq> (12 :: u64)"
    using assms(2) by (cases i; simp)+
  with assms(1) that show thesis by (auto simp: raiseTrap_def Let_def)
qed

lemma preExec_spec:
  assumes "core_wf c0"
  shows "returnsR (preExec c0) (\<lambda>c'. currentPrivMode c' = nextPrivMode c0 \<and>
    needTrap c' = takes_interrupt (preExec_update c0) \<and>
    (if takes_interrupt (preExec_update c0) then
       (let i = bits_to_int_type (interrupt_bits (preExec_update c0));
            toS = trap_to_S (int_cause i) (preExec_update c0) in
        i \<noteq> int_no_int \<and> nextPrivMode c' = (if toS then S_MODE else M_MODE) \<and>
        (if toS then csrSupervisorCause c' else csrMachineCause c') = int_cause i)
     else c' = preExec_update c0))"
proof -
  define c where "c = preExec_update c0"
  have ie: "csrIntEnable c AND NOT M_MODE_INT_MASK = 0" and nt: "\<not> needTrap c" and pm: "currentPrivMode c = nextPrivMode c0"
    using assms by (simp_all add: c_def preExec_update_def core_wf_def)
  note eb = enabled_bits [OF ie, of "csrIntPending c" "- 1"] enabled_bits [OF ie, of "csrIntPending c" "NOT (csrMIntDelegation c)"]
  show ?thesis
  proof (cases "takes_interrupt c")
    case True
    let ?i = "bits_to_int_type (interrupt_bits c)"
    have i: "?i \<noteq> int_no_int"
      using True eb by (auto simp: takes_interrupt_def interrupt_bits_def Let_def split: if_splits)
    obtain c' where c': "raiseTrap (int_cause ?i) 0 c = Inr c'" "needTrap c'" "currentPrivMode c' = currentPrivMode c"
      "nextPrivMode c' = (if trap_to_S (int_cause ?i) c then S_MODE else M_MODE)"
      "(if trap_to_S (int_cause ?i) c then csrSupervisorCause c' else csrMachineCause c') = int_cause ?i"
      by (rule raiseTrap_int [OF nt i])
    have "preExec c0 = raiseTrap (int_cause ?i) 0 c"
      using True eb
      by (auto simp: preExec_def c_def [symmetric] Let_def takes_interrupt_def interrupt_bits_def split: if_splits)
    then show ?thesis using c' True i pm by (simp add: c_def Let_def)
  next
    case False
    then have "preExec c0 = Inr c"
      using eb by (cases "nextPrivMode c0")
        (auto simp: preExec_def c_def [symmetric] Let_def takes_interrupt_def pm split: if_splits)
    then show ?thesis using False nt pm by (simp add: c_def)
  qed
qed

section \<open>An example core\<close>

definition example_core :: core where
  "example_core = core_reset
     \<lparr>GPR = [], csrMCycleNum = 0, csrMIntDelegation = 0, csrMExceptionDelegation = 0, csrMachineTrapVal = 0,
      csrMachineCause = 0, csrMExceptionPC = 0, csrMTrapVecBaseAddr = 0, csrMCounterEN = 0,
      csrMachineISA = 0, csrMscratch = 0, csrSupervisorTrapVal = 0, csrSupervisorCause = 0,
      csrSExceptionPC = 0, csrSTrapVecBaseAddr = 0, csrSCounterEN = 0, csrSscratch = 0, minstret = 0,
      status = 0, rvHartID = 0, satp = 0, csrIntPending = 0, csrIntEnable = 0, trapProgramCounter = 0,
      currentProgramCounter = 0x80000000, needTrap = False, currentPrivMode = U_MODE,
      nextPrivMode = U_MODE, sv39MMU = example_mmu,
      intStatus = \<lparr>meip = False, ist_msip = False, mtip = False, seip = False\<rparr>\<rparr>"

text \<open>A user program with breakpoints and all supervisor interrupts delegated.\<close>

definition example_user :: core where
  "example_user = example_core\<lparr>currentPrivMode := U_MODE, nextPrivMode := U_MODE,
     csrMExceptionDelegation := 8, csrMIntDelegation := S_MODE_INT_MASK\<rparr>"

lemma core_wf_examples: "core_wf example_core" "core_wf example_user"
proof -
  have "mmu_wf example_mmu" "\<not> lr_valid example_mmu"
    by (simp add: example_mmu_def mmu_wf_new) (simp add: example_mmu_def new_mmu_def)
  then show "core_wf example_core"
    by (simp add: core_wf_def example_core_def core_reset_def status_wf_reset) (simp add: bget_def field_defs)
  moreover have "(8 :: u64) AND NOT S_MODE_EXC_MASK = 0" "S_MODE_INT_MASK AND NOT S_MODE_INT_MASK = 0"
    by code_simp+
  ultimately show "core_wf example_user" by (simp add: core_wf_def example_user_def)
qed

text \<open>
  In supervisor mode with \<open>sie\<close> clear, a pending delegated software interrupt hides the machine
  timer interrupt, which the manual takes whatever \<open>sie\<close> says.
\<close>

lemma masked_machine_timer:
  "preExec (example_user\<lparr>nextPrivMode := S_MODE, csrIntEnable := 0x82, csrIntPending := 2,
       intStatus := (intStatus example_user)\<lparr>mtip := True\<rparr>\<rparr>) =
     Inr (preExec_update (example_user\<lparr>nextPrivMode := S_MODE, csrIntEnable := 0x82, csrIntPending := 2,
       intStatus := (intStatus example_user)\<lparr>mtip := True\<rparr>\<rparr>))"
proof -
  have "0x82 AND S_MODE_INT_MASK \<noteq> 0" by code_simp
  moreover have "bput ip_s_e_ip 0 (bput ip_m_t_ip 1 (bput ip_m_s_ip 0 (bput ip_m_e_ip 0 2))) = (0x82 :: u64)"
    by code_simp
  moreover have "\<not> bflag ms_sie (bput ms_uxl 2 (bput ms_sxl 2 0))" by code_simp
  ultimately show ?thesis
    by (simp add: preExec_def preExec_update_def example_user_def example_core_def core_reset_def Let_def)
qed

section \<open>Properties\<close>

text \<open>C9: mret undoes a trap to M-mode: if the handler keeps mstatus and mepc, it returns to the
  privilege mode and the program counter of the trapped instruction and restores the interrupt
  enables.\<close>

theorem trap_mret_roundtrip:
  assumes "raiseTrap cause tval c = Inr c1" and "\<not> trap_to_S cause c"
    and "status c2 = status c1" and "csrMExceptionPC c2 = csrMExceptionPC c1"
    and "currentPrivMode c2 = nextPrivMode c1"
  shows "\<exists>c3. mret c2 = Some c3 \<and> nextPrivMode c3 = currentPrivMode c \<and>
    trapProgramCounter c3 = currentProgramCounter c \<and> bget ms_mie (status c3) = bget ms_mie (status c) \<and>
    bget ms_sie (status c3) = bget ms_sie (status c)"
  by (rule trap_mret [OF assms])

theorem trap_mret_roundtrip_witness:
  "\<exists>c1 c3. raiseTrap (cause_of exec_illegal_instr) 0x1234 example_user = Inr c1 \<and>
     mret (c1\<lparr>currentPrivMode := nextPrivMode c1\<rparr>) = Some c3 \<and>
     nextPrivMode c3 = U_MODE \<and> trapProgramCounter c3 = 0x80000000"
proof -
  have n: "\<not> trap_to_S (cause_of exec_illegal_instr) example_user"
    by (simp add: trap_to_S_def example_user_def)
  obtain c1 where r: "raiseTrap (cause_of exec_illegal_instr) 0x1234 example_user = Inr c1"
    using n by (simp add: raiseTrap_def example_user_def example_core_def core_reset_def Let_def)
  show ?thesis
    using trap_mret_roundtrip [OF r n, of "c1\<lparr>currentPrivMode := nextPrivMode c1\<rparr>"] r
    by (auto simp: example_user_def example_core_def core_reset_def)
qed





end
