(* ===== verification/RV64_Csr.thy ===== *)
theory RV64_Csr
  imports RV64_Core
begin

unbundle bit_operations_syntax

text \<open>
  The control and status registers as instructions see them: \<open>RV_CSR_Addr_enum\<close> of
  \<open>rv64_csr_structs.h\<close> and \<open>csr_read\<close>, \<open>csr_write\<close>, \<open>csr_setbit\<close>, \<open>csr_clearbit\<close> and
  \<open>csr_op_permission_check\<close> of \<open>rv64_privilege.hpp\<close>.
\<close>

section \<open>Addresses\<close>

datatype RV_CSR_Addr_enum =
    csr_cycle | csr_time | csr_instret
  | csr_sstatus | csr_sie | csr_stvec | csr_scounteren
  | csr_sscratch | csr_sepc | csr_scause | csr_stval | csr_sip
  | csr_satp
  | csr_mvendorid | csr_marchid | csr_mimpid | csr_mhartid | csr_mconfigptr
  | csr_mstatus | csr_misa | csr_medeleg | csr_mideleg | csr_mie | csr_mtvec | csr_mcounteren
  | csr_mscratch | csr_mepc | csr_mcause | csr_mtval | csr_mip
  | csr_pmpcfg0 | csr_pmpcfg1 | csr_pmpcfg2 | csr_pmpcfg3
  | csr_pmpaddr0 | csr_pmpaddr1 | csr_pmpaddr2 | csr_pmpaddr3 | csr_pmpaddr4 | csr_pmpaddr5 | csr_pmpaddr6 | csr_pmpaddr7
  | csr_pmpaddr8 | csr_pmpaddr9 | csr_pmpaddr10 | csr_pmpaddr11 | csr_pmpaddr12 | csr_pmpaddr13 | csr_pmpaddr14 | csr_pmpaddr15
  | csr_mcycle | csr_minstret | csr_tselect | csr_tdata1

primrec csr_addr :: "RV_CSR_Addr_enum \<Rightarrow> u64" where
  "csr_addr csr_cycle = 0xc00"
| "csr_addr csr_time = 0xc01"
| "csr_addr csr_instret = 0xc02"
| "csr_addr csr_sstatus = 0x100"
| "csr_addr csr_sie = 0x104"
| "csr_addr csr_stvec = 0x105"
| "csr_addr csr_scounteren = 0x106"
| "csr_addr csr_sscratch = 0x140"
| "csr_addr csr_sepc = 0x141"
| "csr_addr csr_scause = 0x142"
| "csr_addr csr_stval = 0x143"
| "csr_addr csr_sip = 0x144"
| "csr_addr csr_satp = 0x180"
| "csr_addr csr_mvendorid = 0xf11"
| "csr_addr csr_marchid = 0xf12"
| "csr_addr csr_mimpid = 0xf13"
| "csr_addr csr_mhartid = 0xf14"
| "csr_addr csr_mconfigptr = 0xf15"
| "csr_addr csr_mstatus = 0x300"
| "csr_addr csr_misa = 0x301"
| "csr_addr csr_medeleg = 0x302"
| "csr_addr csr_mideleg = 0x303"
| "csr_addr csr_mie = 0x304"
| "csr_addr csr_mtvec = 0x305"
| "csr_addr csr_mcounteren = 0x306"
| "csr_addr csr_mscratch = 0x340"
| "csr_addr csr_mepc = 0x341"
| "csr_addr csr_mcause = 0x342"
| "csr_addr csr_mtval = 0x343"
| "csr_addr csr_mip = 0x344"
| "csr_addr csr_pmpcfg0 = 0x3a0"
| "csr_addr csr_pmpcfg1 = 0x3a1"
| "csr_addr csr_pmpcfg2 = 0x3a2"
| "csr_addr csr_pmpcfg3 = 0x3a3"
| "csr_addr csr_pmpaddr0 = 0x3b0"
| "csr_addr csr_pmpaddr1 = 0x3b1"
| "csr_addr csr_pmpaddr2 = 0x3b2"
| "csr_addr csr_pmpaddr3 = 0x3b3"
| "csr_addr csr_pmpaddr4 = 0x3b4"
| "csr_addr csr_pmpaddr5 = 0x3b5"
| "csr_addr csr_pmpaddr6 = 0x3b6"
| "csr_addr csr_pmpaddr7 = 0x3b7"
| "csr_addr csr_pmpaddr8 = 0x3b8"
| "csr_addr csr_pmpaddr9 = 0x3b9"
| "csr_addr csr_pmpaddr10 = 0x3ba"
| "csr_addr csr_pmpaddr11 = 0x3bb"
| "csr_addr csr_pmpaddr12 = 0x3bc"
| "csr_addr csr_pmpaddr13 = 0x3bd"
| "csr_addr csr_pmpaddr14 = 0x3be"
| "csr_addr csr_pmpaddr15 = 0x3bf"
| "csr_addr csr_mcycle = 0xb00"
| "csr_addr csr_minstret = 0xb02"
| "csr_addr csr_tselect = 0x7a0"
| "csr_addr csr_tdata1 = 0x7a1"

definition all_csrs :: "RV_CSR_Addr_enum list" where
  "all_csrs =
     [csr_cycle, csr_time, csr_instret, csr_sstatus, csr_sie, csr_stvec, csr_scounteren, csr_sscratch,
      csr_sepc, csr_scause, csr_stval, csr_sip, csr_satp, csr_mvendorid, csr_marchid, csr_mimpid,
      csr_mhartid, csr_mconfigptr, csr_mstatus, csr_misa, csr_medeleg, csr_mideleg, csr_mie, csr_mtvec,
      csr_mcounteren, csr_mscratch, csr_mepc, csr_mcause, csr_mtval, csr_mip, csr_mcycle, csr_minstret,
      csr_tselect, csr_tdata1,
      csr_pmpcfg0, csr_pmpcfg1, csr_pmpcfg2, csr_pmpcfg3,
      csr_pmpaddr0, csr_pmpaddr1, csr_pmpaddr2, csr_pmpaddr3, csr_pmpaddr4, csr_pmpaddr5,
      csr_pmpaddr6, csr_pmpaddr7, csr_pmpaddr8, csr_pmpaddr9, csr_pmpaddr10, csr_pmpaddr11,
      csr_pmpaddr12, csr_pmpaddr13, csr_pmpaddr14, csr_pmpaddr15]"

text \<open>The cast of a twelve-bit immediate to the enumeration; \<open>None\<close> is a value without a name.\<close>

definition csr_of :: "u64 \<Rightarrow> RV_CSR_Addr_enum option" where
  "csr_of index = find (\<lambda>c. csr_addr c = index) all_csrs"

definition csr_op_permission_check :: "u64 \<Rightarrow> bool \<Rightarrow> core \<Rightarrow> bool" where
  "csr_op_permission_check csr_index write c =
     (if drop_bit 8 csr_index AND 3 > priv_code (currentPrivMode c) then False
      else if drop_bit 10 csr_index AND 3 = 3 \<and> write then False
      else True)"

section \<open>Reading\<close>

definition copy_field :: "u64 \<Rightarrow> bitfield \<Rightarrow> u64 \<Rightarrow> u64" where
  "copy_field src f dst = bput f (bget f src) dst"

definition sstatus_view :: "u64 \<Rightarrow> u64" where
  "sstatus_view mstatus =
     fold (copy_field mstatus)
       [ss_sie, ss_spie, ss_ube, ss_spp, ss_vs, ss_fs, ss_xs, ss_sum, ss_mxr, ss_uxl, ss_sd] 0"

definition csr_read :: "RV_CSR_Addr_enum option \<Rightarrow> core \<Rightarrow> u64 option" where
  "csr_read csr_index c =
     (case csr_index of None \<Rightarrow> None | Some i \<Rightarrow> (case i of
        csr_mvendorid \<Rightarrow> Some 0
      | csr_marchid \<Rightarrow> Some 0
      | csr_mimpid \<Rightarrow> Some 0
      | csr_mhartid \<Rightarrow> Some (rvHartID c)
      | csr_mconfigptr \<Rightarrow> Some 0
      | csr_mstatus \<Rightarrow> Some (status c)
      | csr_misa \<Rightarrow> Some (csrMachineISA c)
      | csr_medeleg \<Rightarrow> Some (csrMExceptionDelegation c)
      | csr_mideleg \<Rightarrow> Some (csrMIntDelegation c)
      | csr_mie \<Rightarrow> Some (csrIntEnable c)
      | csr_mtvec \<Rightarrow> Some (csrMTrapVecBaseAddr c)
      | csr_mcounteren \<Rightarrow> Some (csrMCounterEN c)
      | csr_mscratch \<Rightarrow> Some (csrMscratch c)
      | csr_mepc \<Rightarrow> Some (csrMExceptionPC c)
      | csr_mcause \<Rightarrow> Some (csrMachineCause c)
      | csr_mtval \<Rightarrow> Some (csrMachineTrapVal c)
      | csr_mip \<Rightarrow> Some (csrIntPending c)
      | csr_mcycle \<Rightarrow> Some (csrMCycleNum c)
      | csr_minstret \<Rightarrow> Some (minstret c)
      | csr_sstatus \<Rightarrow> Some (sstatus_view (status c))
      | csr_sie \<Rightarrow> Some (csrIntEnable c AND S_MODE_INT_MASK)
      | csr_stvec \<Rightarrow> Some (csrSTrapVecBaseAddr c)
      | csr_scounteren \<Rightarrow> Some (csrSCounterEN c)
      | csr_sscratch \<Rightarrow> Some (csrSscratch c)
      | csr_sepc \<Rightarrow> Some (csrSExceptionPC c)
      | csr_scause \<Rightarrow> Some (csrSupervisorCause c)
      | csr_stval \<Rightarrow> Some (csrSupervisorTrapVal c)
      | csr_sip \<Rightarrow> Some (csrIntPending c AND S_MODE_INT_MASK)
      | csr_satp \<Rightarrow>
          if currentPrivMode c = S_MODE \<and> bflag ms_tvm (status c) then None else Some (satp c)
      | csr_cycle \<Rightarrow>
          if currentPrivMode c \<le> S_MODE \<and> (\<not> bflag cen_cycle (csrMCounterEN c) \<or> \<not> bflag cen_cycle (csrSCounterEN c))
          then None else Some (csrMCycleNum c)
      | csr_tselect \<Rightarrow> Some 1
      | csr_tdata1 \<Rightarrow> Some 0
      | _ \<Rightarrow> None))"

section \<open>Writing\<close>

definition mstatus_write :: "u64 \<Rightarrow> u64 \<Rightarrow> u64 res" where
  "mstatus_write csr_data mstatus =
     (let s = fold (copy_field csr_data) [ms_sie, ms_mie, ms_spie, ms_mpie] mstatus in
      assertR (bget ms_spie s \<noteq> 2)
     (assertR (bget ms_mpie s \<noteq> 2)
       (Inr (fold (copy_field csr_data) [ms_spp, ms_mpp, ms_mprv, ms_sum, ms_mxr, ms_tvm, ms_tw, ms_tsr] s))))"

definition sstatus_write :: "u64 \<Rightarrow> u64 \<Rightarrow> u64 res" where
  "sstatus_write csr_data mstatus =
     (let s = fold (copy_field csr_data) [ss_sie, ss_spie] mstatus in
      assertR (bget ss_spie s \<noteq> 2)
        (Inr (fold (copy_field csr_data) [ss_spp, ss_sum, ss_mxr] s)))"

text \<open>\<open>Inr None\<close> is the result \<open>false\<close>, which leaves the core unchanged.\<close>

definition csr_write :: "RV_CSR_Addr_enum option \<Rightarrow> u64 \<Rightarrow> core \<Rightarrow> core option res" where
  "csr_write csr_index csr_data c =
     (case csr_index of None \<Rightarrow> Inr None | Some i \<Rightarrow> (case i of
        csr_mstatus \<Rightarrow> bindR (mstatus_write csr_data (status c)) (\<lambda>s. Inr (Some (c\<lparr>status := s\<rparr>)))
      | csr_misa \<Rightarrow> Inr (Some c)
      | csr_medeleg \<Rightarrow> Inr (Some (c\<lparr>csrMExceptionDelegation := csr_data AND S_MODE_EXC_MASK\<rparr>))
      | csr_mideleg \<Rightarrow> Inr (Some (c\<lparr>csrMIntDelegation := csr_data AND S_MODE_INT_MASK\<rparr>))
      | csr_mie \<Rightarrow> Inr (Some (c\<lparr>csrIntEnable := csr_data AND M_MODE_INT_MASK\<rparr>))
      | csr_mtvec \<Rightarrow>
          assertR (bget tv_mode csr_data \<le> 1) (Inr (Some (c\<lparr>csrMTrapVecBaseAddr := csr_data\<rparr>)))
      | csr_mcounteren \<Rightarrow> Inr (Some (c\<lparr>csrMCounterEN := csr_data AND COUNTER_MASK\<rparr>))
      | csr_mscratch \<Rightarrow> Inr (Some (c\<lparr>csrMscratch := csr_data\<rparr>))
      | csr_mepc \<Rightarrow> Inr (Some (c\<lparr>csrMExceptionPC := csr_data\<rparr>))
      | csr_mcause \<Rightarrow> Inr (Some (c\<lparr>csrMachineCause := csr_data\<rparr>))
      | csr_mtval \<Rightarrow> Inr (Some (c\<lparr>csrMachineTrapVal := csr_data\<rparr>))
      | csr_mip \<Rightarrow> Inr (Some (c\<lparr>csrIntPending := csr_data AND M_MODE_INT_MASK\<rparr>))
      | csr_mcycle \<Rightarrow> Inr (Some (c\<lparr>csrMCycleNum := csr_data\<rparr>))
      | csr_sstatus \<Rightarrow> bindR (sstatus_write csr_data (status c)) (\<lambda>s. Inr (Some (c\<lparr>status := s\<rparr>)))
      | csr_sie \<Rightarrow>
          Inr (Some (c\<lparr>csrIntEnable :=
            (csrIntEnable c AND NOT S_MODE_INT_MASK) OR (csr_data AND S_MODE_INT_MASK)\<rparr>))
      | csr_stvec \<Rightarrow>
          Inr (Some (c\<lparr>csrSTrapVecBaseAddr :=
            (if bget tv_mode csr_data > 1 then bput tv_mode 0 csr_data else csr_data)\<rparr>))
      | csr_scounteren \<Rightarrow> Inr (Some (c\<lparr>csrSCounterEN := csr_data AND COUNTER_MASK\<rparr>))
      | csr_sscratch \<Rightarrow> Inr (Some (c\<lparr>csrSscratch := csr_data\<rparr>))
      | csr_sepc \<Rightarrow> Inr (Some (c\<lparr>csrSExceptionPC := csr_data\<rparr>))
      | csr_scause \<Rightarrow> Inr (Some (c\<lparr>csrSupervisorCause := csr_data\<rparr>))
      | csr_stval \<Rightarrow> Inr (Some (c\<lparr>csrSupervisorTrapVal := csr_data\<rparr>))
      | csr_sip \<Rightarrow>
          Inr (Some (c\<lparr>csrIntPending :=
            (csrIntPending c AND NOT S_MODE_INT_MASK) OR (csr_data AND S_MODE_INT_MASK)\<rparr>))
      | csr_satp \<Rightarrow>
          if currentPrivMode c = S_MODE \<and> bflag ms_tvm (status c) then Inr None
          else Inr (Some (c\<lparr>satp :=
            (if bget satp_mode csr_data \<noteq> 0 \<and> bget satp_mode csr_data \<noteq> 8
             then bput satp_mode 0 csr_data else csr_data)\<rparr>))
      | csr_tselect \<Rightarrow> Inr (Some c)
      | csr_tdata1 \<Rightarrow> Inr (Some c)
      | _ \<Rightarrow> Inr None))"

definition csr_setbit :: "RV_CSR_Addr_enum option \<Rightarrow> u64 \<Rightarrow> core \<Rightarrow> core option res" where
  "csr_setbit csr_index csr_mask c =
     (case csr_read csr_index c of None \<Rightarrow> Inr None
      | Some tmp \<Rightarrow> csr_write csr_index (tmp OR csr_mask) c)"

definition csr_clearbit :: "RV_CSR_Addr_enum option \<Rightarrow> u64 \<Rightarrow> core \<Rightarrow> core option res" where
  "csr_clearbit csr_index csr_mask c =
     (case csr_read csr_index c of None \<Rightarrow> Inr None
      | Some tmp \<Rightarrow> csr_write csr_index (tmp AND NOT csr_mask) c)"

section \<open>Lemmas\<close>

lemma csr_of_addr: "csr_of (csr_addr c) = Some c"
  by (cases c) (simp_all add: csr_of_def all_csrs_def)

section \<open>Writes by mask\<close>

primrec fields_mask :: "bitfield list \<Rightarrow> u64" where
  "fields_mask [] = 0"
| "fields_mask (f # fs) = push_bit (fst f) (mask (snd f)) OR fields_mask fs"

definition merge :: "u64 \<Rightarrow> u64 \<Rightarrow> u64 \<Rightarrow> u64" where
  "merge m d s = (s AND NOT m) OR (d AND m)"

lemma copy_field_merge: "copy_field d f s = merge (push_bit (fst f) (mask (snd f))) d s"
  by (rule bit_word_eqI) (auto simp: copy_field_def merge_def bit_bput bit_bget bit_simps)

lemma merge_merge: "merge m d (merge n d s) = merge (n OR m) d s"
  unfolding merge_def by (rule bit_word_eqI) (auto simp: bit_simps)

lemma fold_copy_field: "fold (copy_field d) fs s = merge (fields_mask fs) d s"
proof (induction fs arbitrary: s)
  case Nil
  then show ?case by (simp add: merge_def)
next
  case (Cons f fs)
  then show ?case by (simp add: copy_field_merge merge_merge)
qed

definition SSTATUS_VIEW :: u64 where "SSTATUS_VIEW = 0x80000003000DE762"
definition SSTATUS_WRITABLE :: u64 where "SSTATUS_WRITABLE = 0xC0122"

lemma sstatus_view_mask: "sstatus_view s = s AND SSTATUS_VIEW"
proof -
  have m: "fields_mask [ss_sie, ss_spie, ss_ube, ss_spp, ss_vs, ss_fs, ss_xs, ss_sum, ss_mxr, ss_uxl, ss_sd] = SSTATUS_VIEW"
    by code_simp
  show ?thesis unfolding sstatus_view_def fold_copy_field m merge_def by simp
qed

lemma one_bit_not_2: "snd f = 1 \<Longrightarrow> bget f (s :: u64) \<noteq> 2"
proof
  assume "snd f = 1" "bget f s = 2"
  then have "take_bit 1 (drop_bit (fst f) s) = 2" by (simp add: bget_def)
  then have "bit (take_bit 1 (drop_bit (fst f) s)) 1" by simp
  then show False by (simp add: bit_simps)
qed

lemma mstatus_write_merge: "mstatus_write d s = Inr (merge MSTATUS_WRITABLE d s)"
proof -
  have "fields_mask [ms_sie, ms_mie, ms_spie, ms_mpie] OR
      fields_mask [ms_spp, ms_mpp, ms_mprv, ms_sum, ms_mxr, ms_tvm, ms_tw, ms_tsr] = MSTATUS_WRITABLE"
    by code_simp
  then show ?thesis
    by (simp only: mstatus_write_def fold_copy_field merge_merge Let_def) (simp add: one_bit_not_2 ms_spie_def ms_mpie_def)
qed

lemma sstatus_write_merge: "sstatus_write d s = Inr (merge SSTATUS_WRITABLE d s)"
proof -
  have "fields_mask [ss_sie, ss_spie] OR fields_mask [ss_spp, ss_sum, ss_mxr] = SSTATUS_WRITABLE"
    by code_simp
  then show ?thesis
    by (simp only: sstatus_write_def fold_copy_field merge_merge Let_def) (simp add: one_bit_not_2 ss_spie_def)
qed

text \<open>The bits a write to a register may change, and the value it is legalised to.\<close>

fun csr_wmask :: "RV_CSR_Addr_enum \<Rightarrow> u64" where
  "csr_wmask csr_mstatus = MSTATUS_WRITABLE"
| "csr_wmask csr_sstatus = SSTATUS_WRITABLE"
| "csr_wmask csr_medeleg = S_MODE_EXC_MASK"
| "csr_wmask csr_mideleg = S_MODE_INT_MASK"
| "csr_wmask csr_mie = M_MODE_INT_MASK"
| "csr_wmask csr_mip = M_MODE_INT_MASK"
| "csr_wmask csr_sie = S_MODE_INT_MASK"
| "csr_wmask csr_sip = S_MODE_INT_MASK"
| "csr_wmask csr_mcounteren = COUNTER_MASK"
| "csr_wmask csr_scounteren = COUNTER_MASK"
| "csr_wmask csr_misa = 0"
| "csr_wmask csr_tselect = 0"
| "csr_wmask csr_tdata1 = 0"
| "csr_wmask _ = - 1"

fun csr_legal :: "RV_CSR_Addr_enum \<Rightarrow> u64 \<Rightarrow> u64" where
  "csr_legal csr_stvec d = (if bget tv_mode d > 1 then bput tv_mode 0 d else d)"
| "csr_legal csr_satp d = (if bget satp_mode d \<noteq> 0 \<and> bget satp_mode d \<noteq> 8 then bput satp_mode 0 d else d)"
| "csr_legal _ d = d"

lemma merge_all [simp]: "merge (- 1) d s = d" "merge 0 d s = s"
  by (simp_all add: merge_def)

lemma merge_zero: "s AND NOT m = 0 \<Longrightarrow> merge m d s = d AND m"
  by (simp add: merge_def)

lemma merge_view: "m AND v = m \<Longrightarrow> merge m d s AND v = merge m d (s AND v)"
proof -
  assume "m AND v = m"
  then have "bit m n \<Longrightarrow> bit v n" for n by (metis bit_and_iff)
  then show ?thesis unfolding merge_def by (intro bit_word_eqI) (auto simp: bit_simps)
qed

lemma csr_write_read_spec:
  assumes wf: "core_wf c" and w: "csr_write (Some i) d c = Inr (Some c')" and r: "csr_read (Some i) c = Some v"
  shows "csr_read (Some i) c' = Some (merge (csr_wmask i) (csr_legal i d) v)"
proof -
  have sv: "SSTATUS_WRITABLE AND SSTATUS_VIEW = SSTATUS_WRITABLE" by code_simp
  have sm: "(w AND NOT S_MODE_INT_MASK OR d AND S_MODE_INT_MASK) AND S_MODE_INT_MASK = merge S_MODE_INT_MASK d (w AND S_MODE_INT_MASK)" for w
    unfolding merge_def by (rule bit_word_eqI) (auto simp: bit_simps)
  show ?thesis
    using wf w r
    by (cases i; clarsimp simp: csr_write_def csr_read_def mstatus_write_merge sstatus_write_merge sstatus_view_mask
        merge_view [OF sv] sm core_wf_def merge_zero assertR_eq_Inr split: if_splits)
qed

lemma core_wf_csr_write:
  assumes wf: "core_wf c"
  shows "holdsR (csr_write i d c) (\<lambda>r. \<forall>c'. r = Some c' \<longrightarrow> core_wf c')"
proof -
  have st: "status_wf (merge MSTATUS_WRITABLE d s) = status_wf s" for s
    unfolding status_wf_def merge_def by (rule arg_cong [where f = "\<lambda>x. x = _"], rule bit_word_eqI) (auto simp: bit_simps)
  have "SSTATUS_WRITABLE AND MSTATUS_WRITABLE = SSTATUS_WRITABLE" by code_simp
  then have sub: "bit SSTATUS_WRITABLE n \<Longrightarrow> bit MSTATUS_WRITABLE n" for n by (metis bit_and_iff)
  have ss: "status_wf (merge SSTATUS_WRITABLE d s) = status_wf s" for s
    unfolding status_wf_def merge_def
    by (rule arg_cong [where f = "\<lambda>x. x = _"], rule bit_word_eqI) (use sub in \<open>auto simp: bit_simps\<close>)
  have am: "(d AND m) AND NOT m = 0" for m by (rule bit_word_eqI) (simp add: bit_simps)
  have "S_MODE_INT_MASK AND M_MODE_INT_MASK = S_MODE_INT_MASK" by code_simp
  then have sub2: "bit S_MODE_INT_MASK n \<Longrightarrow> bit M_MODE_INT_MASK n" for n by (metis bit_and_iff)
  have mm: "(w AND NOT S_MODE_INT_MASK OR d AND S_MODE_INT_MASK) AND NOT M_MODE_INT_MASK = 0" if "w AND NOT M_MODE_INT_MASK = 0" for w
  proof (rule bit_word_eqI)
    fix n
    assume "n < LENGTH(64)"
    have "\<not> bit (w AND NOT M_MODE_INT_MASK) n" by (simp add: that)
    then show "bit ((w AND NOT S_MODE_INT_MASK OR d AND S_MODE_INT_MASK) AND NOT M_MODE_INT_MASK) n = bit 0 n"
      using sub2 [of n] \<open>n < LENGTH(64)\<close> by (auto simp: bit_simps)
  qed
  have z: "bget tv_mode (bput tv_mode 0 d) = 0" "bget satp_mode (bput satp_mode 0 d) = 0"
    by (simp_all add: bget_bput_same field_defs)
  show ?thesis
  proof (cases i)
    case None
    then show ?thesis by (simp add: csr_write_def)
  next
    case (Some j)
    show ?thesis
      using wf unfolding Some
      by (cases j; clarsimp simp: csr_write_def mstatus_write_merge sstatus_write_merge core_wf_def st ss am mm z not_less)
  qed
qed

section \<open>Properties\<close>

text \<open>C12: Reading a CSR after a successful write gives the old value with exactly the writable bits
  replaced by the legalised data, for every implemented CSR.\<close>

theorem csr_write_then_read:
  assumes "core_wf c" and "csr_write (Some i) d c = Inr (Some c')" and "csr_read (Some i) c = Some v"
  shows "csr_read (Some i) c' = Some (merge (csr_wmask i) (csr_legal i d) v)"
  by (rule csr_write_read_spec [OF assms])

theorem csr_write_then_read_witness:
  "csr_read (Some csr_satp) (example_core\<lparr>satp := bput satp_mode 0 0x3000000000080000\<rparr>) =
     Some (merge (- 1) (bput satp_mode 0 0x3000000000080000) 0)"
proof -
  have m: "bget satp_mode 0x3000000000080000 \<noteq> (0 :: u64)" "bget satp_mode 0x3000000000080000 \<noteq> (8 :: u64)"
    by code_simp+
  have "csr_write (Some csr_satp) 0x3000000000080000 example_core =
      Inr (Some (example_core\<lparr>satp := bput satp_mode 0 0x3000000000080000\<rparr>))"
    using m by (simp add: csr_write_def example_core_def core_reset_def)
  moreover have "csr_read (Some csr_satp) example_core = Some 0"
    by (simp add: csr_read_def example_core_def core_reset_def)
  ultimately show ?thesis
    using csr_write_then_read [OF core_wf_examples(1)] m by fastforce
qed

text \<open>C13: No CSR write breaks the core invariant: reserved fields stay as they are, delegation and
  enable registers stay within their masks, the translation mode stays Bare or Sv39.\<close>

theorem csr_write_keeps_core_wf:
  assumes "core_wf c"
  shows "holdsR (csr_write i d c) (\<lambda>r. \<forall>c'. r = Some c' \<longrightarrow> core_wf c')"
  by (rule core_wf_csr_write [OF assms])

theorem csr_write_keeps_core_wf_witness:
  "core_wf (example_core\<lparr>csrMExceptionDelegation := (- 1) AND S_MODE_EXC_MASK\<rparr>)"
  using csr_write_keeps_core_wf [OF core_wf_examples(1), of "Some csr_medeleg" "- 1"]
  by (simp add: csr_write_def)

text \<open>sstatus is a view of mstatus: reading it masks mstatus, writing it changes only the
  supervisor fields, and those are among the fields an mstatus write can change.\<close>

theorem sstatus_is_a_view_of_mstatus:
  "csr_read (Some csr_sstatus) c = Some (status c AND SSTATUS_VIEW) \<and>
   csr_write (Some csr_sstatus) d c = Inr (Some (c\<lparr>status := merge SSTATUS_WRITABLE d (status c)\<rparr>)) \<and>
   csr_write (Some csr_mstatus) d c = Inr (Some (c\<lparr>status := merge MSTATUS_WRITABLE d (status c)\<rparr>)) \<and>
   SSTATUS_WRITABLE AND MSTATUS_WRITABLE AND SSTATUS_VIEW = SSTATUS_WRITABLE"
proof -
  have "SSTATUS_WRITABLE AND MSTATUS_WRITABLE AND SSTATUS_VIEW = SSTATUS_WRITABLE" by code_simp
  then show ?thesis
    by (simp add: csr_read_def csr_write_def sstatus_view_mask sstatus_write_merge mstatus_write_merge)
qed

end
