(* ===== verification/RV64_Inst.thy ===== *)
theory RV64_Inst
  imports RV64_Structs
begin

unbundle bit_operations_syntax

text \<open>
  The instruction encodings of \<open>modules/core/rv64/include/rv64_inst.h\<close>: the enumerations of opcodes
  and function codes with the values of their constants, the fields of the formats and the
  immediates of the union \<open>RVInst_t\<close>.
\<close>

section \<open>Opcodes and function codes\<close>

datatype RV64I_OpCode_enum =
    OPCODE_LUI | OPCODE_AUIPC | OPCODE_JAL | OPCODE_JALR | OPCODE_BRANCH | OPCODE_LOAD
   | OPCODE_STORE | OPCODE_OPIMM | OPCODE_OPIMM32 | OPCODE_OP | OPCODE_OP32 | OPCODE_FENCE
   | OPCODE_SYSTEM | OPCODE_AMO

primrec RV64I_OpCode_val :: "RV64I_OpCode_enum \<Rightarrow> u32" where
    "RV64I_OpCode_val OPCODE_LUI = 0b0110111"
  | "RV64I_OpCode_val OPCODE_AUIPC = 0b0010111"
  | "RV64I_OpCode_val OPCODE_JAL = 0b1101111"
  | "RV64I_OpCode_val OPCODE_JALR = 0b1100111"
  | "RV64I_OpCode_val OPCODE_BRANCH = 0b1100011"
  | "RV64I_OpCode_val OPCODE_LOAD = 0b0000011"
  | "RV64I_OpCode_val OPCODE_STORE = 0b0100011"
  | "RV64I_OpCode_val OPCODE_OPIMM = 0b0010011"
  | "RV64I_OpCode_val OPCODE_OPIMM32 = 0b0011011"
  | "RV64I_OpCode_val OPCODE_OP = 0b0110011"
  | "RV64I_OpCode_val OPCODE_OP32 = 0b0111011"
  | "RV64I_OpCode_val OPCODE_FENCE = 0b0001111"
  | "RV64I_OpCode_val OPCODE_SYSTEM = 0b1110011"
  | "RV64I_OpCode_val OPCODE_AMO = 0b0101111"

datatype RV64C_OpCode_enum =
    OPCODE_C_ADDI4SPN | OPCODE_C_LW | OPCODE_C_LD | OPCODE_C_SW | OPCODE_C_SD | OPCODE_C_ADDI
   | OPCODE_C_ADDIW | OPCODE_C_LI | OPCODE_C_ADDI16SPN_LUI | OPCODE_C_ALU | OPCODE_C_J
   | OPCODE_C_BEQZ | OPCODE_C_BNEZ | OPCODE_C_SLLI | OPCODE_C_LWSP | OPCODE_C_LDSP
   | OPCODE_C_JR_MV_EB_JALR_ADD | OPCODE_C_SWSP | OPCODE_C_SDSP

primrec RV64C_OpCode_val :: "RV64C_OpCode_enum \<Rightarrow> u32" where
    "RV64C_OpCode_val OPCODE_C_ADDI4SPN = 0b00000"
  | "RV64C_OpCode_val OPCODE_C_LW = 0b00010"
  | "RV64C_OpCode_val OPCODE_C_LD = 0b00011"
  | "RV64C_OpCode_val OPCODE_C_SW = 0b00110"
  | "RV64C_OpCode_val OPCODE_C_SD = 0b00111"
  | "RV64C_OpCode_val OPCODE_C_ADDI = 0b01000"
  | "RV64C_OpCode_val OPCODE_C_ADDIW = 0b01001"
  | "RV64C_OpCode_val OPCODE_C_LI = 0b01010"
  | "RV64C_OpCode_val OPCODE_C_ADDI16SPN_LUI = 0b01011"
  | "RV64C_OpCode_val OPCODE_C_ALU = 0b01100"
  | "RV64C_OpCode_val OPCODE_C_J = 0b01101"
  | "RV64C_OpCode_val OPCODE_C_BEQZ = 0b01110"
  | "RV64C_OpCode_val OPCODE_C_BNEZ = 0b01111"
  | "RV64C_OpCode_val OPCODE_C_SLLI = 0b10000"
  | "RV64C_OpCode_val OPCODE_C_LWSP = 0b10010"
  | "RV64C_OpCode_val OPCODE_C_LDSP = 0b10011"
  | "RV64C_OpCode_val OPCODE_C_JR_MV_EB_JALR_ADD = 0b10100"
  | "RV64C_OpCode_val OPCODE_C_SWSP = 0b10110"
  | "RV64C_OpCode_val OPCODE_C_SDSP = 0b10111"

datatype RV64C_Funct2_enum =
    FUNCT2_SUB | FUNCT2_XOR_ADDW | FUNCT2_OR | FUNCT2_AND

primrec RV64C_Funct2_val :: "RV64C_Funct2_enum \<Rightarrow> u32" where
    "RV64C_Funct2_val FUNCT2_SUB = 0b00"
  | "RV64C_Funct2_val FUNCT2_XOR_ADDW = 0b01"
  | "RV64C_Funct2_val FUNCT2_OR = 0b10"
  | "RV64C_Funct2_val FUNCT2_AND = 0b11"

datatype Funct3_Branch_enum =
    FUNCT3_BEQ | FUNCT3_BNE | FUNCT3_BLT | FUNCT3_BGE | FUNCT3_BLTU | FUNCT3_BGEU

primrec Funct3_Branch_val :: "Funct3_Branch_enum \<Rightarrow> u32" where
    "Funct3_Branch_val FUNCT3_BEQ = 0b000"
  | "Funct3_Branch_val FUNCT3_BNE = 0b001"
  | "Funct3_Branch_val FUNCT3_BLT = 0b100"
  | "Funct3_Branch_val FUNCT3_BGE = 0b101"
  | "Funct3_Branch_val FUNCT3_BLTU = 0b110"
  | "Funct3_Branch_val FUNCT3_BGEU = 0b111"

datatype Funct3_Load_enum =
    FUNCT3_LB | FUNCT3_LH | FUNCT3_LW | FUNCT3_LD | FUNCT3_LBU | FUNCT3_LHU | FUNCT3_LWU

primrec Funct3_Load_val :: "Funct3_Load_enum \<Rightarrow> u32" where
    "Funct3_Load_val FUNCT3_LB = 0b000"
  | "Funct3_Load_val FUNCT3_LH = 0b001"
  | "Funct3_Load_val FUNCT3_LW = 0b010"
  | "Funct3_Load_val FUNCT3_LD = 0b011"
  | "Funct3_Load_val FUNCT3_LBU = 0b100"
  | "Funct3_Load_val FUNCT3_LHU = 0b101"
  | "Funct3_Load_val FUNCT3_LWU = 0b110"

datatype Funct3_Store_enum =
    FUNCT3_SB | FUNCT3_SH | FUNCT3_SW | FUNCT3_SD

primrec Funct3_Store_val :: "Funct3_Store_enum \<Rightarrow> u32" where
    "Funct3_Store_val FUNCT3_SB = 0b000"
  | "Funct3_Store_val FUNCT3_SH = 0b001"
  | "Funct3_Store_val FUNCT3_SW = 0b010"
  | "Funct3_Store_val FUNCT3_SD = 0b011"

datatype Funct3_Op_enum =
    FUNCT3_ADD_SUB | FUNCT3_SLL | FUNCT3_SLT | FUNCT3_SLTU | FUNCT3_XOR | FUNCT3_SRL_SRA
   | FUNCT3_OR | FUNCT3_AND

primrec Funct3_Op_val :: "Funct3_Op_enum \<Rightarrow> u32" where
    "Funct3_Op_val FUNCT3_ADD_SUB = 0b000"
  | "Funct3_Op_val FUNCT3_SLL = 0b001"
  | "Funct3_Op_val FUNCT3_SLT = 0b010"
  | "Funct3_Op_val FUNCT3_SLTU = 0b011"
  | "Funct3_Op_val FUNCT3_XOR = 0b100"
  | "Funct3_Op_val FUNCT3_SRL_SRA = 0b101"
  | "Funct3_Op_val FUNCT3_OR = 0b110"
  | "Funct3_Op_val FUNCT3_AND = 0b111"

datatype Funct3_M_enum =
    FUNCT3_MUL | FUNCT3_MULH | FUNCT3_MULHSU | FUNCT3_MULHU | FUNCT3_DIV | FUNCT3_DIVU
   | FUNCT3_REM | FUNCT3_REMU

primrec Funct3_M_val :: "Funct3_M_enum \<Rightarrow> u32" where
    "Funct3_M_val FUNCT3_MUL = 0b000"
  | "Funct3_M_val FUNCT3_MULH = 0b001"
  | "Funct3_M_val FUNCT3_MULHSU = 0b010"
  | "Funct3_M_val FUNCT3_MULHU = 0b011"
  | "Funct3_M_val FUNCT3_DIV = 0b100"
  | "Funct3_M_val FUNCT3_DIVU = 0b101"
  | "Funct3_M_val FUNCT3_REM = 0b110"
  | "Funct3_M_val FUNCT3_REMU = 0b111"

datatype Funct3_System_enum =
    FUNCT3_PRIV | FUNCT3_CSRRW | FUNCT3_CSRRS | FUNCT3_CSRRC | FUNCT3_HLSV | FUNCT3_CSRRWI
   | FUNCT3_CSRRSI | FUNCT3_CSRRCI

primrec Funct3_System_val :: "Funct3_System_enum \<Rightarrow> u32" where
    "Funct3_System_val FUNCT3_PRIV = 0b000"
  | "Funct3_System_val FUNCT3_CSRRW = 0b001"
  | "Funct3_System_val FUNCT3_CSRRS = 0b010"
  | "Funct3_System_val FUNCT3_CSRRC = 0b011"
  | "Funct3_System_val FUNCT3_HLSV = 0b100"
  | "Funct3_System_val FUNCT3_CSRRWI = 0b101"
  | "Funct3_System_val FUNCT3_CSRRSI = 0b110"
  | "Funct3_System_val FUNCT3_CSRRCI = 0b111"

datatype Funct7_Priv_enum =
    FUNCT7_ECALL_EBREAK | FUNCT7_SRET_WFI | FUNCT7_MRET | FUNCT7_SFENCE_VMA

primrec Funct7_Priv_val :: "Funct7_Priv_enum \<Rightarrow> u64" where
    "Funct7_Priv_val FUNCT7_ECALL_EBREAK = 0b0000000"
  | "Funct7_Priv_val FUNCT7_SRET_WFI = 0b0001000"
  | "Funct7_Priv_val FUNCT7_MRET = 0b0011000"
  | "Funct7_Priv_val FUNCT7_SFENCE_VMA = 0b0001001"

datatype Funct7_Op_enum =
    FUNCT7_NORMAL | FUNCT7_SUB_SRA | FUNCT7_MUL

primrec Funct7_Op_val :: "Funct7_Op_enum \<Rightarrow> u32" where
    "Funct7_Op_val FUNCT7_NORMAL = 0b0000000"
  | "Funct7_Op_val FUNCT7_SUB_SRA = 0b0100000"
  | "Funct7_Op_val FUNCT7_MUL = 0b0000001"

datatype Funct6_Op_enum =
    FUNCT6_NORMAL | FUNCT6_SRA

primrec Funct6_Op_val :: "Funct6_Op_enum \<Rightarrow> u32" where
    "Funct6_Op_val FUNCT6_NORMAL = 0b000000"
  | "Funct6_Op_val FUNCT6_SRA = 0b010000"

section \<open>Instruction fields\<close>

definition f_opcode :: bitfield where [field_defs]: "f_opcode = (0, 7)"
definition f_rd :: bitfield where [field_defs]: "f_rd = (7, 5)"
definition f_funct3 :: bitfield where [field_defs]: "f_funct3 = (12, 3)"
definition f_rs1 :: bitfield where [field_defs]: "f_rs1 = (15, 5)"
definition f_rs2 :: bitfield where [field_defs]: "f_rs2 = (20, 5)"
definition f_funct7 :: bitfield where [field_defs]: "f_funct7 = (25, 7)"

text \<open>A register number.\<close>

definition reg :: "bitfield \<Rightarrow> u32 \<Rightarrow> nat" where
  "reg f inst = unat (bget f inst)"

text \<open>Immediates. A signed bit-field is sign-extended from its width.\<close>

definition imm_i :: "u32 \<Rightarrow> u64" where
  "imm_i inst = scast (ucast (bget (20, 12) inst) :: 12 word)"

definition imm_s :: "u32 \<Rightarrow> u64" where
  "imm_s inst = scast
     (push_bit 5 (scast (ucast (bget (25, 7) inst) :: 7 word) :: u32) OR bget (7, 5) inst)"

definition imm_b :: "u32 \<Rightarrow> u64" where
  "imm_b inst = scast
     (push_bit 12 (scast (ucast (bget (31, 1) inst) :: 1 word) :: u32) OR push_bit 11 (bget (7, 1) inst) OR
      push_bit 5 (bget (25, 6) inst) OR push_bit 1 (bget (8, 4) inst))"

definition imm_u :: "u32 \<Rightarrow> u64" where
  "imm_u inst = push_bit 12 (scast (ucast (bget (12, 20) inst) :: 20 word))"

definition imm_j :: "u32 \<Rightarrow> u64" where
  "imm_j inst = scast
     (push_bit 20 (scast (ucast (bget (31, 1) inst) :: 1 word) :: u32) OR push_bit 12 (bget (12, 8) inst) OR
      push_bit 11 (bget (20, 1) inst) OR push_bit 1 (bget (21, 10) inst))"

section \<open>Encoding and reading immediates\<close>

lemma imm_i_enc: "imm_i (bput (20, 12) (ucast (imm :: 12 word)) w) = scast imm"
proof -
  have "(ucast (bget (20, 12) (bput (20, 12) (ucast imm) w)) :: 12 word) = imm"
    by (rule bit_word_eqI) (auto simp: bit_simps bit_bget bit_bput)
  then show ?thesis by (simp add: imm_i_def)
qed

lemma imm_u_enc: "imm_u (bput (12, 20) (ucast (imm :: 20 word)) w) = push_bit 12 (scast imm)"
proof -
  have "(ucast (bget (12, 20) (bput (12, 20) (ucast imm) w)) :: 20 word) = imm"
    by (rule bit_word_eqI) (auto simp: bit_simps bit_bget bit_bput)
  then show ?thesis by (simp add: imm_u_def)
qed

lemma imm_s_enc:
  "imm_s (bput (25, 7) (ucast (drop_bit 5 imm)) (bput (7, 5) (ucast (imm :: 12 word)) w)) = scast imm"
proof -
  let ?i = "bput (25, 7) (ucast (drop_bit 5 imm)) (bput (7, 5) (ucast imm) w) :: u32"
  have "(ucast (bget (25, 7) ?i) :: 7 word) = ucast (drop_bit 5 imm)"
    by (rule bit_word_eqI) (auto simp: bit_simps bit_bget bit_bput)
  moreover have "bget (7, 5) ?i = ucast (take_bit 5 imm)"
    by (rule bit_word_eqI) (auto simp: bit_simps bit_bget bit_bput)
  moreover have "push_bit 5 (scast (ucast (drop_bit 5 imm) :: 7 word) :: u32) OR ucast (take_bit 5 imm) = scast imm"
    by (rule bit_word_eqI) (auto simp: bit_simps min_def)
  moreover have "(scast (scast imm :: u32) :: u64) = scast imm"
    by (rule bit_word_eqI) (auto simp: bit_simps min_def)
  ultimately show ?thesis by (simp add: imm_s_def)
qed


definition enc_B :: "13 word \<Rightarrow> u32 \<Rightarrow> u32" where
  "enc_B imm w = bput (31, 1) (ucast (drop_bit 12 imm)) (bput (25, 6) (ucast (drop_bit 5 imm))
     (bput (8, 4) (ucast (drop_bit 1 imm)) (bput (7, 1) (ucast (drop_bit 11 imm)) w)))"

definition enc_J :: "21 word \<Rightarrow> u32 \<Rightarrow> u32" where
  "enc_J imm w = bput (31, 1) (ucast (drop_bit 20 imm)) (bput (21, 10) (ucast (drop_bit 1 imm))
     (bput (20, 1) (ucast (drop_bit 11 imm)) (bput (12, 8) (ucast (drop_bit 12 imm)) w)))"

lemma u32_eq_bits:
  "bit v 31 = bit w 31 \<and> bit v 30 = bit w 30 \<and> bit v 29 = bit w 29 \<and> bit v 28
     = bit w 28 \<and> bit v 27 = bit w 27 \<and> bit v 26 = bit w 26 \<and> bit v 25 = bit w
     25 \<and> bit v 24 = bit w 24 \<and> bit v 23 = bit w 23 \<and> bit v 22 = bit w 22 \<and>
     bit v 21 = bit w 21 \<and> bit v 20 = bit w 20 \<and> bit v 19 = bit w 19 \<and> bit v 18
     = bit w 18 \<and> bit v 17 = bit w 17 \<and> bit v 16 = bit w 16 \<and> bit v 15 = bit w
     15 \<and> bit v 14 = bit w 14 \<and> bit v 13 = bit w 13 \<and> bit v 12 = bit w 12 \<and>
     bit v 11 = bit w 11 \<and> bit v 10 = bit w 10 \<and> bit v 9 = bit w 9 \<and> bit v 8 =
     bit w 8 \<and> bit v 7 = bit w 7 \<and> bit v 6 = bit w 6 \<and> bit v 5 = bit w 5 \<and>
     bit v 4 = bit w 4 \<and> bit v 3 = bit w 3 \<and> bit v 2 = bit w 2 \<and> bit v (Suc 0) =
     bit w (Suc 0) \<and> bit v 0 = bit w 0 \<Longrightarrow>
   v = (w :: u32)"
  by (rule bit_word_eqI) (auto simp: less_Suc_eq numeral_eq_Suc)

lemma bit_times2: "bit (x * 2 :: 'a::len word) n \<longleftrightarrow> 0 < n \<and> n < LENGTH('a) \<and> bit x (n - 1)"
  by (cases n) (simp_all add: mult.commute [of x] bit_simps)

lemma imm_b_enc: "imm_b (enc_B imm w) = scast imm AND NOT 1"
proof -
  have "(push_bit 12 (scast (ucast (bget (31, 1) (enc_B imm w)) :: 1 word) :: u32) OR push_bit 11 (bget (7, 1) (enc_B imm w)) OR
      push_bit 5 (bget (25, 6) (enc_B imm w)) OR push_bit 1 (bget (8, 4) (enc_B imm w))) = (scast imm AND NOT 1)"
    by (rule u32_eq_bits, intro conjI)
      (simp_all add: bit_simps bit_bget bit_bput enc_B_def min_def bit_times2,
        simp_all add: numeral_2_eq_2 numeral_3_eq_3)
  moreover have "(scast (scast imm AND NOT 1 :: u32) :: u64) = scast imm AND NOT 1"
    by (rule bit_word_eqI) (auto simp: bit_simps min_def)
  ultimately show ?thesis by (simp add: imm_b_def)
qed

lemma imm_j_enc: "imm_j (enc_J imm w) = scast imm AND NOT 1"
proof -
  have "(push_bit 20 (scast (ucast (bget (31, 1) (enc_J imm w)) :: 1 word) :: u32) OR push_bit 12 (bget (12, 8) (enc_J imm w)) OR
      push_bit 11 (bget (20, 1) (enc_J imm w)) OR push_bit 1 (bget (21, 10) (enc_J imm w))) = (scast imm AND NOT 1)"
    by (rule u32_eq_bits, intro conjI)
      (simp_all add: bit_simps bit_bget bit_bput enc_J_def min_def bit_times2,
        simp_all add: numeral_2_eq_2 numeral_3_eq_3)
  moreover have "(scast (scast imm AND NOT 1 :: u32) :: u64) = scast imm AND NOT 1"
    by (rule bit_word_eqI) (auto simp: bit_simps min_def)
  ultimately show ?thesis by (simp add: imm_j_def)
qed


text \<open>C33: The immediate readers of the I, S, B, U and J formats return the sign-extended immediate
  that the encoding of the manual put there, and the encodings leave the opcode alone.\<close>

theorem immediates_roundtrip:
  "imm_i (bput (20, 12) (ucast i) w) = scast (i :: 12 word) \<and>
   imm_s (bput (25, 7) (ucast (drop_bit 5 i)) (bput (7, 5) (ucast i) w)) = scast i \<and>
   imm_b (enc_B k w) = scast k AND NOT 1 \<and>
   imm_u (bput (12, 20) (ucast u) w) = push_bit 12 (scast (u :: 20 word)) \<and>
   imm_j (enc_J j w) = scast j AND NOT 1 \<and>
   bget f_opcode (bput (20, 12) (ucast i) w) = bget f_opcode w \<and> bget f_opcode (enc_B k w) = bget f_opcode w \<and>
   bget f_opcode (enc_J j w) = bget f_opcode w"
  by (simp add: imm_i_enc imm_s_enc imm_b_enc imm_u_enc imm_j_enc)
    (simp add: enc_B_def enc_J_def f_opcode_def bget_bput_other disjoint_fields_def)

end
