(* ===== verification/RV64_Exec.thy ===== *)
theory RV64_Exec
  imports RV64_Csr RV64_Inst
begin

unbundle bit_operations_syntax

text \<open>
  The 32-bit instructions of \<open>Step_CoreAPI\<close> (\<open>modules/core/rv64/src/rv64_exec.cpp\<close>): one
  definition per case of the opcode switch.
\<close>

section \<open>The state of a step\<close>

text \<open>The core, the bus and two of the locals of \<open>Step_CoreAPI\<close>.\<close>

record 'b xstate =
  xc :: core
  xb :: 'b
  is_new_pc_set :: bool
  is_instr_illegal :: bool

definition set_rd :: "nat \<Rightarrow> u64 \<Rightarrow> 'b xstate \<Rightarrow> 'b xstate res" where
  "set_rd i v x = bindR (setGPR i v (xc x)) (\<lambda>c. Inr (x\<lparr>xc := c\<rparr>))"

definition raise_x :: "u64 \<Rightarrow> u64 \<Rightarrow> 'b xstate \<Rightarrow> 'b xstate res" where
  "raise_x cause tval x = bindR (raiseTrap cause tval (xc x)) (\<lambda>c. Inr (x\<lparr>xc := c\<rparr>))"

definition set_pc :: "u64 \<Rightarrow> 'b xstate \<Rightarrow> 'b xstate" where
  "set_pc npc x = x\<lparr>xc := (xc x)\<lparr>currentProgramCounter := npc\<rparr>, is_new_pc_set := True\<rparr>"

definition illegal :: "'b xstate \<Rightarrow> 'b xstate res" where
  "illegal x = Inr (x\<lparr>is_instr_illegal := True\<rparr>)"

abbreviation xgpr :: "'b xstate \<Rightarrow> nat \<Rightarrow> u64" where
  "xgpr x i \<equiv> gpr (xc x) i"

abbreviation xpc :: "'b xstate \<Rightarrow> u64" where
  "xpc x \<equiv> currentProgramCounter (xc x)"

section \<open>Memory accesses of the core\<close>

definition load_fault :: "VAddr_RW_Feedback \<Rightarrow> RV64_ExecFeedbackCode_e" where
  "load_fault va_err =
     (if va_err = VADDR_ACCESS_FAULT then exec_load_acc_fault
      else if va_err = VADDR_MIS_ALIGN then exec_load_misalign
      else if va_err = VADDR_PAGE_FAULT then exec_load_pgfault else exec_ok)"

definition store_fault :: "VAddr_RW_Feedback \<Rightarrow> RV64_ExecFeedbackCode_e" where
  "store_fault va_err =
     (if va_err = VADDR_ACCESS_FAULT then exec_store_acc_fault
      else if va_err = VADDR_MIS_ALIGN then exec_store_misalign
      else if va_err = VADDR_PAGE_FAULT then exec_store_pgfault else exec_ok)"

definition memRead :: "'b bus_ops \<Rightarrow> u64 \<Rightarrow> u64 \<Rightarrow> 'b xstate \<Rightarrow> (bool \<times> u8 list option \<times> 'b xstate) res" where
  "memRead bus start_addr sz x =
     (if start_addr mod sz \<noteq> 0 then
        bindR (raise_x (cause_of exec_load_misalign) start_addr x) (\<lambda>x1. Inr (False, None, x1))
      else
        bindR (VAddr_ReadBuffer_MMU_API bus (core_env (xc x)) (sv39MMU (xc x)) (xb x) start_addr sz)
          (\<lambda>(va_err, buffer, m1, b1).
        let x1 = x\<lparr>xc := (xc x)\<lparr>sv39MMU := m1\<rparr>, xb := b1\<rparr> in
        if va_err = VADDR_ACCESS_OK then Inr (True, buffer, x1)
        else
          let feedback = load_fault va_err in
          assertR (feedback \<noteq> exec_ok)
            (bindR (raise_x (cause_of feedback) start_addr x1) (\<lambda>x2. Inr (False, None, x2)))))"

definition memWrite :: "'b bus_ops \<Rightarrow> u64 \<Rightarrow> u8 list \<Rightarrow> 'b xstate \<Rightarrow> 'b xstate res" where
  "memWrite bus start_addr buffer x =
     (if start_addr mod of_nat (length buffer) \<noteq> 0 then raise_x (cause_of exec_store_misalign) start_addr x
      else
        bindR (VAddr_WriteBuffer_MMU_API bus (core_env (xc x)) (sv39MMU (xc x)) (xb x) start_addr buffer)
          (\<lambda>(va_err, m1, b1).
        let x1 = x\<lparr>xc := (xc x)\<lparr>sv39MMU := m1\<rparr>, xb := b1\<rparr> in
        if va_err = VADDR_ACCESS_OK then Inr x1
        else
          let feedback = store_fault va_err in
          assertR (feedback \<noteq> exec_ok) (raise_x (cause_of feedback) start_addr x1)))"

text \<open>A load into a local of \<open>sz\<close> bytes, converted by \<open>conv\<close> if the access succeeds.\<close>

definition load_to :: "'b bus_ops \<Rightarrow> u64 \<Rightarrow> u64 \<Rightarrow> (u8 list \<Rightarrow> u64) \<Rightarrow> nat \<Rightarrow> 'b xstate \<Rightarrow> 'b xstate res" where
  "load_to bus mem_addr sz conv rd x =
     bindR (memRead bus mem_addr sz x) (\<lambda>(ok, buf, x1).
     if ok then bindR (initialised buf) (\<lambda>bs. set_rd rd (conv bs) x1) else Inr x1)"

definition conv_s8 :: "u8 list \<Rightarrow> u64" where "conv_s8 bs = scast (of_bytes bs :: u8)"
definition conv_s16 :: "u8 list \<Rightarrow> u64" where "conv_s16 bs = scast (of_bytes bs :: u16)"
definition conv_s32 :: "u8 list \<Rightarrow> u64" where "conv_s32 bs = scast (of_bytes bs :: u32)"
definition conv_64 :: "u8 list \<Rightarrow> u64" where "conv_64 bs = of_bytes bs"
definition conv_u8 :: "u8 list \<Rightarrow> u64" where "conv_u8 bs = ucast (of_bytes bs :: u8)"
definition conv_u16 :: "u8 list \<Rightarrow> u64" where "conv_u16 bs = ucast (of_bytes bs :: u16)"
definition conv_u32 :: "u8 list \<Rightarrow> u64" where "conv_u32 bs = ucast (of_bytes bs :: u32)"

section \<open>Integer instructions\<close>

definition exec_LUI :: "u32 \<Rightarrow> 'b xstate \<Rightarrow> 'b xstate res" where
  "exec_LUI inst x = set_rd (reg f_rd inst) (imm_u inst) x"

definition exec_AUIPC :: "u32 \<Rightarrow> 'b xstate \<Rightarrow> 'b xstate res" where
  "exec_AUIPC inst x = set_rd (reg f_rd inst) (imm_u inst + xpc x) x"

definition exec_JAL :: "u32 \<Rightarrow> 'b xstate \<Rightarrow> 'b xstate res" where
  "exec_JAL inst x =
     (let npc = xpc x + imm_j inst in
      if npc mod PC_ALIGN \<noteq> 0 then raise_x (cause_of exec_instr_misalign) npc x
      else bindR (set_rd (reg f_rd inst) (xpc x + 4) x) (\<lambda>x1. Inr (set_pc npc x1)))"

definition exec_JALR :: "u32 \<Rightarrow> 'b xstate \<Rightarrow> 'b xstate res" where
  "exec_JALR inst x =
     (let npc = xgpr x (reg f_rs1 inst) + (imm_i inst AND NOT 1);
          tmp0 = imm_i inst;
          tmp = (if tmp0 AND 1 \<noteq> 0 then tmp0 XOR 1 else tmp0)
      in
      assertR (npc = xgpr x (reg f_rs1 inst) + tmp)
      (if npc mod PC_ALIGN \<noteq> 0 then raise_x (cause_of exec_instr_misalign) npc x
       else bindR (set_rd (reg f_rd inst) (xpc x + 4) x) (\<lambda>x1. Inr (set_pc npc x1))))"

text \<open>The condition of a branch; \<open>None\<close> is the default case.\<close>

definition branch_cond :: "u32 \<Rightarrow> u64 \<Rightarrow> u64 \<Rightarrow> bool option" where
  "branch_cond funct3 a b =
     (if funct3 = Funct3_Branch_val FUNCT3_BEQ then Some (a = b)
      else if funct3 = Funct3_Branch_val FUNCT3_BNE then Some (a \<noteq> b)
      else if funct3 = Funct3_Branch_val FUNCT3_BLT then Some (sint a < sint b)
      else if funct3 = Funct3_Branch_val FUNCT3_BGE then Some (sint a \<ge> sint b)
      else if funct3 = Funct3_Branch_val FUNCT3_BLTU then Some (a < b)
      else if funct3 = Funct3_Branch_val FUNCT3_BGEU then Some (a \<ge> b)
      else None)"

definition exec_BRANCH :: "u32 \<Rightarrow> 'b xstate \<Rightarrow> 'b xstate res" where
  "exec_BRANCH inst x =
     (let offset = imm_b inst in
      case branch_cond (bget f_funct3 inst) (xgpr x (reg f_rs1 inst)) (xgpr x (reg f_rs2 inst)) of
        None \<Rightarrow> illegal x
      | Some False \<Rightarrow> Inr x
      | Some True \<Rightarrow>
          let npc = xpc x + offset; x1 = x\<lparr>is_new_pc_set := True\<rparr> in
          if npc mod PC_ALIGN \<noteq> 0 then raise_x (cause_of exec_instr_misalign) npc x1
          else Inr (set_pc npc x1))"

definition exec_LOAD :: "'b bus_ops \<Rightarrow> u32 \<Rightarrow> 'b xstate \<Rightarrow> 'b xstate res" where
  "exec_LOAD bus inst x =
     (let mem_addr = xgpr x (reg f_rs1 inst) + imm_i inst; rd = reg f_rd inst; funct3 = bget f_funct3 inst in
      if funct3 = Funct3_Load_val FUNCT3_LB then load_to bus mem_addr 1 conv_s8 rd x
      else if funct3 = Funct3_Load_val FUNCT3_LH then load_to bus mem_addr 2 conv_s16 rd x
      else if funct3 = Funct3_Load_val FUNCT3_LW then load_to bus mem_addr 4 conv_s32 rd x
      else if funct3 = Funct3_Load_val FUNCT3_LD then load_to bus mem_addr 8 conv_64 rd x
      else if funct3 = Funct3_Load_val FUNCT3_LBU then load_to bus mem_addr 1 conv_u8 rd x
      else if funct3 = Funct3_Load_val FUNCT3_LHU then load_to bus mem_addr 2 conv_u16 rd x
      else if funct3 = Funct3_Load_val FUNCT3_LWU then load_to bus mem_addr 4 conv_u32 rd x
      else illegal x)"

definition exec_STORE :: "'b bus_ops \<Rightarrow> u32 \<Rightarrow> 'b xstate \<Rightarrow> 'b xstate res" where
  "exec_STORE bus inst x =
     (let mem_addr = xgpr x (reg f_rs1 inst) + imm_s inst; val = xgpr x (reg f_rs2 inst);
          funct3 = bget f_funct3 inst in
      if funct3 = Funct3_Store_val FUNCT3_SB then memWrite bus mem_addr (to_bytes 1 val) x
      else if funct3 = Funct3_Store_val FUNCT3_SH then memWrite bus mem_addr (to_bytes 2 val) x
      else if funct3 = Funct3_Store_val FUNCT3_SW then memWrite bus mem_addr (to_bytes 4 val) x
      else if funct3 = Funct3_Store_val FUNCT3_SD then memWrite bus mem_addr (to_bytes 8 val) x
      else illegal x)"

text \<open>The operation and the adjusted immediate; \<open>None\<close> sets \<open>is_instr_illegal\<close>.\<close>

definition opimm_decode :: "u32 \<Rightarrow> (ALU_Op_enum \<times> u64) option" where
  "opimm_decode inst =
     (let imm = imm_i inst; fun6 = drop_bit 1 (bget f_funct7 inst); funct3 = bget f_funct3 inst in
      if funct3 = Funct3_Op_val FUNCT3_ADD_SUB then Some (ALU_ADD, imm)
      else if funct3 = Funct3_Op_val FUNCT3_SLT then Some (ALU_SLT, imm)
      else if funct3 = Funct3_Op_val FUNCT3_SLTU then Some (ALU_SLTU, imm)
      else if funct3 = Funct3_Op_val FUNCT3_XOR then Some (ALU_XOR, imm)
      else if funct3 = Funct3_Op_val FUNCT3_OR then Some (ALU_OR, imm)
      else if funct3 = Funct3_Op_val FUNCT3_AND then Some (ALU_AND, imm)
      else if funct3 = Funct3_Op_val FUNCT3_SLL then (if sint imm \<ge> 64 then None else Some (ALU_SLL, imm))
      else
        (if fun6 \<noteq> Funct6_Op_val FUNCT6_NORMAL \<and> fun6 \<noteq> Funct6_Op_val FUNCT6_SRA then None
         else Some (if fun6 = Funct6_Op_val FUNCT6_SRA then ALU_SRA else ALU_SRL, imm AND 0x3f)))"

definition alu_to :: "nat \<Rightarrow> u64 \<Rightarrow> u64 \<Rightarrow> ALU_Op_enum \<Rightarrow> bool \<Rightarrow> 'b xstate \<Rightarrow> 'b xstate res" where
  "alu_to rd a b op op_32 x = bindR (alu_exec a b op op_32) (\<lambda>result. set_rd rd result x)"

definition exec_OPIMM :: "u32 \<Rightarrow> 'b xstate \<Rightarrow> 'b xstate res" where
  "exec_OPIMM inst x =
     (case opimm_decode inst of
        None \<Rightarrow> illegal x
      | Some (op, imm) \<Rightarrow> alu_to (reg f_rd inst) (xgpr x (reg f_rs1 inst)) imm op False x)"

definition opimm32_decode :: "u32 \<Rightarrow> (ALU_Op_enum \<times> u64) option" where
  "opimm32_decode inst =
     (let imm = imm_i inst; fun7 = bget f_funct7 inst; funct3 = bget f_funct3 inst in
      if funct3 = Funct3_Op_val FUNCT3_ADD_SUB then Some (ALU_ADD, imm)
      else if funct3 = Funct3_Op_val FUNCT3_SLL then
        (if sint imm \<ge> 64 \<or> fun7 \<noteq> Funct7_Op_val FUNCT7_NORMAL then None else Some (ALU_SLL, imm))
      else if funct3 = Funct3_Op_val FUNCT3_SRL_SRA then
        (if fun7 \<noteq> Funct7_Op_val FUNCT7_NORMAL \<and> fun7 \<noteq> Funct7_Op_val FUNCT7_SUB_SRA then None
         else Some (if fun7 = Funct7_Op_val FUNCT7_SUB_SRA then ALU_SRA else ALU_SRL, imm AND 0x3f))
      else None)"

definition exec_OPIMM32 :: "u32 \<Rightarrow> 'b xstate \<Rightarrow> 'b xstate res" where
  "exec_OPIMM32 inst x =
     (case opimm32_decode inst of
        None \<Rightarrow> illegal x
      | Some (op, imm) \<Rightarrow> alu_to (reg f_rd inst) (xgpr x (reg f_rs1 inst)) imm op True x)"

definition op_decode :: "u32 \<Rightarrow> u32 \<Rightarrow> ALU_Op_enum option" where
  "op_decode funct7 funct3 =
     (if funct7 = Funct7_Op_val FUNCT7_NORMAL then
        (if funct3 = Funct3_Op_val FUNCT3_ADD_SUB then Some ALU_ADD
         else if funct3 = Funct3_Op_val FUNCT3_SLL then Some ALU_SLL
         else if funct3 = Funct3_Op_val FUNCT3_SLT then Some ALU_SLT
         else if funct3 = Funct3_Op_val FUNCT3_SLTU then Some ALU_SLTU
         else if funct3 = Funct3_Op_val FUNCT3_XOR then Some ALU_XOR
         else if funct3 = Funct3_Op_val FUNCT3_SRL_SRA then Some ALU_SRL
         else if funct3 = Funct3_Op_val FUNCT3_OR then Some ALU_OR
         else Some ALU_AND)
      else if funct7 = Funct7_Op_val FUNCT7_SUB_SRA then
        (if funct3 = Funct3_Op_val FUNCT3_ADD_SUB then Some ALU_SUB
         else if funct3 = Funct3_Op_val FUNCT3_SRL_SRA then Some ALU_SRA
         else None)
      else if funct7 = Funct7_Op_val FUNCT7_MUL then
        (if funct3 = Funct3_M_val FUNCT3_MUL then Some ALU_MUL
         else if funct3 = Funct3_M_val FUNCT3_MULH then Some ALU_MULH
         else if funct3 = Funct3_M_val FUNCT3_MULHSU then Some ALU_MULHSU
         else if funct3 = Funct3_M_val FUNCT3_MULHU then Some ALU_MULHU
         else if funct3 = Funct3_M_val FUNCT3_DIV then Some ALU_DIV
         else if funct3 = Funct3_M_val FUNCT3_DIVU then Some ALU_DIVU
         else if funct3 = Funct3_M_val FUNCT3_REM then Some ALU_REM
         else Some ALU_REMU)
      else None)"

definition exec_OP :: "u32 \<Rightarrow> 'b xstate \<Rightarrow> 'b xstate res" where
  "exec_OP inst x =
     (case op_decode (bget f_funct7 inst) (bget f_funct3 inst) of
        None \<Rightarrow> illegal x
      | Some op \<Rightarrow>
          alu_to (reg f_rd inst) (xgpr x (reg f_rs1 inst)) (xgpr x (reg f_rs2 inst)) op False x)"

definition op32_decode :: "u32 \<Rightarrow> u32 \<Rightarrow> ALU_Op_enum option" where
  "op32_decode funct7 funct3 =
     (if funct7 = Funct7_Op_val FUNCT7_NORMAL then
        (if funct3 = Funct3_Op_val FUNCT3_ADD_SUB then Some ALU_ADD
         else if funct3 = Funct3_Op_val FUNCT3_SLL then Some ALU_SLL
         else if funct3 = Funct3_Op_val FUNCT3_SRL_SRA then Some ALU_SRL
         else None)
      else if funct7 = Funct7_Op_val FUNCT7_SUB_SRA then
        (if funct3 = Funct3_Op_val FUNCT3_ADD_SUB then Some ALU_SUB
         else if funct3 = Funct3_Op_val FUNCT3_SRL_SRA then Some ALU_SRA
         else None)
      else if funct7 = Funct7_Op_val FUNCT7_MUL then
        (if funct3 = Funct3_M_val FUNCT3_MUL then Some ALU_MUL
         else if funct3 = Funct3_M_val FUNCT3_DIV then Some ALU_DIV
         else if funct3 = Funct3_M_val FUNCT3_DIVU then Some ALU_DIVU
         else if funct3 = Funct3_M_val FUNCT3_REM then Some ALU_REM
         else if funct3 = Funct3_M_val FUNCT3_REMU then Some ALU_REMU
         else None)
      else None)"

definition exec_OP32 :: "u32 \<Rightarrow> 'b xstate \<Rightarrow> 'b xstate res" where
  "exec_OP32 inst x =
     (case op32_decode (bget f_funct7 inst) (bget f_funct3 inst) of
        None \<Rightarrow> illegal x
      | Some op \<Rightarrow>
          alu_to (reg f_rd inst) (xgpr x (reg f_rs1 inst)) (xgpr x (reg f_rs2 inst)) op True x)"

section \<open>Atomic instructions\<close>

definition exec_AMO :: "'b bus_ops \<Rightarrow> u32 \<Rightarrow> 'b xstate \<Rightarrow> 'b xstate res" where
  "exec_AMO bus inst x =
     (let funct5 = drop_bit 2 (bget f_funct7 inst); funct3 = bget f_funct3 inst;
          rd = reg f_rd inst; addr = xgpr x (reg f_rs1 inst); src = xgpr x (reg f_rs2 inst);
          sz = push_bit (unat funct3) (1 :: u64); c = xc x
      in
      if funct3 \<noteq> 2 \<and> funct3 \<noteq> 3 then illegal x
      else case amo_of funct5 of
        None \<Rightarrow> illegal x
      | Some AMOLR \<Rightarrow>
          if reg f_rs2 inst \<noteq> 0 then illegal x
          else
            bindR (vaddrLoadReserved bus (core_env c) (sv39MMU c) (xb x) addr sz) (\<lambda>(exc, result, m1, b1).
            let x1 = x\<lparr>xc := c\<lparr>sv39MMU := m1\<rparr>, xb := b1\<rparr> in
            if exc = exec_ok then
              bindR (initialised result) (\<lambda>bs. set_rd rd (if funct3 = 3 then conv_64 bs else conv_s32 bs) x1)
            else raise_x (cause_of exc) addr x1)
      | Some AMOSC \<Rightarrow>
          bindR (vaddrStoreConditional bus (core_env c) (sv39MMU c) (xb x) addr (to_bytes (unat sz) src))
            (\<lambda>(exc, result, m1, b1).
          let x1 = x\<lparr>xc := c\<lparr>sv39MMU := m1\<rparr>, xb := b1\<rparr> in
          if exc = exec_ok then bindR (initialised result) (\<lambda>r. set_rd rd (of_bool r) x1)
          else raise_x (cause_of exc) addr x1)
      | Some op \<Rightarrow>
          bindR (vaddrAtomicMemOperation bus (core_env c) (sv39MMU c) (xb x) addr sz op src)
            (\<lambda>(exc, result, m1, b1).
          let x1 = x\<lparr>xc := c\<lparr>sv39MMU := m1\<rparr>, xb := b1\<rparr> in
          if exc = exec_ok then bindR (initialised result) (\<lambda>r. set_rd rd r x1)
          else raise_x (cause_of exc) addr x1))"

section \<open>System instructions\<close>

text \<open>Taking a new core or raising the illegal-instruction flag.\<close>

definition or_illegal :: "core option \<Rightarrow> 'b xstate \<Rightarrow> 'b xstate res" where
  "or_illegal r x = (case r of None \<Rightarrow> illegal x | Some c \<Rightarrow> Inr (x\<lparr>xc := c\<rparr>))"

definition exec_PRIV :: "u32 \<Rightarrow> 'b xstate \<Rightarrow> 'b xstate res" where
  "exec_PRIV inst x =
     (let funct7 = drop_bit 5 (imm_i inst AND 0xfff); rs2 = imm_i inst AND 0x1f;
          plain = (reg f_rs1 inst = 0 \<and> reg f_rd inst = 0)
      in
      if funct7 = Funct7_Priv_val FUNCT7_ECALL_EBREAK then
        (if plain then
           (if rs2 = 0 then bindR (ecall (xc x)) (\<lambda>c. Inr (x\<lparr>xc := c\<rparr>))
            else if rs2 = 1 then bindR (ebreak (xc x)) (\<lambda>c. Inr (x\<lparr>xc := c\<rparr>))
            else illegal x)
         else illegal x)
      else if funct7 = Funct7_Priv_val FUNCT7_SRET_WFI then
        (if plain then
           (if rs2 = 2 then or_illegal (sret (xc x)) x
            else if rs2 = 5 then Inr x
            else illegal x)
         else Inr x)
      else if funct7 = Funct7_Priv_val FUNCT7_MRET then
        (if rs2 = 2 \<and> plain then or_illegal (mret (xc x)) x else illegal x)
      else if funct7 = Funct7_Priv_val FUNCT7_SFENCE_VMA then
        or_illegal (sfence_vma (xgpr x (reg f_rs1 inst)) (xgpr x (reg f_rs2 inst) AND 0xffff) (xc x)) x
      else illegal x)"

text \<open>
  The common shape of the six CSR instructions: whether the permission check is for a write,
  whether the write is performed, and the value written as a function of the old one.
\<close>

definition exec_csr :: "u32 \<Rightarrow> bool \<Rightarrow> bool \<Rightarrow> (u64 \<Rightarrow> u64) \<Rightarrow> 'b xstate \<Rightarrow> 'b xstate res" where
  "exec_csr inst check_write do_write new x =
     (let csr_index = imm_i inst AND 0xfff; csr = csr_of csr_index; rd = reg f_rd inst in
      if \<not> csr_op_permission_check csr_index check_write (xc x) then illegal x
      else case csr_read csr (xc x) of
        None \<Rightarrow> illegal x
      | Some csr_result \<Rightarrow>
          bindR (if do_write then csr_write csr (new csr_result) (xc x) else Inr (Some (xc x))) (\<lambda>r.
          case r of
            None \<Rightarrow> illegal x
          | Some c \<Rightarrow>
              if rd \<noteq> 0 then set_rd rd csr_result (x\<lparr>xc := c\<rparr>) else Inr (x\<lparr>xc := c\<rparr>)))"

definition exec_CSRRW :: "u32 \<Rightarrow> 'b xstate \<Rightarrow> 'b xstate res" where
  "exec_CSRRW inst x = exec_csr inst True True (\<lambda>_. xgpr x (reg f_rs1 inst)) x"

definition exec_CSRRS :: "u32 \<Rightarrow> 'b xstate \<Rightarrow> 'b xstate res" where
  "exec_CSRRS inst x =
     (let w = (reg f_rs1 inst \<noteq> 0) in exec_csr inst w w (\<lambda>t. t OR xgpr x (reg f_rs1 inst)) x)"

definition exec_CSRRC :: "u32 \<Rightarrow> 'b xstate \<Rightarrow> 'b xstate res" where
  "exec_CSRRC inst x =
     (let w = (reg f_rs1 inst \<noteq> 0) in exec_csr inst w w (\<lambda>t. t AND NOT (xgpr x (reg f_rs1 inst))) x)"

definition exec_CSRRWI :: "u32 \<Rightarrow> 'b xstate \<Rightarrow> 'b xstate res" where
  "exec_CSRRWI inst x = exec_csr inst True True (\<lambda>_. ucast (bget f_rs1 inst)) x"

definition exec_CSRRSI :: "u32 \<Rightarrow> 'b xstate \<Rightarrow> 'b xstate res" where
  "exec_CSRRSI inst x =
     (let w = (reg f_rs1 inst \<noteq> 0) in exec_csr inst w w (\<lambda>t. t OR ucast (bget f_rs1 inst)) x)"

definition exec_CSRRCI :: "u32 \<Rightarrow> 'b xstate \<Rightarrow> 'b xstate res" where
  "exec_CSRRCI inst x =
     (let w = (reg f_rs1 inst \<noteq> 0) in exec_csr inst w w (\<lambda>t. t AND NOT (ucast (bget f_rs1 inst))) x)"

definition exec_SYSTEM :: "u32 \<Rightarrow> 'b xstate \<Rightarrow> 'b xstate res" where
  "exec_SYSTEM inst x =
     (let funct3 = bget f_funct3 inst in
      if funct3 = Funct3_System_val FUNCT3_PRIV then exec_PRIV inst x
      else if funct3 = Funct3_System_val FUNCT3_CSRRW then exec_CSRRW inst x
      else if funct3 = Funct3_System_val FUNCT3_CSRRS then exec_CSRRS inst x
      else if funct3 = Funct3_System_val FUNCT3_CSRRC then exec_CSRRC inst x
      else if funct3 = Funct3_System_val FUNCT3_CSRRWI then exec_CSRRWI inst x
      else if funct3 = Funct3_System_val FUNCT3_CSRRSI then exec_CSRRSI inst x
      else if funct3 = Funct3_System_val FUNCT3_CSRRCI then exec_CSRRCI inst x
      else illegal x)"

section \<open>The opcode switch\<close>

definition exec_32 :: "'b bus_ops \<Rightarrow> u32 \<Rightarrow> 'b xstate \<Rightarrow> 'b xstate res" where
  "exec_32 bus inst x =
     (let opcode = bget f_opcode inst in
      if opcode = RV64I_OpCode_val OPCODE_LUI then exec_LUI inst x
      else if opcode = RV64I_OpCode_val OPCODE_AUIPC then exec_AUIPC inst x
      else if opcode = RV64I_OpCode_val OPCODE_JAL then exec_JAL inst x
      else if opcode = RV64I_OpCode_val OPCODE_JALR then exec_JALR inst x
      else if opcode = RV64I_OpCode_val OPCODE_BRANCH then exec_BRANCH inst x
      else if opcode = RV64I_OpCode_val OPCODE_LOAD then exec_LOAD bus inst x
      else if opcode = RV64I_OpCode_val OPCODE_STORE then exec_STORE bus inst x
      else if opcode = RV64I_OpCode_val OPCODE_OPIMM then exec_OPIMM inst x
      else if opcode = RV64I_OpCode_val OPCODE_OPIMM32 then exec_OPIMM32 inst x
      else if opcode = RV64I_OpCode_val OPCODE_OP then exec_OP inst x
      else if opcode = RV64I_OpCode_val OPCODE_OP32 then exec_OP32 inst x
      else if opcode = RV64I_OpCode_val OPCODE_AMO then exec_AMO bus inst x
      else if opcode = RV64I_OpCode_val OPCODE_FENCE then Inr x
      else if opcode = RV64I_OpCode_val OPCODE_SYSTEM then exec_SYSTEM inst x
      else illegal x)"

end
