(* ===== verification/RV64_Exec_C.thy ===== *)
theory RV64_Exec_C
  imports RV64_Exec
begin

unbundle bit_operations_syntax

text \<open>
  The compressed instructions of \<open>Step_CoreAPI\<close>: the second half of the instruction switch of
  \<open>modules/core/rv64/src/rv64_exec.cpp\<close>. The register number \<open>8 + \<dots>\<close> of a three-bit field is \<open>creg\<close>.
\<close>

section \<open>Fields\<close>

text \<open>The macro \<open>binary_concat(value, r, l, shift)\<close>.\<close>

definition binary_concat :: "u32 \<Rightarrow> nat \<Rightarrow> nat \<Rightarrow> nat \<Rightarrow> u32" where
  "binary_concat v r l shift = push_bit shift (drop_bit l v AND mask (r - l + 1))"

definition rreg :: "u32 \<Rightarrow> nat \<Rightarrow> nat \<Rightarrow> nat" where
  "rreg inst r l = unat (binary_concat inst r l 0)"

definition creg :: "u32 \<Rightarrow> nat \<Rightarrow> nat \<Rightarrow> nat" where
  "creg inst r l = 8 + unat (binary_concat inst r l 0)"

text \<open>\<open>if (imm >> n) imm |= ext\<close> on a 64-bit local.\<close>

definition sext_from :: "nat \<Rightarrow> u64 \<Rightarrow> u64 \<Rightarrow> u64" where
  "sext_from n ext imm = (if signed_drop_bit n imm \<noteq> 0 then imm OR ext else imm)"

definition c_imm6 :: "u32 \<Rightarrow> u64" where
  "c_imm6 inst = ucast (binary_concat inst 12 12 5 OR binary_concat inst 6 2 0)"

definition c_simm6 :: "u32 \<Rightarrow> u64" where
  "c_simm6 inst = sext_from 5 0xffffffffffffffc0 (c_imm6 inst)"

definition c_imm_lw :: "u32 \<Rightarrow> u64" where
  "c_imm_lw inst = ucast (binary_concat inst 6 6 2 OR binary_concat inst 5 5 6 OR binary_concat inst 12 10 3)"

definition c_imm_ld :: "u32 \<Rightarrow> u64" where
  "c_imm_ld inst = ucast (binary_concat inst 6 5 6 OR binary_concat inst 12 10 3)"

definition c_imm_b :: "u32 \<Rightarrow> u64" where
  "c_imm_b inst = sext_from 8 0xfffffffffffffe00
     (ucast (binary_concat inst 12 12 8 OR binary_concat inst 11 10 3 OR binary_concat inst 6 5 6 OR
             binary_concat inst 4 3 1 OR binary_concat inst 2 2 5))"

definition c_imm_j :: "u32 \<Rightarrow> u64" where
  "c_imm_j inst = sext_from 11 0xfffffffffffff000
     (ucast (binary_concat inst 12 12 11 OR binary_concat inst 11 11 4 OR binary_concat inst 10 9 8 OR
             binary_concat inst 8 8 10 OR binary_concat inst 7 7 6 OR binary_concat inst 6 6 7 OR
             binary_concat inst 5 3 1 OR binary_concat inst 2 2 5))"

definition rvc_opcode :: "u32 \<Rightarrow> u32" where
  "rvc_opcode inst = push_bit 3 (inst AND 3) OR (drop_bit 13 inst AND 7)"

section \<open>Quadrant 0\<close>

definition exec_C_ADDI4SPN :: "u32 \<Rightarrow> 'b xstate \<Rightarrow> 'b xstate res" where
  "exec_C_ADDI4SPN inst x =
     (let rd = creg inst 4 2;
          imm = ucast (binary_concat inst 12 11 4 OR binary_concat inst 10 7 6 OR
                       binary_concat inst 6 6 2 OR binary_concat inst 5 5 3) :: u64;
          val = xgpr x 2 + imm
      in if imm \<noteq> 0 then set_rd rd val x else illegal x)"

definition exec_C_LW :: "'b bus_ops \<Rightarrow> u32 \<Rightarrow> 'b xstate \<Rightarrow> 'b xstate res" where
  "exec_C_LW bus inst x =
     load_to bus (xgpr x (creg inst 9 7) + c_imm_lw inst) 4 conv_s32 (creg inst 4 2) x"

definition exec_C_LD :: "'b bus_ops \<Rightarrow> u32 \<Rightarrow> 'b xstate \<Rightarrow> 'b xstate res" where
  "exec_C_LD bus inst x =
     load_to bus (xgpr x (creg inst 9 7) + c_imm_ld inst) 8 conv_64 (creg inst 4 2) x"

definition exec_C_SW :: "'b bus_ops \<Rightarrow> u32 \<Rightarrow> 'b xstate \<Rightarrow> 'b xstate res" where
  "exec_C_SW bus inst x =
     memWrite bus (xgpr x (creg inst 9 7) + c_imm_lw inst) (to_bytes 4 (xgpr x (creg inst 4 2))) x"

definition exec_C_SD :: "'b bus_ops \<Rightarrow> u32 \<Rightarrow> 'b xstate \<Rightarrow> 'b xstate res" where
  "exec_C_SD bus inst x =
     memWrite bus (xgpr x (creg inst 9 7) + c_imm_ld inst) (to_bytes 8 (xgpr x (creg inst 4 2))) x"

section \<open>Quadrant 1\<close>

definition exec_C_ADDI :: "u32 \<Rightarrow> 'b xstate \<Rightarrow> 'b xstate res" where
  "exec_C_ADDI inst x =
     (let imm = c_simm6 inst; rd = rreg inst 11 7 in
      if imm \<noteq> 0 then alu_to rd (xgpr x rd) imm ALU_ADD False x else Inr x)"

definition exec_C_ADDIW :: "u32 \<Rightarrow> 'b xstate \<Rightarrow> 'b xstate res" where
  "exec_C_ADDIW inst x =
     (let rd = rreg inst 11 7 in alu_to rd (xgpr x rd) (c_simm6 inst) ALU_ADD True x)"

definition exec_C_LI :: "u32 \<Rightarrow> 'b xstate \<Rightarrow> 'b xstate res" where
  "exec_C_LI inst x = set_rd (rreg inst 11 7) (c_simm6 inst) x"

definition exec_C_ADDI16SPN_LUI :: "u32 \<Rightarrow> 'b xstate \<Rightarrow> 'b xstate res" where
  "exec_C_ADDI16SPN_LUI inst x =
     (let rd = rreg inst 11 7 in
      if rd = 2 then
        (let imm = sext_from 9 0xfffffffffffffc00
               (ucast (binary_concat inst 12 12 9 OR binary_concat inst 6 6 4 OR binary_concat inst 5 5 6 OR
                       binary_concat inst 4 3 7 OR binary_concat inst 2 2 5));
             val = xgpr x rd + imm
         in if imm \<noteq> 0 then set_rd rd val x else Inr x)
      else
        (let imm = sext_from 17 0xfffffffffffc0000
               (ucast (binary_concat inst 12 12 17 OR binary_concat inst 6 2 12))
         in if imm \<noteq> 0 then set_rd rd imm x else Inr x))"

definition exec_C_ALU :: "u32 \<Rightarrow> 'b xstate \<Rightarrow> 'b xstate res" where
  "exec_C_ALU inst x =
     (let is_srli_srai = (binary_concat inst 11 11 0 = 0); rs1 = creg inst 9 7; a = xgpr x rs1 in
      if is_srli_srai then
        (let is_srai = (binary_concat inst 10 10 0 \<noteq> 0); imm = c_imm6 inst in
         if imm \<noteq> 0 then alu_to rs1 a imm (if is_srai then ALU_SRA else ALU_SRL) False x else Inr x)
      else
        (let is_andi = (binary_concat inst 10 10 0 = 0) in
         if is_andi then alu_to rs1 a (c_simm6 inst) ALU_AND False x
         else
           (let b = xgpr x (creg inst 4 2); funct2 = binary_concat inst 6 5 0;
                instr_12 = (binary_concat inst 12 12 0 \<noteq> 0) in
            if funct2 = RV64C_Funct2_val FUNCT2_SUB then alu_to rs1 a b ALU_SUB instr_12 x
            else if funct2 = RV64C_Funct2_val FUNCT2_XOR_ADDW then
              alu_to rs1 a b (if instr_12 then ALU_ADD else ALU_XOR) instr_12 x
            else if funct2 = RV64C_Funct2_val FUNCT2_OR then (if instr_12 then illegal x else alu_to rs1 a b ALU_OR False x)
            else (if instr_12 then illegal x else alu_to rs1 a b ALU_AND False x))))"

definition exec_C_J :: "u32 \<Rightarrow> 'b xstate \<Rightarrow> 'b xstate res" where
  "exec_C_J inst x = Inr (set_pc (xpc x + c_imm_j inst) x)"

definition exec_C_BEQZ :: "u32 \<Rightarrow> 'b xstate \<Rightarrow> 'b xstate res" where
  "exec_C_BEQZ inst x =
     (if xgpr x (creg inst 9 7) = 0 then Inr (set_pc (xpc x + c_imm_b inst) x) else Inr x)"

definition exec_C_BNEZ :: "u32 \<Rightarrow> 'b xstate \<Rightarrow> 'b xstate res" where
  "exec_C_BNEZ inst x =
     (if xgpr x (creg inst 9 7) \<noteq> 0 then Inr (set_pc (xpc x + c_imm_b inst) x) else Inr x)"

section \<open>Quadrant 2\<close>

definition exec_C_SLLI :: "u32 \<Rightarrow> 'b xstate \<Rightarrow> 'b xstate res" where
  "exec_C_SLLI inst x =
     (let imm = c_imm6 inst; rs1 = rreg inst 11 7 in
      if imm \<noteq> 0 then alu_to rs1 (xgpr x rs1) imm ALU_SLL False x else Inr x)"

definition exec_C_LWSP :: "'b bus_ops \<Rightarrow> u32 \<Rightarrow> 'b xstate \<Rightarrow> 'b xstate res" where
  "exec_C_LWSP bus inst x =
     (let imm = ucast (binary_concat inst 6 4 2 OR binary_concat inst 3 2 6 OR binary_concat inst 12 12 5)
      in load_to bus (xgpr x 2 + imm) 4 conv_s32 (rreg inst 11 7) x)"

definition exec_C_LDSP :: "'b bus_ops \<Rightarrow> u32 \<Rightarrow> 'b xstate \<Rightarrow> 'b xstate res" where
  "exec_C_LDSP bus inst x =
     (let imm = ucast (binary_concat inst 6 5 3 OR binary_concat inst 4 2 6 OR binary_concat inst 12 12 5)
      in load_to bus (xgpr x 2 + imm) 8 conv_64 (rreg inst 11 7) x)"

text \<open>The jump of \<open>c.jr\<close> and \<open>c.jalr\<close>; \<open>link\<close> says whether the return address is stored.\<close>

definition c_jump :: "bool \<Rightarrow> u64 \<Rightarrow> 'b xstate \<Rightarrow> 'b xstate res" where
  "c_jump link target x =
     (let npc = (if target AND 1 \<noteq> 0 then target XOR 1 else target) in
      if npc mod PC_ALIGN \<noteq> 0 then raise_x (cause_of exec_instr_misalign) npc x
      else bindR (if link then set_rd 1 (xpc x + 2) x else Inr x) (\<lambda>x1. Inr (set_pc npc x1)))"

definition exec_C_JR_MV_EB_JALR_ADD :: "u32 \<Rightarrow> 'b xstate \<Rightarrow> 'b xstate res" where
  "exec_C_JR_MV_EB_JALR_ADD inst x =
     (let is_ebreak_jalr_add = (binary_concat inst 12 12 0 \<noteq> 0);
          rs2 = rreg inst 6 2; rs1 = rreg inst 11 7 in
      if is_ebreak_jalr_add then
        (if rs2 = 0 then
           (if rs1 = 0 then bindR (ebreak (xc x)) (\<lambda>c. Inr (x\<lparr>xc := c\<rparr>))
            else c_jump True (xgpr x rs1) x)
         else alu_to rs1 (xgpr x rs1) (xgpr x rs2) ALU_ADD False x)
      else
        (if rs2 = 0 then (if rs1 = 0 then illegal x else c_jump False (xgpr x rs1) x)
         else set_rd rs1 (xgpr x rs2) x))"

definition exec_C_SWSP :: "'b bus_ops \<Rightarrow> u32 \<Rightarrow> 'b xstate \<Rightarrow> 'b xstate res" where
  "exec_C_SWSP bus inst x =
     (let imm = ucast (binary_concat inst 12 9 2 OR binary_concat inst 8 7 6)
      in memWrite bus (xgpr x 2 + imm) (to_bytes 4 (xgpr x (rreg inst 6 2))) x)"

definition exec_C_SDSP :: "'b bus_ops \<Rightarrow> u32 \<Rightarrow> 'b xstate \<Rightarrow> 'b xstate res" where
  "exec_C_SDSP bus inst x =
     (let imm = ucast (binary_concat inst 12 10 3 OR binary_concat inst 9 7 6)
      in memWrite bus (xgpr x 2 + imm) (to_bytes 8 (xgpr x (rreg inst 6 2))) x)"

section \<open>The opcode switch\<close>

definition exec_C :: "'b bus_ops \<Rightarrow> u32 \<Rightarrow> 'b xstate \<Rightarrow> 'b xstate res" where
  "exec_C bus inst x =
     (let opcode = rvc_opcode inst in
      if opcode = RV64C_OpCode_val OPCODE_C_ADDI4SPN then exec_C_ADDI4SPN inst x
      else if opcode = RV64C_OpCode_val OPCODE_C_LW then exec_C_LW bus inst x
      else if opcode = RV64C_OpCode_val OPCODE_C_LD then exec_C_LD bus inst x
      else if opcode = RV64C_OpCode_val OPCODE_C_SW then exec_C_SW bus inst x
      else if opcode = RV64C_OpCode_val OPCODE_C_SD then exec_C_SD bus inst x
      else if opcode = RV64C_OpCode_val OPCODE_C_ADDI then exec_C_ADDI inst x
      else if opcode = RV64C_OpCode_val OPCODE_C_ADDIW then exec_C_ADDIW inst x
      else if opcode = RV64C_OpCode_val OPCODE_C_LI then exec_C_LI inst x
      else if opcode = RV64C_OpCode_val OPCODE_C_ADDI16SPN_LUI then exec_C_ADDI16SPN_LUI inst x
      else if opcode = RV64C_OpCode_val OPCODE_C_ALU then exec_C_ALU inst x
      else if opcode = RV64C_OpCode_val OPCODE_C_J then exec_C_J inst x
      else if opcode = RV64C_OpCode_val OPCODE_C_BEQZ then exec_C_BEQZ inst x
      else if opcode = RV64C_OpCode_val OPCODE_C_BNEZ then exec_C_BNEZ inst x
      else if opcode = RV64C_OpCode_val OPCODE_C_SLLI then exec_C_SLLI inst x
      else if opcode = RV64C_OpCode_val OPCODE_C_LWSP then exec_C_LWSP bus inst x
      else if opcode = RV64C_OpCode_val OPCODE_C_LDSP then exec_C_LDSP bus inst x
      else if opcode = RV64C_OpCode_val OPCODE_C_JR_MV_EB_JALR_ADD then exec_C_JR_MV_EB_JALR_ADD inst x
      else if opcode = RV64C_OpCode_val OPCODE_C_SWSP then exec_C_SWSP bus inst x
      else if opcode = RV64C_OpCode_val OPCODE_C_SDSP then exec_C_SDSP bus inst x
      else illegal x)"

end
