(* ===== verification/RV64_Step.thy ===== *)
theory RV64_Step
  imports RV64_Exec_C
begin

unbundle bit_operations_syntax

text \<open>
  One step of a core: \<open>Step_CoreAPI\<close> of \<open>modules/core/rv64/src/rv64_exec.cpp\<close> from the
  interrupt check to the update of the program counter.
\<close>

section \<open>The step\<close>

definition is_compressed :: "u32 \<Rightarrow> bool" where
  "is_compressed inst \<longleftrightarrow> bget f_opcode inst AND 3 \<noteq> 3"

text \<open>From the label \<open>exception\<close> to the end.\<close>

definition step_finish :: "u32 \<Rightarrow> bool \<Rightarrow> 'b xstate \<Rightarrow> (core \<times> 'b) res" where
  "step_finish inst is_compressed_inst x =
     bindR (if is_instr_illegal x then raise_x (cause_of exec_illegal_instr) (ucast inst) x else Inr x) (\<lambda>x1.
     let c = xc x1;
         c1 = (if needTrap c then c\<lparr>currentProgramCounter := trapProgramCounter c\<rparr>
               else if \<not> is_new_pc_set x1
               then c\<lparr>currentProgramCounter := currentProgramCounter c + (if is_compressed_inst then 2 else 4)\<rparr>
               else c);
         c2 = (if \<not> needTrap c1 then c1\<lparr>minstret := minstret c1 + 1\<rparr> else c1);
         c3 = c2\<lparr>needTrap := False\<rparr>
     in
     assertR (bget ms_blank0 (status c3) = 0)
    (assertR (bget ms_blank1 (status c3) = 0)
    (assertR (bget ms_blank2 (status c3) = 0)
    (assertR (bget ms_blank3 (status c3) = 0)
    (assertR (bget ms_blank4 (status c3) = 0)
      (Inr (c3, xb x1)))))))"

text \<open>The cause of a failed fetch; zero fails the assertion.\<close>

definition fetch_cause :: "VAddr_RW_Feedback \<Rightarrow> u64" where
  "fetch_cause feedback =
     (if feedback = INST_PAGE_FAULT then exec_code exec_instr_pgfault
      else if feedback = INST_ACCESS_FAULT then exec_code exec_instr_acc_fault else 0)"

definition Step_CoreAPI :: "'b bus_ops \<Rightarrow> core \<Rightarrow> 'b \<Rightarrow> (core \<times> 'b) res" where
  "Step_CoreAPI bus c0 b0 =
     bindR (preExec c0) (\<lambda>c.
     let x = \<lparr>xc = c, xb = b0, is_new_pc_set = False, is_instr_illegal = False\<rparr> in
     if needTrap c then step_finish 0 False x
     else if currentProgramCounter c mod PC_ALIGN \<noteq> 0 then
       bindR (raise_x (cause_of exec_instr_misalign) (currentProgramCounter c) x) (step_finish 0 False)
     else
       bindR (VAddr_InstFetch_MMU_API bus (core_env c) (sv39MMU c) b0 (currentProgramCounter c) 4 [0, 0, 0, 0])
         (\<lambda>(feedback, buf, m1, b1).
       let x1 = x\<lparr>xc := c\<lparr>sv39MMU := m1\<rparr>, xb := b1\<rparr>; inst = of_bytes buf in
       if feedback \<noteq> INST_ACCESS_OK then
         assertR (fetch_cause feedback \<noteq> 0)
           (bindR (raise_x (mk_cause (fetch_cause feedback) 0) (currentProgramCounter c) x1)
             (step_finish inst False))
       else if \<not> is_compressed inst then bindR (exec_32 bus inst x1) (step_finish inst False)
       else bindR (exec_C bus inst x1) (step_finish inst True)))"

lemma mod4_even: "(a :: u64) mod 4 = 0 \<Longrightarrow> a mod 2 = 0"
proof -
  assume "a mod 4 = 0"
  then have "unat (a mod 4) = 0" by simp
  then have "unat a mod 4 = 0" by (simp add: unat_mod)
  then have "unat a mod 2 = 0" by presburger
  then have "unat (a mod 2) = 0" by (simp add: unat_mod)
  then show "a mod 2 = 0" by (simp only: unsigned_eq_0_iff)
qed

lemma step_fetches:
  assumes "core_wf c" and "\<not> takes_interrupt (preExec_update c)"
    and "nextPrivMode c = M_MODE \<or> bget satp_mode (satp c) = 0" and "currentProgramCounter c mod 4 = 0"
    and "PAddr_ReadBuffer_MMIOBus_API bus b (currentProgramCounter c) 4 = Inr (MEMU_OK, Some (to_bytes 4 inst), b1)"
    and "\<not> is_compressed inst"
  shows "Step_CoreAPI bus c b = bindR (exec_32 bus inst
    \<lparr>xc = preExec_update c, xb = b1, is_new_pc_set = False, is_instr_illegal = False\<rparr>) (step_finish inst False)"
proof -
  let ?c = "preExec_update c" and ?pc = "currentProgramCounter c"
  have pre: "preExec c = Inr ?c"
    using preExec_spec [OF assms(1)] assms(2) by (cases "preExec c") auto
  have f: "currentPrivMode ?c = nextPrivMode c" "satp ?c = satp c" "currentProgramCounter ?c = ?pc" "\<not> needTrap ?c"
    by (simp_all add: preExec_update_def)
  have "?pc mod 2 = 0" by (rule mod4_even [OF assms(4)])
  then show ?thesis
    using assms(3-6)
    by (simp add: Step_CoreAPI_def pre f Let_def PC_ALIGN_def VAddr_InstFetch_MMU_API_def inst_fetch_part_def core_env_def
        of_bytes_to_bytes_full)
qed


lemma blank_fields:
  assumes "core_wf c"
  shows "bget ms_blank0 (status c) = 0" "bget ms_blank1 (status c) = 0" "bget ms_blank2 (status c) = 0"
    "bget ms_blank3 (status c) = 0" "bget ms_blank4 (status c) = 0"
  using assms by (simp_all add: core_wf_def status_wf_blank)

lemma op_decode_not_NOP: "op_decode f7 f3 = Some op \<Longrightarrow> op \<noteq> ALU_NOP"
  by (auto simp: op_decode_def split: if_splits)

lemma reg_bound: "snd f = 5 \<Longrightarrow> reg f inst < 32"
  using take_bit_nat_less_exp [of 5 "unat (drop_bit (fst f) inst)"]
  by (simp add: reg_def bget_def unsigned_take_bit_eq)

text \<open>The register-register instructions as the manual lists them: \<open>funct7\<close>, \<open>funct3\<close>, operation.\<close>

definition manual_op :: "(u32 \<times> u32) \<Rightarrow> ALU_Op_enum option" where
  "manual_op = map_of
     [((0x00, 0), ALU_ADD), ((0x20, 0), ALU_SUB), ((0x00, 1), ALU_SLL), ((0x00, 2), ALU_SLT),
      ((0x00, 3), ALU_SLTU), ((0x00, 4), ALU_XOR), ((0x00, 5), ALU_SRL), ((0x20, 5), ALU_SRA),
      ((0x00, 6), ALU_OR), ((0x00, 7), ALU_AND),
      ((0x01, 0), ALU_MUL), ((0x01, 1), ALU_MULH), ((0x01, 2), ALU_MULHSU), ((0x01, 3), ALU_MULHU),
      ((0x01, 4), ALU_DIV), ((0x01, 5), ALU_DIVU), ((0x01, 6), ALU_REM), ((0x01, 7), ALU_REMU)]"

lemma op_decode_manual: "manual_op (f7, f3) = Some op \<Longrightarrow> op_decode f7 f3 = Some op"
  by (auto simp: manual_op_def op_decode_def split: if_splits)

text \<open>A bus that answers every read with the same word.\<close>

definition rom_bus :: "u32 \<Rightarrow> unit bus_ops" where
  "rom_bus inst = \<lparr>PAddr_ReadBuffer_MMIOBus_API = (\<lambda>b a n. Inr (MEMU_OK, Some (to_bytes (unat n) inst), b)),
                  PAddr_WriteBuffer_MMIOBus_API = (\<lambda>b a bs. Inr (MEMU_OK, b))\<rparr>"

lemma example_quiet: "\<not> takes_interrupt (preExec_update example_core)"
  by (simp add: takes_interrupt_def preExec_update_def example_core_def core_reset_def)

lemma example_start:
  "nextPrivMode example_core = M_MODE" "currentProgramCounter example_core mod 4 = 0"
  by (simp_all add: example_core_def core_reset_def)

text \<open>A step without a pending interrupt that fetches a register-register instruction updates the
  destination register alone with the result that the manual gives its function codes, adds 4 to
  the program counter and counts the instruction.\<close>

theorem step_executes_op:
  assumes "core_wf c" and "\<not> takes_interrupt (preExec_update c)"
    and "nextPrivMode c = M_MODE \<or> bget satp_mode (satp c) = 0" and "currentProgramCounter c mod 4 = 0"
    and "PAddr_ReadBuffer_MMIOBus_API bus b (currentProgramCounter c) 4 = Inr (MEMU_OK, Some (to_bytes 4 inst), b1)"
    and "bget f_opcode inst = RV64I_OpCode_val OPCODE_OP" and "manual_op (bget f_funct7 inst, bget f_funct3 inst) = Some op"
  shows "\<exists>c'. Step_CoreAPI bus c b = Inr (c', b1) \<and>
    GPR c' = (if reg f_rd inst = 0 then GPR c else (GPR c)[reg f_rd inst :=
      word_of_int (alu_spec op (gpr c (reg f_rs1 inst)) (gpr c (reg f_rs2 inst)))]) \<and>
    currentProgramCounter c' = currentProgramCounter c + 4 \<and> minstret c' = minstret c + 1 \<and>
    status c' = status c \<and> currentPrivMode c' = nextPrivMode c \<and> nextPrivMode c' = nextPrivMode c"
proof -
  let ?c = "preExec_update c"
  have nc: "\<not> is_compressed inst" using assms(6) by (simp add: is_compressed_def)
  have f: "GPR ?c = GPR c" "status ?c = status c" "currentProgramCounter ?c = currentProgramCounter c"
    "minstret ?c = minstret c" "nextPrivMode ?c = nextPrivMode c" "currentPrivMode ?c = nextPrivMode c" "\<not> needTrap ?c"
    by (simp_all add: preExec_update_def)
  have rd: "reg f_rd inst < 32" by (simp add: reg_bound f_rd_def)
  have op: "op_decode (bget f_funct7 inst) (bget f_funct3 inst) = Some op" by (rule op_decode_manual [OF assms(7)])
  show ?thesis
    using assms(6) op rd
    by (simp add: step_fetches [OF assms(1-5) nc] exec_32_def Let_def exec_OP_def alu_to_def
        alu_exec_64 [OF op_decode_not_NOP [OF op]] set_rd_def setGPR_def gpr_def step_finish_def f blank_fields [OF assms(1)])
qed

theorem step_executes_op_witness:
  "\<exists>c'. Step_CoreAPI (rom_bus 0x00b502b3) example_core () = Inr (c', ()) \<and> GPR c' ! 5 = gpr example_core 10 + gpr example_core 11 \<and>
     currentProgramCounter c' = currentProgramCounter example_core + 4"
proof -
  have f: "bget f_opcode (0x00b502b3 :: u32) = RV64I_OpCode_val OPCODE_OP" "manual_op (bget f_funct7 0x00b502b3, bget f_funct3 0x00b502b3) = Some ALU_ADD"
    "reg f_rd 0x00b502b3 = 5" "reg f_rs1 0x00b502b3 = 10" "reg f_rs2 0x00b502b3 = 11" by code_simp+
  have "length (GPR example_core) = 32" by (simp add: example_core_def core_reset_def)
  then show ?thesis
    using step_executes_op [OF core_wf_examples(1) example_quiet _ _ _ f(1,2), of "rom_bus 0x00b502b3" "()" "()"] f(3-5)
    by (auto simp: rom_bus_def example_start alu_spec_def)
qed

text \<open>C31: A step in M-mode that fetches an opcode outside the implemented ones traps with the
  illegal-instruction cause and the instruction as trap value; registers and the instruction
  counter stay.\<close>

theorem illegal_opcode_traps:
  assumes "core_wf c" and "\<not> takes_interrupt (preExec_update c)"
    and "nextPrivMode c = M_MODE" and "currentProgramCounter c mod 4 = 0"
    and "PAddr_ReadBuffer_MMIOBus_API bus b (currentProgramCounter c) 4 = Inr (MEMU_OK, Some (to_bytes 4 (inst :: u32)), b1)"
    and "bget f_opcode inst \<in> {0x07, 0x27, 0x43, 0x47, 0x4b, 0x4f, 0x53, 0x57, 0x77, 0x0b, 0x2b, 0x5b, 0x7b, 0x6b, 0x1f, 0x3f, 0x5f, 0x7f}"
  shows "\<exists>c'. Step_CoreAPI bus c b = Inr (c', b1) \<and>
    csrMachineCause c' = cause_of exec_illegal_instr \<and> csrMachineTrapVal c' = ucast inst \<and>
    csrMExceptionPC c' = currentProgramCounter c \<and>
    currentProgramCounter c' = trap_vector (csrMTrapVecBaseAddr c) (cause_of exec_illegal_instr) \<and>
    GPR c' = GPR c \<and> minstret c' = minstret c \<and> nextPrivMode c' = M_MODE"
proof -
  let ?c = "preExec_update c"
  have nc: "\<not> is_compressed inst" using assms(6) by (auto simp: is_compressed_def)
  have f: "GPR ?c = GPR c" "status ?c = status c" "currentProgramCounter ?c = currentProgramCounter c"
    "minstret ?c = minstret c" "nextPrivMode ?c = nextPrivMode c" "currentPrivMode ?c = nextPrivMode c" "\<not> needTrap ?c"
    "csrMTrapVecBaseAddr ?c = csrMTrapVecBaseAddr c"
    by (simp_all add: preExec_update_def)
  have ex: "exec_32 bus inst x = illegal x" for x :: "'a xstate"
    using assms(6) by (auto simp: exec_32_def Let_def)
  have cause: "bget ca_cause (cause_of exec_illegal_instr) = 2" by code_simp
  have other: "bget g (bput ms_mpp x (bput ms_mie y (bput ms_mpie z s))) = bget g s"
    if "g \<in> {ms_blank0, ms_blank1, ms_blank2, ms_blank3, ms_blank4}" for g x y z s
    using that by (auto simp: bget_bput_other disjoint_fields_def field_defs)
  have nt: "\<not> trap_to_S (cause_of exec_illegal_instr) ?c" using assms(3) by (simp add: trap_to_S_def f)
  show ?thesis
    using assms(3)
    by (simp add: step_fetches [OF assms(1,2) disjI1 [OF assms(3)] assms(4,5) nc] ex illegal_def step_finish_def Let_def
        raise_x_def raiseTrap_def f cause nt other blank_fields [OF assms(1)])
qed

theorem illegal_opcode_traps_witness:
  "\<exists>c'. Step_CoreAPI (rom_bus 0x53) example_core () = Inr (c', ()) \<and> csrMachineTrapVal c' = 0x53"
proof -
  have "bget f_opcode (0x53 :: u32) = 0x53" by code_simp
  then show ?thesis
    using illegal_opcode_traps [OF core_wf_examples(1) example_quiet, where bus = "rom_bus 0x53" and inst = "0x53"]
    by (auto simp: rom_bus_def example_start)
qed

end
