(* ===== verification/RV64_Inv.thy ===== *)
theory RV64_Inv
  imports RV64_Step
begin

unbundle bit_operations_syntax

text \<open>
  The invariant of a step: whatever the instruction and however the bus answers, a step that
  returns keeps the core well-formed and the bus in its own invariant. The lemmas are proved
  once against the interface \<open>paddr_bus\<close>, so they hold of every bus that meets its contract.
\<close>

section \<open>The translation unit\<close>

definition mmu_ok :: "mmu_env \<Rightarrow> mmu \<Rightarrow> bool" where
  "mmu_ok e m \<longleftrightarrow> mmu_wf m \<and> (lr_valid m \<longrightarrow> lr_hart m = env_hart e)"

lemma mmu_ok_reserve: "mmu_ok e m \<Longrightarrow> mmu_ok e (reserve e a n m)"
  by (simp add: mmu_ok_def) (simp add: reserve_def)

lemma mmu_ok_drop: "mmu_ok e m \<Longrightarrow> mmu_ok e (drop_reservation e m)"
  by (simp add: mmu_ok_def) (simp add: drop_reservation_def)

lemma mmu_ok_invalid: "mmu_ok e m \<Longrightarrow> mmu_ok e (m\<lparr>lr_valid := False\<rparr>)"
  by (simp add: mmu_ok_def)

lemmas mmu_ok_intros = mmu_ok_reserve mmu_ok_drop mmu_ok_invalid

lemma mmu_ok_lookup: "mmu_ok e m \<Longrightarrow> lookup_post e va m (p, m', b') \<Longrightarrow> mmu_ok e m'"
  by (simp add: mmu_ok_def lookup_post_def lr_part_def)

lemma core_wf_mmu:
  "core_wf c \<Longrightarrow> mmu_ok (core_env c) (sv39MMU c)"
  "core_wf c \<Longrightarrow> mmu_ok (core_env c) m' \<Longrightarrow> core_wf (c\<lparr>sv39MMU := m'\<rparr>)"
  by (simp_all add: core_wf_def mmu_ok_def core_env_def)

context paddr_bus
begin

text \<open>What every operation on the unit and the bus keeps.\<close>

definition keeps :: "mmu_env \<Rightarrow> mmu \<Rightarrow> 'b \<Rightarrow> bool" where
  "keeps e m b \<longleftrightarrow> mmu_ok e m \<and> binv b"

lemma read_pte_inv: "binv b \<Longrightarrow> holdsR (read_pte bus b a) (\<lambda>(pte, b'). binv b')"
  unfolding read_pte_def by (rule holdsR_bindI [OF bus_read_all]) auto

lemma walk_l0_inv: "mmu_wf m \<Longrightarrow> binv b \<Longrightarrow> holdsR (walk_l0 bus e m b a va) (\<lambda>(p, m', b'). binv b')"
  by (simp only: walk_l0_eq) (rule holdsR_bindI [OF read_pte_inv], auto)

lemma walk_l1_inv: "mmu_wf m \<Longrightarrow> binv b \<Longrightarrow> holdsR (walk_l1 bus e m b a va) (\<lambda>(p, m', b'). binv b')"
  by (simp only: walk_l1_eq) (rule holdsR_bindI [OF read_pte_inv], auto intro: walk_l0_inv)

lemma walk_l2_inv: "mmu_wf m \<Longrightarrow> binv b \<Longrightarrow> holdsR (walk_l2 bus e m b va) (\<lambda>(p, m', b'). binv b')"
proof (cases "bget satp_mode (env_satp e) = 8")
  case True
  then show "mmu_wf m \<Longrightarrow> binv b \<Longrightarrow> ?thesis"
    by (simp only: walk_l2_eq) (rule holdsR_bindI [OF read_pte_inv], auto intro: walk_l1_inv)
next
  case False
  then show "binv b \<Longrightarrow> ?thesis" by (simp add: walk_l2_def)
qed

lemma getTLBEntry_binv:
  assumes "mmu_wf m" "binv b"
  shows "holdsR (getTLBEntry bus e m b va) (\<lambda>(p, m', b'). binv b')"
proof -
  have "holdsR (bindR (tlb_scan e va 0 (tlb m) None (tlbGetCache m)) (\<lambda>(p, c).
      let m1 = m\<lparr>tlbGetCache := c\<rparr> in case p of Some i \<Rightarrow> Inr (Some i, m1, b) | None \<Rightarrow> walk_l2 bus e m1 b va))
      (\<lambda>(p, m', b'). binv b')"
  proof (rule holdsR_bindI [where Q = "\<lambda>(p, c). mmu_wf (m\<lparr>tlbGetCache := c\<rparr>)"])
    show "holdsR (tlb_scan e va 0 (tlb m) None (tlbGetCache m)) (\<lambda>(p, c). mmu_wf (m\<lparr>tlbGetCache := c\<rparr>))"
      by (rule holdsR_I) (auto dest: tlb_scan_wf(1) [OF assms(1)])
  qed (auto simp: Let_def assms(2) split: option.split intro: walk_l2_inv [OF _ assms(2)])
  then show ?thesis
    using assms(2) by (auto simp: getTLBEntry_def split: option.split intro!: holdsR_assertI simp del: holdsR_bindR)
qed

lemma getTLBEntry_inv:
  assumes "keeps e m b"
  shows "holdsR (getTLBEntry bus e m b va) (\<lambda>(p, m', b'). keeps e m' b')"
proof -
  have wf: "mmu_wf m" and b: "binv b" using assms by (simp_all add: keeps_def mmu_ok_def)
  have "holdsR (getTLBEntry bus e m b va) (\<lambda>r. (case r of (p, m', b') \<Rightarrow> binv b') \<and> lookup_post e va m r)"
    using getTLBEntry_binv [OF wf b] getTLBEntry_post [OF wf] by (rule holdsR_conj)
  then show ?thesis
    by (rule holdsR_mono) (use assms in \<open>auto simp: keeps_def intro: mmu_ok_lookup\<close>)
qed

lemma bus_read_keeps:
  "keeps e m b \<Longrightarrow> (\<And>fb r b'. keeps e m b' \<Longrightarrow> holdsR (f (fb, r, b')) P) \<Longrightarrow>
   holdsR (bindR (PAddr_ReadBuffer_MMIOBus_API bus b a n) f) P"
  by (rule holdsR_bindI [OF bus_read_all]) (auto simp: keeps_def)

lemma bus_write_keeps:
  "keeps e m b \<Longrightarrow> (\<And>fb b'. keeps e m b' \<Longrightarrow> holdsR (f (fb, b')) P) \<Longrightarrow>
   holdsR (bindR (PAddr_WriteBuffer_MMIOBus_API bus b a bs) f) P"
  by (rule holdsR_bindI [OF bus_write_all]) (auto simp: keeps_def)

lemma lookup_keeps:
  "keeps e m b \<Longrightarrow> (\<And>p m' b'. keeps e m' b' \<Longrightarrow> holdsR (f (p, m', b')) P) \<Longrightarrow>
   holdsR (bindR (getTLBEntry bus e m b va) f) P"
  by (rule holdsR_bindI [OF getTLBEntry_inv]) auto

lemmas keeps_rules = bus_read_keeps bus_write_keeps lookup_keeps holdsR_assertI

lemma read_inv:
  assumes "keeps e m b"
  shows "holdsR (VAddr_ReadBuffer_MMU_API bus e m b a n) (\<lambda>(fb, r, m', b'). keeps e m' b')"
  using assms
  by (auto simp: VAddr_ReadBuffer_MMU_API_def Let_def split: option.split simp del: holdsR_bindR holdsR_assertR
      intro!: keeps_rules)

lemma write_inv:
  assumes "keeps e m b"
  shows "holdsR (VAddr_WriteBuffer_MMU_API bus e m b a bs) (\<lambda>(fb, m', b'). keeps e m' b')"
  using assms
  by (auto simp: VAddr_WriteBuffer_MMU_API_def Let_def split: option.split simp del: holdsR_bindR holdsR_assertR
      intro!: keeps_rules)

lemma fetch_part_inv:
  assumes "keeps e m b"
  shows "holdsR (inst_fetch_part bus e m b a n buf) (\<lambda>(fb, buf', m', b'). keeps e m' b')"
  using assms
  by (auto simp: inst_fetch_part_def Let_def split: option.split simp del: holdsR_bindR holdsR_assertR
      intro!: keeps_rules)

lemma fetch_inv:
  assumes "keeps e m b"
  shows "holdsR (VAddr_InstFetch_MMU_API bus e m b a n buf) (\<lambda>(fb, buf', m', b'). keeps e m' b')"
proof -
  have "holdsR (bindR (inst_fetch_part bus e m1 b1 a' n' buf1) (\<lambda>(fb, hi, m2, b2). Inr (g fb, h hi, m2, b2)))
      (\<lambda>(fb, buf', m', b'). keeps e m' b')" if "keeps e m1 b1"
    for m1 b1 a' n' buf1 and g :: "VAddr_RW_Feedback \<Rightarrow> VAddr_RW_Feedback" and h :: "u8 list \<Rightarrow> u8 list"
    by (rule holdsR_bindI [OF fetch_part_inv [OF that]]) auto
  then show ?thesis
    unfolding VAddr_InstFetch_MMU_API_def
    by (auto intro!: fetch_part_inv assms holdsR_bindI [OF fetch_part_inv [OF assms]] simp del: holdsR_bindR)
qed

lemma holdsR_any: "holdsR m (\<lambda>_. True)"
  by (simp add: holdsR_def split: sum.split)

lemma bus_read_binv:
  "binv b \<Longrightarrow> (\<And>fb r b'. binv b' \<Longrightarrow> holdsR (f (fb, r, b')) P) \<Longrightarrow>
   holdsR (bindR (PAddr_ReadBuffer_MMIOBus_API bus b a n) f) P"
  by (rule holdsR_bindI [OF bus_read_all]) auto

lemma bus_write_binv:
  "binv b \<Longrightarrow> (\<And>fb b'. binv b' \<Longrightarrow> holdsR (f (fb, b')) P) \<Longrightarrow>
   holdsR (bindR (PAddr_WriteBuffer_MMIOBus_API bus b a bs) f) P"
  by (rule holdsR_bindI [OF bus_write_all]) auto

lemma pa_amo_inv:
  assumes "binv b"
  shows "holdsR (pa_amo_op bus b pa n op src) (\<lambda>(ok, dst, b'). binv b')"
proof -
  have tail: "holdsR (bindR (initialised buf) (\<lambda>bs. bindR (amo_to_write op src (v bs)) (\<lambda>w.
        bindR (PAddr_WriteBuffer_MMIOBus_API bus b1 pa (g w)) (\<lambda>(fb, b2). Inr (fb = MEMU_OK, Some (v bs), b2)))))
      (\<lambda>(ok, dst, b'). binv b')" if "binv b1" for b1 buf v g
    by (rule holdsR_bindI [OF holdsR_any], rule holdsR_bindI [OF holdsR_any], rule bus_write_binv [OF that]) simp
  show ?thesis
    unfolding pa_amo_op_def Let_def
    by (rule bus_read_binv [OF assms]) (simp add: tail del: holdsR_bindR)
qed

lemma pa_amo_keeps:
  "keeps e m b \<Longrightarrow> (\<And>ok dst b'. keeps e m b' \<Longrightarrow> holdsR (f (ok, dst, b')) P) \<Longrightarrow>
   holdsR (bindR (pa_amo_op bus b pa n op src) f) P"
  by (rule holdsR_bindI [OF pa_amo_inv]) (auto simp: keeps_def)

lemma amo_inv:
  assumes "keeps e m b"
  shows "holdsR (vaddrAtomicMemOperation bus e m b a n op src) (\<lambda>(fb, r, m', b'). keeps e m' b')"
  using assms
  by (auto simp: vaddrAtomicMemOperation_def Let_def split: option.split simp del: holdsR_bindR holdsR_assertR
      intro!: keeps_rules pa_amo_keeps)

lemma lr_inv:
  assumes "keeps e m b"
  shows "holdsR (vaddrLoadReserved bus e m b a n) (\<lambda>(fb, r, m', b'). keeps e m' b')"
  using assms
  by (auto simp: vaddrLoadReserved_def Let_def split: option.split simp del: holdsR_bindR holdsR_assertR
      intro!: keeps_rules) (auto simp: keeps_def intro: mmu_ok_intros)

lemma sc_inv:
  assumes "keeps e m b"
  shows "holdsR (vaddrStoreConditional bus e m b a bs) (\<lambda>(fb, r, m', b'). keeps e m' b')"
  using assms
  by (auto simp: vaddrStoreConditional_def Let_def split: option.split simp del: holdsR_bindR holdsR_assertR
      intro!: keeps_rules) (auto simp: keeps_def intro: mmu_ok_intros)

text \<open>The state of a step: the core and the bus.\<close>

definition xinv :: "'b xstate \<Rightarrow> bool" where
  "xinv x \<longleftrightarrow> core_wf (xc x) \<and> binv (xb x)"

lemma xinv_pc: "core_wf (c\<lparr>currentProgramCounter := p\<rparr>) = core_wf c"
  by (simp add: core_wf_def)

lemma xinv_upd [simp]:
  "xinv (set_pc p x) = xinv x" "xinv (x\<lparr>is_new_pc_set := f\<rparr>) = xinv x" "xinv (x\<lparr>is_instr_illegal := f\<rparr>) = xinv x"
  by (simp_all add: xinv_def set_pc_def xinv_pc)

lemma xinv_core: "xinv x \<Longrightarrow> core_wf c \<Longrightarrow> xinv (x\<lparr>xc := c\<rparr>)"
  by (simp add: xinv_def)

lemma xinv_keeps:
  "xinv x \<Longrightarrow> keeps (core_env (xc x)) (sv39MMU (xc x)) (xb x)"
  "xinv x \<Longrightarrow> keeps (core_env (xc x)) m b \<Longrightarrow> xinv (x\<lparr>xc := (xc x)\<lparr>sv39MMU := m\<rparr>, xb := b\<rparr>)"
  by (simp_all add: xinv_def keeps_def core_wf_mmu)

lemma set_rd_inv: "xinv x \<Longrightarrow> holdsR (set_rd i v x) xinv"
  unfolding set_rd_def by (rule holdsR_bindI [OF core_wf_setGPR]) (auto simp: xinv_def)

lemma raise_inv: "xinv x \<Longrightarrow> holdsR (raise_x cause tval x) xinv"
  unfolding raise_x_def by (rule holdsR_bindI [OF core_wf_raiseTrap]) (auto simp: xinv_def)

lemma set_rd_then: "xinv x \<Longrightarrow> (\<And>x'. xinv x' \<Longrightarrow> holdsR (f x') P) \<Longrightarrow> holdsR (bindR (set_rd i v x) f) P"
  by (rule holdsR_bindI [OF set_rd_inv])

lemma raise_then: "xinv x \<Longrightarrow> (\<And>x'. xinv x' \<Longrightarrow> holdsR (f x') P) \<Longrightarrow> holdsR (bindR (raise_x c v x) f) P"
  by (rule holdsR_bindI [OF raise_inv])

lemma illegal_inv: "xinv x \<Longrightarrow> holdsR (illegal x) xinv"
  by (simp add: illegal_def)

text \<open>The translated accesses, each followed by the update of the core and the bus.\<close>

lemma access4:
  "holdsR M (\<lambda>(fb, r, m', b'). keeps (core_env (xc x)) m' b') \<Longrightarrow> xinv x \<Longrightarrow>
   (\<And>fb r m b. xinv (x\<lparr>xc := (xc x)\<lparr>sv39MMU := m\<rparr>, xb := b\<rparr>) \<Longrightarrow> holdsR (f (fb, r, m, b)) P) \<Longrightarrow>
   holdsR (bindR M f) P"
  by (erule holdsR_bindI) (auto simp: xinv_keeps(2))

lemma access3:
  "holdsR M (\<lambda>(fb, m', b'). keeps (core_env (xc x)) m' b') \<Longrightarrow> xinv x \<Longrightarrow>
   (\<And>fb m b. xinv (x\<lparr>xc := (xc x)\<lparr>sv39MMU := m\<rparr>, xb := b\<rparr>) \<Longrightarrow> holdsR (f (fb, m, b)) P) \<Longrightarrow>
   holdsR (bindR M f) P"
  by (erule holdsR_bindI) (auto simp: xinv_keeps(2))

lemmas access_then =
  access4 [OF read_inv [OF xinv_keeps(1)]] access3 [OF write_inv [OF xinv_keeps(1)]]
  access4 [OF lr_inv [OF xinv_keeps(1)]] access4 [OF sc_inv [OF xinv_keeps(1)]]
  access4 [OF amo_inv [OF xinv_keeps(1)]]

lemma memRead_inv: "xinv x \<Longrightarrow> holdsR (memRead bus a n x) (\<lambda>(ok, buf, x'). xinv x')"
  by (auto simp: memRead_def Let_def simp del: holdsR_bindR holdsR_assertR
      intro!: raise_then holdsR_assertI access_then)

lemma memWrite_inv: "xinv x \<Longrightarrow> holdsR (memWrite bus a bs x) xinv"
  by (auto simp: memWrite_def Let_def simp del: holdsR_bindR holdsR_assertR
      intro!: raise_inv holdsR_assertI access_then)

lemma load_to_inv: "xinv x \<Longrightarrow> holdsR (load_to bus a n conv rd x) xinv"
  unfolding load_to_def
  by (rule holdsR_bindI [OF memRead_inv]) (auto simp del: holdsR_bindR intro!: holdsR_bindI [OF holdsR_any] set_rd_inv)

lemma alu_to_inv: "xinv x \<Longrightarrow> holdsR (alu_to rd a b op w x) xinv"
  unfolding alu_to_def by (rule holdsR_bindI [OF holdsR_any]) (rule set_rd_inv)

lemmas exec_rules = set_rd_inv raise_inv illegal_inv memWrite_inv load_to_inv alu_to_inv
  set_rd_then raise_then holdsR_assertI

lemma integer_inv:
  assumes "xinv x"
  shows "holdsR (exec_LUI inst x) xinv" "holdsR (exec_AUIPC inst x) xinv" "holdsR (exec_JAL inst x) xinv"
    "holdsR (exec_JALR inst x) xinv" "holdsR (exec_BRANCH inst x) xinv" "holdsR (exec_LOAD bus inst x) xinv"
    "holdsR (exec_STORE bus inst x) xinv" "holdsR (exec_OPIMM inst x) xinv" "holdsR (exec_OPIMM32 inst x) xinv"
    "holdsR (exec_OP inst x) xinv" "holdsR (exec_OP32 inst x) xinv"
  using assms
  by (auto simp: exec_LUI_def exec_AUIPC_def exec_JAL_def exec_JALR_def exec_BRANCH_def exec_LOAD_def exec_STORE_def
      exec_OPIMM_def exec_OPIMM32_def exec_OP_def exec_OP32_def Let_def split: option.split bool.split
      simp del: holdsR_bindR holdsR_assertR intro!: exec_rules)


lemma any_then: "(\<And>y. holdsR (f y) P) \<Longrightarrow> holdsR (bindR (initialised v) f) P"
  by (rule holdsR_bindI [OF holdsR_any])

lemma exec_AMO_inv: "xinv x \<Longrightarrow> holdsR (exec_AMO bus inst x) xinv"
  by (auto simp: exec_AMO_def Let_def simp del: holdsR_bindR holdsR_assertR split: option.split AMO_Funct_enum.split
      intro!: exec_rules access_then any_then)

lemma or_illegal_inv: "xinv x \<Longrightarrow> (\<And>c. r = Some c \<Longrightarrow> core_wf c) \<Longrightarrow> holdsR (or_illegal r x) xinv"
  by (auto simp: or_illegal_def split: option.split intro: illegal_inv xinv_core)

lemma core_then:
  "xinv x \<Longrightarrow> holdsR m core_wf \<Longrightarrow> holdsR (bindR m (\<lambda>c. Inr (x\<lparr>xc := c\<rparr>))) xinv"
  by (rule holdsR_bindI [where Q = core_wf]) (auto intro: xinv_core)

lemma xinv_wf: "xinv x \<Longrightarrow> core_wf (xc x)"
  by (simp add: xinv_def)

lemma exec_PRIV_inv: "xinv x \<Longrightarrow> holdsR (exec_PRIV inst x) xinv"
  by (auto simp: exec_PRIV_def Let_def ecall_def ebreak_def simp del: holdsR_bindR
      intro!: exec_rules core_then or_illegal_inv core_wf_raiseTrap
      intro: core_wf_mret core_wf_sret core_wf_sfence xinv_wf)

lemma csr_then:
  "xinv x \<Longrightarrow> (\<And>r. (\<And>c. r = Some c \<Longrightarrow> core_wf c) \<Longrightarrow> holdsR (f r) P) \<Longrightarrow>
   holdsR (bindR (csr_write i d (xc x)) f) P"
  by (rule holdsR_bindI [OF core_wf_csr_write [OF xinv_wf]]) auto

lemma exec_csr_inv: "xinv x \<Longrightarrow> holdsR (exec_csr inst chk w new x) xinv"
  by (cases w) (auto simp: exec_csr_def Let_def xinv_wf simp del: holdsR_bindR split: option.split
      intro!: illegal_inv set_rd_inv xinv_core csr_then)

lemma exec_SYSTEM_inv: "xinv x \<Longrightarrow> holdsR (exec_SYSTEM inst x) xinv"
  by (simp add: exec_SYSTEM_def Let_def exec_CSRRW_def exec_CSRRS_def exec_CSRRC_def exec_CSRRWI_def
      exec_CSRRSI_def exec_CSRRCI_def exec_csr_inv exec_PRIV_inv illegal_inv)

lemma exec_32_inv: "xinv x \<Longrightarrow> holdsR (exec_32 bus inst x) xinv"
  by (simp add: exec_32_def Let_def integer_inv exec_AMO_inv exec_SYSTEM_inv illegal_inv)

lemma c_jump_inv: "xinv x \<Longrightarrow> holdsR (c_jump link t x) xinv"
  by (auto simp: c_jump_def Let_def simp del: holdsR_bindR intro!: exec_rules)

lemmas c_defs = exec_C_ADDI4SPN_def exec_C_LW_def exec_C_LD_def exec_C_SW_def exec_C_SD_def exec_C_ADDI_def
  exec_C_ADDIW_def exec_C_LI_def exec_C_ADDI16SPN_LUI_def exec_C_ALU_def exec_C_J_def exec_C_BEQZ_def exec_C_BNEZ_def
  exec_C_SLLI_def exec_C_LWSP_def exec_C_LDSP_def exec_C_JR_MV_EB_JALR_ADD_def exec_C_SWSP_def exec_C_SDSP_def

lemma c_memory_inv:
  assumes "xinv x"
  shows "holdsR (exec_C_LW bus inst x) xinv" "holdsR (exec_C_LD bus inst x) xinv" "holdsR (exec_C_SW bus inst x) xinv"
    "holdsR (exec_C_SD bus inst x) xinv" "holdsR (exec_C_LWSP bus inst x) xinv" "holdsR (exec_C_LDSP bus inst x) xinv"
    "holdsR (exec_C_SWSP bus inst x) xinv" "holdsR (exec_C_SDSP bus inst x) xinv"
  by (simp_all add: c_defs Let_def load_to_inv memWrite_inv assms)

lemma c_integer_inv:
  assumes "xinv x"
  shows "holdsR (exec_C_ADDI4SPN inst x) xinv" "holdsR (exec_C_ADDI inst x) xinv" "holdsR (exec_C_ADDIW inst x) xinv"
    "holdsR (exec_C_LI inst x) xinv" "holdsR (exec_C_ADDI16SPN_LUI inst x) xinv" "holdsR (exec_C_ALU inst x) xinv"
    "holdsR (exec_C_J inst x) xinv" "holdsR (exec_C_BEQZ inst x) xinv" "holdsR (exec_C_BNEZ inst x) xinv"
    "holdsR (exec_C_SLLI inst x) xinv"
  by (simp_all add: c_defs Let_def set_rd_inv alu_to_inv illegal_inv assms)

lemma c_control_inv: "xinv x \<Longrightarrow> holdsR (exec_C_JR_MV_EB_JALR_ADD inst x) xinv"
  by (auto simp: exec_C_JR_MV_EB_JALR_ADD_def Let_def ebreak_def simp del: holdsR_bindR
      intro!: exec_rules c_jump_inv core_then core_wf_raiseTrap xinv_wf)

lemma exec_C_inv: "xinv x \<Longrightarrow> holdsR (exec_C bus inst x) xinv"
  by (simp add: exec_C_def Let_def c_memory_inv c_integer_inv c_control_inv illegal_inv)

lemma step_finish_inv:
  assumes "xinv x"
  shows "holdsR (step_finish inst cmp x) (\<lambda>(c, b). core_wf c \<and> binv b \<and> \<not> needTrap c)"
proof -
  have "holdsR (if is_instr_illegal x then raise_x (cause_of exec_illegal_instr) (ucast inst) x else Inr x) xinv"
    using assms by (simp add: raise_inv)
  then show ?thesis
    unfolding step_finish_def
    by (rule holdsR_bindI)
      (auto simp: Let_def xinv_def core_wf_def status_wf_blank intro!: holdsR_assertI simp del: holdsR_assertR)
qed

lemma Step_inv:
  assumes "core_wf c" "binv b"
  shows "holdsR (Step_CoreAPI bus c b) (\<lambda>(c', b'). core_wf c' \<and> binv b' \<and> \<not> needTrap c')"
proof -
  have fetch: "holdsR (bindR (VAddr_InstFetch_MMU_API bus (core_env c) (sv39MMU c) b pc n buf) f) P"
    if "core_wf c" and "\<And>fb buf' m' b'. core_wf (c\<lparr>sv39MMU := m'\<rparr>) \<Longrightarrow> binv b' \<Longrightarrow> holdsR (f (fb, buf', m', b')) P"
    for c f P pc n buf
  proof -
    have "keeps (core_env c) (sv39MMU c) b" using that(1) assms(2) by (simp add: keeps_def core_wf_mmu)
    then show ?thesis
      by (rule holdsR_bindI [OF fetch_inv]) (auto simp: keeps_def intro!: that(2) core_wf_mmu(2) [OF that(1)])
  qed
  have fin: "holdsR (bindR m (step_finish inst cmp)) (\<lambda>(c', b'). core_wf c' \<and> binv b' \<and> \<not> needTrap c')"
    if "holdsR m xinv" for m inst cmp
    using that by (rule holdsR_bindI) (rule step_finish_inv)
  show ?thesis
    unfolding Step_CoreAPI_def
    by (rule holdsR_bindI [OF core_wf_preExec [OF assms(1)]])
      (auto simp: Let_def assms(2) xinv_def simp del: holdsR_bindR holdsR_assertR
        intro!: step_finish_inv fin fetch raise_inv exec_32_inv exec_C_inv holdsR_assertI)
qed

end

end
