(* ===== verification/RV64_Total.thy ===== *)
theory RV64_Total
  imports RV64_Inv
begin

unbundle bit_operations_syntax

text \<open>
  Progress: a step of a well-formed core without translation always returns. Every assertion of
  the instruction switch holds, no array is left and no unwritten local is read, as long as the
  bus answers every access; the only exception is a write of a reserved mode to \<open>mtvec\<close>.
\<close>

section \<open>Answering buses and ready cores\<close>

text \<open>A bus that answers every access and fills the buffer when it reports success.\<close>

definition total_bus :: "'b bus_ops \<Rightarrow> bool" where
  "total_bus bus \<longleftrightarrow>
     (\<forall>b a n. returnsR (PAddr_ReadBuffer_MMIOBus_API bus b a n) (\<lambda>(fb, r, b').
        (fb = MEMU_OK \<longrightarrow> r \<noteq> None) \<and> (\<forall>bs. r = Some bs \<longrightarrow> length bs = unat n))) \<and>
     (\<forall>b a bs. returnsR (PAddr_WriteBuffer_MMIOBus_API bus b a bs) (\<lambda>_. True))"

lemma total_read:
  "total_bus bus \<Longrightarrow> returnsR (PAddr_ReadBuffer_MMIOBus_API bus b a n) (\<lambda>(fb, r, b'). fb = MEMU_OK \<longrightarrow> r \<noteq> None)"
  by (rule returnsR_mono [of _ "\<lambda>(fb, r, b'). (fb = MEMU_OK \<longrightarrow> r \<noteq> None) \<and> (\<forall>bs. r = Some bs \<longrightarrow> length bs = unat n)"])
    (auto simp: total_bus_def)

lemma total_write: "total_bus bus \<Longrightarrow> returnsR (PAddr_WriteBuffer_MMIOBus_API bus b a bs) (\<lambda>_. True)"
  by (simp add: total_bus_def)

lemma total_length:
  assumes "total_bus bus" "PAddr_ReadBuffer_MMIOBus_API bus b a n = Inr (fb, Some bs, b')"
  shows "length bs = unat n"
proof -
  have "returnsR (PAddr_ReadBuffer_MMIOBus_API bus b a n) (\<lambda>(fb, r, b').
      (fb = MEMU_OK \<longrightarrow> r \<noteq> None) \<and> (\<forall>bs. r = Some bs \<longrightarrow> length bs = unat n))"
    using assms(1) unfolding total_bus_def by blast
  then show ?thesis by (simp add: assms(2))
qed

lemma total_paddr_bus: "total_bus bus \<Longrightarrow> paddr_bus bus (\<lambda>_. True)"
  by unfold_locales (auto dest: total_length)

text \<open>The state before an instruction, and what its execution leaves for the end of the step.\<close>

definition ready :: "'b xstate \<Rightarrow> bool" where
  "ready x \<longleftrightarrow> \<not> needTrap (xc x) \<and> \<not> is_instr_illegal x \<and> bare_access (core_env (xc x))"

definition completed :: "'b xstate \<Rightarrow> bool" where
  "completed x \<longleftrightarrow> (is_instr_illegal x \<longrightarrow> \<not> needTrap (xc x))"

lemma returns_then: "returnsR m Q \<Longrightarrow> (\<And>x. Q x \<Longrightarrow> returnsR (f x) P) \<Longrightarrow> returnsR (bindR m f) P"
  by (cases m) auto

lemma illegal_ret: "ready x \<Longrightarrow> returnsR (illegal x) completed"
  by (simp add: illegal_def ready_def completed_def)

lemma set_rd_ret: "i < 32 \<Longrightarrow> ready x \<Longrightarrow> returnsR (set_rd i v x) completed"
  by (auto simp: set_rd_def setGPR_def ready_def completed_def)

lemma ready_ret: "ready x \<Longrightarrow> completed x" "ready x \<Longrightarrow> completed (set_pc p x)"
  by (simp_all add: ready_def completed_def set_pc_def)

lemma set_rd_pc_ret: "i < 32 \<Longrightarrow> ready x \<Longrightarrow> returnsR (bindR (set_rd i v x) (\<lambda>x1. Inr (set_pc p x1))) completed"
  by (auto simp: set_rd_def setGPR_def ready_def completed_def set_pc_def)

text \<open>Traps other than the end of a page-fault loop.\<close>

definition plain_cause :: "u64 \<Rightarrow> bool" where
  "plain_cause cause \<longleftrightarrow> bget ca_cause cause \<noteq> exec_code exec_ok \<and> bget ca_cause cause \<noteq> exec_code exec_instr_pgfault"

lemma raiseTrap_ret: "plain_cause cause \<Longrightarrow> \<not> needTrap c \<Longrightarrow> returnsR (raiseTrap cause tval c) (\<lambda>_. True)"
  by (simp add: plain_cause_def raiseTrap_def Let_def)

lemma plain_causes:
  "fb \<noteq> exec_ok \<Longrightarrow> fb \<noteq> exec_instr_pgfault \<Longrightarrow> plain_cause (cause_of fb)"
  "plain_cause (mk_cause (priv_code p + 8) 0)"
  by (cases fb; simp add: plain_cause_def cause_of_def) (cases p; simp add: plain_cause_def)

lemma raise_ret:
  "plain_cause cause \<Longrightarrow> \<not> needTrap (xc x) \<Longrightarrow> \<not> is_instr_illegal x \<Longrightarrow>
   returnsR (raise_x cause tval x) (\<lambda>x'. completed x' \<and> \<not> is_instr_illegal x')"
  unfolding raise_x_def by (rule returns_then [OF raiseTrap_ret]) (simp_all add: completed_def)

lemma raise_completed:
  "plain_cause cause \<Longrightarrow> ready x \<Longrightarrow> returnsR (raise_x cause tval x) completed"
  by (rule returnsR_mono [OF raise_ret]) (auto simp: ready_def)

section \<open>Memory accesses\<close>

lemma memRead_ret:
  assumes "total_bus bus" "ready x"
  shows "returnsR (memRead bus a n x) (\<lambda>(ok, buf, x'). completed x' \<and>
    (ok \<longrightarrow> buf \<noteq> None \<and> \<not> needTrap (xc x') \<and> \<not> is_instr_illegal x'))"
proof (cases "a mod n = 0")
  case True
  have b: "bare_access (core_env (xc x))" "\<not> needTrap (xc x)" "\<not> is_instr_illegal x"
    using assms(2) by (simp_all add: ready_def)
  obtain fb r b1 where r: "PAddr_ReadBuffer_MMIOBus_API bus (xb x) a n = Inr (fb, r, b1)" "fb = MEMU_OK \<longrightarrow> r \<noteq> None"
    using total_read [OF assms(1), of "xb x" a n] by (auto simp: returnsR_iff)
  show ?thesis
  proof (cases "fb = MEMU_OK")
    case True
    then show ?thesis using \<open>a mod n = 0\<close> b r by (simp add: memRead_def VAddr_ReadBuffer_MMU_API_def completed_def)
  next
    case False
    have "returnsR (raise_x (cause_of exec_load_acc_fault) a (x\<lparr>xc := xc x, xb := b1\<rparr>)) completed"
      by (rule returnsR_mono [OF raise_ret]) (simp_all add: plain_causes b)
    then show ?thesis
      using \<open>a mod n = 0\<close> b r False
      by (simp add: memRead_def VAddr_ReadBuffer_MMU_API_def load_fault_def)
  qed
next
  case False
  then show ?thesis
    using raise_completed [OF plain_causes(1) assms(2), of exec_load_misalign a] by (simp add: memRead_def)
qed

lemma load_ret:
  assumes "total_bus bus" "ready x" "rd < 32"
  shows "returnsR (load_to bus a n conv rd x) completed"
  unfolding load_to_def
proof (rule returns_then [OF memRead_ret [OF assms(1,2)]], clarify)
  fix ok and buf :: "u8 list option" and x1 :: "'a xstate"
  assume "completed x1" "ok \<longrightarrow> buf \<noteq> None \<and> \<not> needTrap (xc x1) \<and> \<not> is_instr_illegal x1"
  then show "returnsR (if ok then bindR (initialised buf) (\<lambda>bs. set_rd rd (conv bs) x1) else Inr x1) completed"
    using assms(3) by (auto simp: set_rd_def setGPR_def completed_def)
qed

lemma write_ret:
  assumes "total_bus bus" "ready x"
  shows "returnsR (memWrite bus a bs x) completed"
proof (cases "a mod of_nat (length bs) = 0")
  case True
  have b: "bare_access (core_env (xc x))" "\<not> needTrap (xc x)" "\<not> is_instr_illegal x"
    using assms(2) by (simp_all add: ready_def)
  obtain fb b1 where r: "PAddr_WriteBuffer_MMIOBus_API bus (xb x) a bs = Inr (fb, b1)"
    using total_write [OF assms(1), of "xb x" a bs] by (auto simp: returnsR_iff)
  have "returnsR (raise_x (cause_of exec_store_acc_fault) a (x\<lparr>xc := xc x, xb := b1\<rparr>)) completed"
    by (rule returnsR_mono [OF raise_ret]) (simp_all add: plain_causes b)
  then show ?thesis
    using True b r
    by (simp add: memWrite_def VAddr_WriteBuffer_MMU_API_def store_fault_def completed_def)
next
  case False
  then show ?thesis
    using raise_completed [OF plain_causes(1) assms(2), of exec_store_misalign a] by (simp add: memWrite_def)
qed

section \<open>The 32-bit instructions\<close>

lemma reg_lt [simp]:
  "reg f_rd inst < 32" "reg f_rs1 inst < 32" "reg f_rs2 inst < 32"
  by (simp_all add: reg_bound field_defs)

lemma alu_exec_ret: "op \<noteq> ALU_NOP \<Longrightarrow> returnsR (alu_exec a b op w) (\<lambda>_. True)"
  by (cases op) (simp_all add: alu_exec_def Let_def)

lemma alu_to_ret: "op \<noteq> ALU_NOP \<Longrightarrow> i < 32 \<Longrightarrow> ready x \<Longrightarrow> returnsR (alu_to i a b op w x) completed"
  unfolding alu_to_def by (rule returns_then [OF alu_exec_ret]) (simp_all add: set_rd_ret)

lemma clear_bit_0: "(if v AND 1 \<noteq> 0 then v XOR 1 else v) = (v :: u64) AND NOT 1"
proof -
  have "(if bit v 0 then v XOR 1 else v) = v AND NOT 1"
  proof (rule bit_word_eqI)
    fix k assume "k < LENGTH(64)"
    then show "bit (if bit v 0 then v XOR 1 else v) k = bit (v AND NOT 1) k"
      by (cases k) (simp_all add: bit_and_iff bit_xor_iff bit_not_iff bit_1_iff)
  qed
  moreover have "v AND 1 \<noteq> 0 \<longleftrightarrow> bit v 0" by (simp add: and_one_eq bit_0 mod_2_eq_odd)
  ultimately show ?thesis by simp
qed

lemma decode_ops:
  "opimm_decode inst = Some (op, imm) \<Longrightarrow> op \<noteq> ALU_NOP" "opimm32_decode inst = Some (op, imm) \<Longrightarrow> op \<noteq> ALU_NOP"
  "op_decode f7 f3 = Some op \<Longrightarrow> op \<noteq> ALU_NOP" "op32_decode f7 f3 = Some op \<Longrightarrow> op \<noteq> ALU_NOP"
  by (auto simp: opimm_decode_def opimm32_decode_def op_decode_def op32_decode_def Let_def split: if_splits)

lemmas misaligned_ret = raise_completed [OF plain_causes(1) [of exec_instr_misalign, simplified]]

lemma integer_ret:
  assumes "ready x"
  shows "returnsR (exec_LUI inst x) completed" "returnsR (exec_AUIPC inst x) completed"
    "returnsR (exec_OPIMM inst x) completed" "returnsR (exec_OPIMM32 inst x) completed"
    "returnsR (exec_OP inst x) completed" "returnsR (exec_OP32 inst x) completed"
  using assms
  by (auto simp: exec_LUI_def exec_AUIPC_def exec_OPIMM_def exec_OPIMM32_def exec_OP_def exec_OP32_def
      set_rd_ret alu_to_ret illegal_ret decode_ops split: option.split)

lemma jump_ret:
  assumes "ready x"
  shows "returnsR (exec_JAL inst x) completed" "returnsR (exec_JALR inst x) completed"
    "returnsR (exec_BRANCH inst x) completed"
proof -
  have "ready (x\<lparr>is_new_pc_set := True\<rparr>)" using assms by (simp add: ready_def)
  then show "returnsR (exec_BRANCH inst x) completed"
    using assms by (auto simp: exec_BRANCH_def Let_def misaligned_ret ready_ret illegal_ret split: option.split bool.split)
  show "returnsR (exec_JAL inst x) completed"
    unfolding exec_JAL_def Let_def using assms by (simp add: misaligned_ret set_rd_pc_ret del: returnsR_bindR)
  show "returnsR (exec_JALR inst x) completed"
    unfolding exec_JALR_def Let_def clear_bit_0 using assms
    by (simp add: misaligned_ret set_rd_pc_ret del: returnsR_bindR)
qed

lemma memory_ret:
  assumes "total_bus bus" "ready x"
  shows "returnsR (exec_LOAD bus inst x) completed" "returnsR (exec_STORE bus inst x) completed"
  using assms by (simp_all add: exec_LOAD_def exec_STORE_def Let_def load_ret write_ret illegal_ret)

section \<open>Atomic instructions\<close>

lemma read_bare_ret:
  assumes "total_bus bus" "bare_access e"
  shows "returnsR (vaddrLoadReserved bus e m b a n) (\<lambda>(exc, r, m', b').
     (exc = exec_ok \<longrightarrow> r \<noteq> None) \<and> exc \<noteq> exec_instr_pgfault)"
  using assms(2) total_read [OF assms(1), of b a n] by (auto simp: vaddrLoadReserved_def returnsR_iff)

lemma sc_bare_ret:
  assumes "total_bus bus" "bare_access e"
  shows "returnsR (vaddrStoreConditional bus e m b a bs) (\<lambda>(exc, r, m', b').
     (exc = exec_ok \<longrightarrow> r \<noteq> None) \<and> exc \<noteq> exec_instr_pgfault)"
  using assms(2) total_write [OF assms(1), of b a bs] by (auto simp: vaddrStoreConditional_def Let_def returnsR_iff)

lemma amo_to_write_ret: "op \<noteq> AMOLR \<Longrightarrow> op \<noteq> AMOSC \<Longrightarrow> returnsR (amo_to_write op s v) (\<lambda>_. True)"
  by (cases op) (simp_all add: amo_to_write_def)

lemma amo_bare_ret:
  assumes "total_bus bus" "bare_access e" "n = 4 \<or> n = 8" "op \<noteq> AMOLR" "op \<noteq> AMOSC"
  shows "returnsR (vaddrAtomicMemOperation bus e m b a n op src) (\<lambda>(exc, r, m', b').
     (exc = exec_ok \<longrightarrow> r \<noteq> None) \<and> exc \<noteq> exec_instr_pgfault)"
proof -
  have "returnsR (pa_amo_op bus b a n op src) (\<lambda>(ok, r, b'). ok \<longrightarrow> r \<noteq> None)"
    unfolding pa_amo_op_def
  proof (rule returns_then [OF total_read [OF assms(1)]], clarify)
    fix fb and r :: "u8 list option" and b1
    assume r: "fb = MEMU_OK \<longrightarrow> r \<noteq> None"
    have tail: "returnsR (bindR (amo_to_write op src val) (\<lambda>w. bindR (PAddr_WriteBuffer_MMIOBus_API bus b1 a (to_bytes (unat n) w))
        (\<lambda>(feedback, b2). Inr (feedback = MEMU_OK, Some val, b2)))) (\<lambda>(ok, r, b'). ok \<longrightarrow> (\<exists>y. r = Some y))" for val
      by (rule returns_then [OF amo_to_write_ret [OF assms(4,5)]], rule returns_then [OF total_write [OF assms(1)]]) auto
    show "returnsR (if fb \<noteq> MEMU_OK then Inr (False, None, b1)
       else bindR (initialised r) (\<lambda>bs. let val = if n = 4 then scast (of_bytes bs :: u32) else of_bytes bs
         in bindR (amo_to_write op src val) (\<lambda>to_write. bindR (PAddr_WriteBuffer_MMIOBus_API bus b1 a (to_bytes (unat n) to_write))
           (\<lambda>(feedback, b2). Inr (feedback = MEMU_OK, Some val, b2)))))
       (\<lambda>(ok, r, b'). ok \<longrightarrow> r \<noteq> None)"
      using r by (auto simp: Let_def tail simp del: returnsR_bindR)
  qed
  then show ?thesis
    using assms(2,3) by (auto simp: vaddrAtomicMemOperation_def elim!: returnsR_mono)
qed

text \<open>What the three instructions do with the outcome.\<close>

lemma outcome_ret:
  assumes "ready x" "exc = exec_ok \<longrightarrow> r \<noteq> None" "exc \<noteq> exec_instr_pgfault" "rd < 32"
  shows "returnsR (let x1 = x\<lparr>xc := (xc x)\<lparr>sv39MMU := m1\<rparr>, xb := b1\<rparr> in
     if exc = exec_ok then bindR (initialised r) (\<lambda>v. set_rd rd (f v) x1) else raise_x (cause_of exc) a x1) completed"
proof (cases "exc = exec_ok")
  case True
  then show ?thesis
    using assms by (auto simp: set_rd_def setGPR_def completed_def ready_def Let_def)
next
  case False
  then show ?thesis
    using assms(1) by (simp add: Let_def) (rule returnsR_mono [OF raise_ret], auto simp: plain_causes assms(3) ready_def)
qed

lemma exec_AMO_ret:
  assumes "total_bus bus" "ready x"
  shows "returnsR (exec_AMO bus inst x) completed"
proof -
  have b: "bare_access (core_env (xc x))" using assms(2) by (simp add: ready_def)
  have o: "returnsR (bindR M (\<lambda>(exc, r, m1, b1). let x1 = x\<lparr>xc := (xc x)\<lparr>sv39MMU := m1\<rparr>, xb := b1\<rparr> in
      if exc = exec_ok then bindR (initialised r) (\<lambda>v. set_rd (reg f_rd inst) (f v) x1)
      else raise_x (cause_of exc) addr x1)) completed"
    if "returnsR M (\<lambda>(exc, r, m', b'). (exc = exec_ok \<longrightarrow> r \<noteq> None) \<and> exc \<noteq> exec_instr_pgfault)" for M f addr
    using that by (rule returns_then) (clarify, rule outcome_ret [OF assms(2)], auto)
  show ?thesis
    using assms(2) b
    by (auto simp: exec_AMO_def Let_def illegal_ret simp del: returnsR_bindR split: option.split AMO_Funct_enum.split
        intro!: o [unfolded Let_def] read_bare_ret sc_bare_ret amo_bare_ret assms(1))
qed

section \<open>System instructions\<close>

text \<open>The one write that the code guards by an assertion: the mode of \<open>mtvec\<close>.\<close>

definition accesses_mtvec :: "u32 \<Rightarrow> bool" where
  "accesses_mtvec inst \<longleftrightarrow> bget f_opcode inst = RV64I_OpCode_val OPCODE_SYSTEM \<and>
     csr_of (imm_i inst AND 0xfff) = Some csr_mtvec"

lemma mtvec_reserved_mode: "1 < bget tv_mode d \<Longrightarrow> csr_write (Some csr_mtvec) d c = Inl AssertionFailure"
  by (simp add: csr_write_def assertR_def linorder_not_less [symmetric])

lemma bget_1_not_2: "snd f = 1 \<Longrightarrow> bget f (w :: u64) \<noteq> 2"
proof
  assume "snd f = 1" "bget f w = 2"
  moreover from this(1) have "\<not> bit (bget f w) 1" by (simp add: bit_bget)
  ultimately show False by simp
qed

lemma csr_write_ret: "i \<noteq> Some csr_mtvec \<Longrightarrow> returnsR (csr_write i d c) (\<lambda>_. True)"
  by (auto simp: csr_write_def mstatus_write_def sstatus_write_def Let_def bget_1_not_2 field_defs
      split: option.split RV_CSR_Addr_enum.split)

lemma csr_write_calm: "csr_write i d c = Inr (Some c') \<Longrightarrow> needTrap c' = needTrap c"
  by (auto simp: csr_write_def res_eq_Inr split: option.splits RV_CSR_Addr_enum.splits if_splits)

lemma exec_csr_ret:
  assumes "ready x" "csr_of (imm_i inst AND 0xfff) \<noteq> Some csr_mtvec"
  shows "returnsR (exec_csr inst chk w new x) completed"
proof -
  have r: "\<not> needTrap (xc x)" "\<not> is_instr_illegal x" using assms(1) by (simp_all add: ready_def)
  have wr: "returnsR (if w then csr_write (csr_of (imm_i inst AND 0xfff)) d (xc x) else Inr (Some (xc x)))
      (\<lambda>r. \<forall>c. r = Some c \<longrightarrow> \<not> needTrap c)" for d
    using csr_write_ret [OF assms(2), of d "xc x"] r by (auto simp: returnsR_iff dest: csr_write_calm)
  have fin: "returnsR (case q of None \<Rightarrow> illegal x | Some c \<Rightarrow>
      if reg f_rd inst \<noteq> 0 then set_rd (reg f_rd inst) v (x\<lparr>xc := c\<rparr>) else Inr (x\<lparr>xc := c\<rparr>)) completed"
    if "\<forall>c. q = Some c \<longrightarrow> \<not> needTrap c" for q v
    using that r by (auto simp: illegal_def set_rd_def setGPR_def completed_def split: option.split)
  show ?thesis
  proof (cases "csr_op_permission_check (imm_i inst AND 0xfff) chk (xc x)")
    case perm: True
    show ?thesis
    proof (cases "csr_read (csr_of (imm_i inst AND 0xfff)) (xc x)")
      case None
      then show ?thesis by (simp add: exec_csr_def Let_def illegal_ret assms(1))
    next
      case (Some v)
      show ?thesis
        unfolding exec_csr_def Let_def Some
        by (simp only: perm simp_thms if_False option.case) (rule returns_then [OF wr fin])
    qed
  qed (simp add: exec_csr_def Let_def illegal_ret assms(1))
qed

lemma or_illegal_ret: "ready x \<Longrightarrow> returnsR (or_illegal r x) completed"
  by (auto simp: or_illegal_def illegal_def completed_def ready_def split: option.split)

lemma trap_ret: "plain_cause cause \<Longrightarrow> ready x \<Longrightarrow> returnsR (bindR (raiseTrap cause v (xc x)) (\<lambda>c. Inr (x\<lparr>xc := c\<rparr>))) completed"
  using raise_completed [of cause x v] by (simp add: raise_x_def)

lemma exec_PRIV_ret: "ready x \<Longrightarrow> returnsR (exec_PRIV inst x) completed"
  unfolding exec_PRIV_def Let_def ecall_def ebreak_def
  by (simp del: returnsR_bindR add: illegal_ret or_illegal_ret trap_ret plain_causes ready_ret)

lemma exec_SYSTEM_ret:
  assumes "ready x" "csr_of (imm_i inst AND 0xfff) \<noteq> Some csr_mtvec"
  shows "returnsR (exec_SYSTEM inst x) completed"
  using assms by (simp add: exec_SYSTEM_def Let_def exec_CSRRW_def exec_CSRRS_def exec_CSRRC_def exec_CSRRWI_def
      exec_CSRRSI_def exec_CSRRCI_def exec_csr_ret exec_PRIV_ret illegal_ret)

lemma exec_32_ret:
  assumes "total_bus bus" "ready x" "\<not> accesses_mtvec inst"
  shows "returnsR (exec_32 bus inst x) completed"
  using assms
  by (auto simp: exec_32_def Let_def integer_ret jump_ret memory_ret exec_AMO_ret exec_SYSTEM_ret illegal_ret ready_ret
      accesses_mtvec_def)

section \<open>The compressed instructions\<close>

lemma concat_lt: "r - l < 5 \<Longrightarrow> unat (binary_concat inst r l 0) < 2 ^ (r - l + 1)"
  using take_bit_nat_less_exp [of "r - l + 1" "unat (drop_bit l inst)"]
  by (simp add: binary_concat_def take_bit_eq_mask [symmetric] unsigned_take_bit_eq)

lemma c_reg_lt [simp]: "rreg inst 11 7 < 32" "rreg inst 6 2 < 32" "creg inst 9 7 < 32" "creg inst 4 2 < 32"
  using concat_lt [of 11 7 inst] concat_lt [of 6 2 inst] concat_lt [of 9 7 inst] concat_lt [of 4 2 inst]
  by (simp_all add: rreg_def creg_def)

lemma c_jump_ret: "ready x \<Longrightarrow> returnsR (c_jump link t x) completed"
  unfolding c_jump_def Let_def
  by (simp add: misaligned_ret set_rd_pc_ret ready_ret del: returnsR_bindR)

lemma exec_C_ret:
  assumes "total_bus bus" "ready x"
  shows "returnsR (exec_C bus inst x) completed"
proof -
  note defs = exec_C_ADDI4SPN_def exec_C_LW_def exec_C_LD_def exec_C_SW_def exec_C_SD_def exec_C_ADDI_def
    exec_C_ADDIW_def exec_C_LI_def exec_C_ADDI16SPN_LUI_def exec_C_J_def exec_C_BEQZ_def exec_C_BNEZ_def
    exec_C_SLLI_def exec_C_LWSP_def exec_C_LDSP_def exec_C_SWSP_def exec_C_SDSP_def
  have "returnsR (exec_C_ALU inst x) completed"
    unfolding exec_C_ALU_def Let_def using assms(2) by (simp add: alu_to_ret illegal_ret ready_ret)
  moreover have "returnsR (exec_C_JR_MV_EB_JALR_ADD inst x) completed"
    unfolding exec_C_JR_MV_EB_JALR_ADD_def Let_def ebreak_def using assms(2)
    by (simp del: returnsR_bindR add: alu_to_ret illegal_ret set_rd_ret c_jump_ret trap_ret plain_causes)
  ultimately show ?thesis
    using assms by (simp add: exec_C_def Let_def defs load_ret write_ret set_rd_ret alu_to_ret illegal_ret ready_ret)
qed

section \<open>The step\<close>

lemma finish_ret:
  assumes "completed x" "core_wf (xc x)"
  shows "returnsR (step_finish inst cmp x) (\<lambda>_. True)"
proof -
  have "returnsR (if is_instr_illegal x then raise_x (cause_of exec_illegal_instr) (ucast inst) x else Inr x) (\<lambda>x'. core_wf (xc x'))"
  proof (cases "is_instr_illegal x")
    case True
    then obtain c' where c': "raiseTrap (cause_of exec_illegal_instr) (ucast inst) (xc x) = Inr c'"
      using assms(1) raiseTrap_ret [OF plain_causes(1) [of exec_illegal_instr], of "xc x" "ucast inst"]
      by (auto simp: completed_def returnsR_iff)
    with core_wf_raiseTrap [OF assms(2)] have "core_wf c'" by (metis holdsR_D)
    then show ?thesis using True c' by (simp add: raise_x_def)
  qed (simp add: assms(2))
  then show ?thesis
    unfolding step_finish_def
    by (rule returns_then) (simp add: Let_def core_wf_def status_wf_blank)
qed

lemma executed_ret:
  assumes "returnsR M completed" "holdsR M (\<lambda>x'. core_wf (xc x'))"
  shows "returnsR (bindR M (step_finish inst cmp)) (\<lambda>_. True)"
proof (rule returns_then)
  show "returnsR M (\<lambda>x'. completed x' \<and> core_wf (xc x'))" using assms by (cases M) auto
qed (auto intro: finish_ret)

lemma fetch_bare_ret:
  assumes "total_bus bus" "bare_access e" "pc mod PC_ALIGN = 0"
  shows "returnsR (VAddr_InstFetch_MMU_API bus e m b pc 4 buf) (\<lambda>(fb, buf', m', b').
    m' = m \<and> (fb = INST_ACCESS_OK \<or> fb = INST_ACCESS_FAULT))"
proof -
  have bare: "env_priv e = M_MODE \<or> bget satp_mode (env_satp e) = 0" using assms(2) by (auto simp: bare_access_def)
  have even: "(pc + 2) mod 2 = 0" "pc mod 2 = 0"
    using assms(3) by (simp_all add: PC_ALIGN_def mod_2_eq_odd)
  have part: "returnsR (inst_fetch_part bus e m b1 a n buf1) (\<lambda>(fb, buf', m', b').
      m' = m \<and> (fb = INST_ACCESS_OK \<or> fb = INST_ACCESS_FAULT))" if "a mod 2 = 0" for a n b1 buf1
    unfolding inst_fetch_part_def that
    using total_read [OF assms(1), of b1 a n] bare by (auto simp: returnsR_iff)
  have half: "returnsR (bindR (inst_fetch_part bus e m b1 (pc + 2) 2 buf1) (\<lambda>(fb_2, high, m2, b2).
      Inr (if fb_2 \<noteq> VADDR_ACCESS_OK then fb_2 else VADDR_ACCESS_OK, f high, m2, b2)))
      (\<lambda>(fb, buf', m', b'). m' = m \<and> (fb = INST_ACCESS_OK \<or> fb = INST_ACCESS_FAULT))" for b1 buf1 f
    by (rule returns_then [OF part [OF even(1)]]) auto
  show ?thesis
    unfolding VAddr_InstFetch_MMU_API_def
    by (auto simp del: returnsR_bindR intro!: part even returns_then [OF part [OF even(2)]] half)
qed

lemma ready_mk: "\<not> needTrap c \<Longrightarrow> bare_access (core_env c) \<Longrightarrow>
    ready \<lparr>xc = c, xb = b, is_new_pc_set = False, is_instr_illegal = False\<rparr>"
  by (simp add: ready_def)

context paddr_bus
begin

lemma step_returns:
  assumes wf: "core_wf c" "binv b" and tot: "total_bus bus" and bare: "bare_access (core_env (preExec_update c))"
    and mtvec: "\<And>buf m b1. VAddr_InstFetch_MMU_API bus (core_env (preExec_update c)) (sv39MMU c) b
      (currentProgramCounter c) 4 [0, 0, 0, 0] = Inr (INST_ACCESS_OK, buf, m, b1) \<Longrightarrow> \<not> accesses_mtvec (of_bytes buf)"
  shows "returnsR (Step_CoreAPI bus c b) (\<lambda>_. True)"
proof -
  obtain c1 where c1: "preExec c = Inr c1" "needTrap c1 = takes_interrupt (preExec_update c)"
    "\<not> needTrap c1 \<Longrightarrow> c1 = preExec_update c"
    using preExec_spec [OF wf(1)] by (auto simp: returnsR_iff)
  have wf1: "core_wf c1" using core_wf_preExec [OF wf(1)] c1(1) by simp
  let ?x = "\<lambda>b. \<lparr>xc = c1, xb = b, is_new_pc_set = False, is_instr_illegal = False\<rparr>"
  have fin: "returnsR (bindR M (step_finish inst cmp)) (\<lambda>_. True)" if "returnsR M completed" "holdsR M xinv" for M inst cmp
    by (rule executed_ret [OF that(1)], rule holdsR_mono [OF that(2)]) (simp add: xinv_def)
  show ?thesis
  proof (cases "needTrap c1")
    case True
    then show ?thesis
      using finish_ret [of "?x b" 0 False] wf1 by (simp add: Step_CoreAPI_def c1(1) completed_def)
  next
    case False
    then have e: "c1 = preExec_update c" by (rule c1(3))
    have f: "currentProgramCounter c1 = currentProgramCounter c" "sv39MMU c1 = sv39MMU c"
      by (simp_all add: e preExec_update_def)
    have r: "ready (?x b')" for b' using False bare by (simp add: ready_mk e)
    have xi: "xinv (?x b')" if "binv b'" for b' using wf1 that by (simp add: xinv_def)
    show ?thesis
    proof (cases "currentProgramCounter c1 mod PC_ALIGN = 0")
      case odd: False
      then show ?thesis
        using False fin [OF misaligned_ret [OF r] raise_inv [OF xi [OF wf(2)]]]
        by (simp add: Step_CoreAPI_def c1(1) del: returnsR_bindR)
    next
      case even: True
      obtain fb buf b1 where fetch: "VAddr_InstFetch_MMU_API bus (core_env c1) (sv39MMU c1) b (currentProgramCounter c1) 4
          [0, 0, 0, 0] = Inr (fb, buf, sv39MMU c1, b1)" "fb = INST_ACCESS_OK \<or> fb = INST_ACCESS_FAULT"
        using fetch_bare_ret [OF tot bare [folded e] even, of "sv39MMU c1" b "[0, 0, 0, 0]"] by (auto simp: returnsR_iff)
      have b1: "binv b1"
        using fetch_inv [of "core_env c1" "sv39MMU c1" b "currentProgramCounter c1" 4 "[0, 0, 0, 0]"] wf1 wf(2)
        by (simp add: fetch(1) keeps_def core_wf_mmu)
      show ?thesis
      proof (cases "fb = INST_ACCESS_OK")
        case True
        have "\<not> accesses_mtvec (of_bytes buf)"
          using mtvec [of buf "sv39MMU c" b1] fetch(1) True by (simp add: e [symmetric] f)
        then show ?thesis
          using False even fetch(1) True
            fin [OF exec_32_ret [OF tot r] exec_32_inv [OF xi [OF b1]]] fin [OF exec_C_ret [OF tot r] exec_C_inv [OF xi [OF b1]]]
          by (simp add: Step_CoreAPI_def c1(1) Let_def del: returnsR_bindR)
      next
        case False
        have "plain_cause (mk_cause 1 0)" by (simp add: plain_cause_def)
        then show ?thesis
          using \<open>\<not> needTrap c1\<close> even fetch False fin [OF raise_completed [OF _ r] raise_inv [OF xi [OF b1]]]
          by (simp add: Step_CoreAPI_def c1(1) Let_def fetch_cause_def del: returnsR_bindR)
      qed
    qed
  qed
qed

end



end
