(* ===== verification/RV64_Safe.thy ===== *)
theory RV64_Safe
  imports RV64_Total
begin

unbundle bit_operations_syntax

text \<open>
  Absence of undefined behaviour: a step of a well-formed core in any mode, address translation
  included, on a bus that answers every access either returns or fails one of the assertions of
  the code; no array is left, no unwritten local is read, no null pointer is followed. What the
  assertions reject (a non-canonical address, a page table outside memory, a reserved mode in
  \<open>mtvec\<close>) is thereby the only way a guest can end the emulator from within a core.
\<close>

section \<open>Outcomes without undefined behaviour\<close>

definition safeR :: "'a res \<Rightarrow> ('a \<Rightarrow> bool) \<Rightarrow> bool" where
  "safeR m P = (case m of Inl c \<Rightarrow> c = AssertionFailure | Inr x \<Rightarrow> P x)"

lemma safeR_simps [simp]: "safeR (Inl c) P \<longleftrightarrow> c = AssertionFailure" "safeR (Inr x) P \<longleftrightarrow> P x"
  by (simp_all add: safeR_def)

lemma safeR_bindI: "safeR m Q \<Longrightarrow> (\<And>x. Q x \<Longrightarrow> safeR (f x) P) \<Longrightarrow> safeR (bindR m f) P"
  by (cases m) auto

lemma safeR_assertI: "(b \<Longrightarrow> safeR m P) \<Longrightarrow> safeR (assertR b m) P"
  by (cases b) auto

lemma safeR_mono: "safeR m Q \<Longrightarrow> (\<And>x. Q x \<Longrightarrow> P x) \<Longrightarrow> safeR m P"
  by (cases m) auto

lemma safeR_conj: "safeR m P \<Longrightarrow> holdsR m Q \<Longrightarrow> safeR m (\<lambda>x. P x \<and> Q x)"
  by (cases m) auto

lemma returnsR_safe: "returnsR m P \<Longrightarrow> safeR m P"
  by (cases m) auto

lemma safeR_initialised: "v \<noteq> None \<Longrightarrow> (\<And>x. v = Some x \<Longrightarrow> safeR (f x) P) \<Longrightarrow> safeR (bindR (initialised v) f) P"
  by auto

abbreviation safe :: "'a res \<Rightarrow> bool" where
  "safe m \<equiv> safeR m (\<lambda>_. True)"

lemma safe_then: "safe m \<Longrightarrow> (\<And>x. safeR (f x) P) \<Longrightarrow> safeR (bindR m f) P"
  by (cases m) auto

section \<open>Registers, traps and the integer instructions\<close>

lemma set_rd_safe: "safe (set_rd i v x)"
  by (auto simp: set_rd_def setGPR_def intro!: safeR_assertI safe_then)

lemma raiseTrap_safe: "safe (raiseTrap cause tval c)"
  by (auto simp: raiseTrap_def Let_def intro!: safeR_assertI)

lemma raise_safe: "safe (raise_x cause tval x)"
  unfolding raise_x_def by (rule safe_then [OF raiseTrap_safe]) simp

lemma illegal_safe: "safe (illegal x)"
  by (simp add: illegal_def)

lemma alu_exec_safe: "safe (alu_exec a b op w)"
  by (cases op) (simp_all add: alu_exec_def Let_def)

lemma alu_to_safe: "safe (alu_to rd a b op w x)"
  unfolding alu_to_def by (rule safe_then [OF alu_exec_safe]) (rule set_rd_safe)

lemmas basic_safe = set_rd_safe raise_safe illegal_safe alu_to_safe safeR_assertI safe_then [OF set_rd_safe]
  safe_then [OF raise_safe]

lemma integer_safe:
  "safe (exec_LUI inst x)" "safe (exec_AUIPC inst x)" "safe (exec_JAL inst x)" "safe (exec_JALR inst x)"
  "safe (exec_BRANCH inst x)" "safe (exec_OPIMM inst x)" "safe (exec_OPIMM32 inst x)" "safe (exec_OP inst x)"
  "safe (exec_OP32 inst x)"
  by (auto simp: exec_LUI_def exec_AUIPC_def exec_JAL_def exec_JALR_def exec_BRANCH_def exec_OPIMM_def
      exec_OPIMM32_def exec_OP_def exec_OP32_def Let_def split: option.split bool.split intro!: basic_safe)

section \<open>System instructions\<close>

lemma or_illegal_safe: "safe (or_illegal r x)"
  by (auto simp: or_illegal_def illegal_safe split: option.split)

lemma trap_safe: "safe (bindR (raiseTrap cause tval c) (\<lambda>c. Inr (x\<lparr>xc := c\<rparr>)))"
  by (rule safe_then [OF raiseTrap_safe]) simp

lemma exec_PRIV_safe: "safe (exec_PRIV inst x)"
  by (auto simp: exec_PRIV_def Let_def ecall_def ebreak_def intro!: basic_safe or_illegal_safe trap_safe)

lemma csr_write_safe: "safe (csr_write i d c)"
proof (cases "i = Some csr_mtvec")
  case True
  then show ?thesis by (auto simp: csr_write_def intro!: safeR_assertI)
qed (rule returnsR_safe [OF csr_write_ret])

lemma exec_csr_safe: "safe (exec_csr inst chk w new x)"
proof -
  have "safe (if w then csr_write csr d (xc x) else Inr (Some (xc x)))" for csr d
    by (simp add: csr_write_safe)
  then show ?thesis
    by (auto simp: exec_csr_def Let_def simp del: if_split split: option.split if_splits
        intro!: safe_then illegal_safe set_rd_safe csr_write_safe)
qed

lemma exec_SYSTEM_safe: "safe (exec_SYSTEM inst x)"
  by (simp add: exec_SYSTEM_def Let_def exec_CSRRW_def exec_CSRRS_def exec_CSRRC_def exec_CSRRWI_def
      exec_CSRRSI_def exec_CSRRCI_def exec_csr_safe exec_PRIV_safe illegal_safe)

section \<open>Translation\<close>

lemma total_read_safe:
  "total_bus bus \<Longrightarrow> safeR (PAddr_ReadBuffer_MMIOBus_API bus b a n) (\<lambda>(fb, r, b'). fb = MEMU_OK \<longrightarrow> r \<noteq> None)"
  by (rule returnsR_safe [OF total_read])

lemma total_write_safe: "total_bus bus \<Longrightarrow> safe (PAddr_WriteBuffer_MMIOBus_API bus b a bs)"
  by (rule returnsR_safe [OF total_write])

lemma bus_read_safe:
  "total_bus bus \<Longrightarrow> (\<And>fb r b'. fb = MEMU_OK \<longrightarrow> r \<noteq> None \<Longrightarrow> safeR (f (fb, r, b')) P) \<Longrightarrow>
   safeR (bindR (PAddr_ReadBuffer_MMIOBus_API bus b a n) f) P"
  by (rule safeR_bindI [OF total_read_safe]) auto

lemma bus_write_safe:
  "total_bus bus \<Longrightarrow> (\<And>fb b'. safeR (f (fb, b')) P) \<Longrightarrow> safeR (bindR (PAddr_WriteBuffer_MMIOBus_API bus b a bs) f) P"
  by (rule safe_then [OF total_write_safe]) auto

lemma read_pte_safe: "total_bus bus \<Longrightarrow> safe (read_pte bus b a)"
  unfolding read_pte_def by (rule bus_read_safe) (auto intro!: safeR_assertI)

lemma tlb_scan_safe: "safe (tlb_scan e va i ts found cache)"
  by (induction e va i ts found cache rule: tlb_scan.induct) (auto intro!: safeR_assertI simp del: fun_upd_apply)

lemma walk_safe:
  assumes "total_bus bus" "mmu_wf m"
  shows "safe (walk_l0 bus e m b a va)" "safe (walk_l1 bus e m b a va)" "safe (walk_l2 bus e m b va)"
proof -
  show l0: "safe (walk_l0 bus e m b a va)" for b a
    by (simp only: walk_l0_eq [OF assms(2)]) (rule safe_then [OF read_pte_safe [OF assms(1)]], simp split: prod.split)
  show l1: "safe (walk_l1 bus e m b a va)" for b a
    by (simp only: walk_l1_eq [OF assms(2)])
      (rule safe_then [OF read_pte_safe [OF assms(1)]], simp add: l0 split: prod.split)
  show "safe (walk_l2 bus e m b va)"
  proof (cases "bget satp_mode (env_satp e) = 8")
    case True
    then show ?thesis
      by (simp only: walk_l2_eq [OF assms(2)])
        (rule safe_then [OF read_pte_safe [OF assms(1)]], simp add: l1 split: prod.split)
  qed (simp add: walk_l2_def)
qed

lemma getTLBEntry_safe:
  assumes "total_bus bus" "mmu_wf m"
  shows "safe (getTLBEntry bus e m b va)"
proof -
  have "safe (bindR (tlb_scan e va 0 (tlb m) None (tlbGetCache m)) (\<lambda>(p, c).
      let m1 = m\<lparr>tlbGetCache := c\<rparr> in case p of Some i \<Rightarrow> Inr (Some i, m1, b) | None \<Rightarrow> walk_l2 bus e m1 b va))"
  proof (rule safeR_bindI [where Q = "\<lambda>(p, c). True \<and> mmu_wf (m\<lparr>tlbGetCache := c\<rparr>)"])
    have "holdsR (tlb_scan e va 0 (tlb m) None (tlbGetCache m)) (\<lambda>(p, c). mmu_wf (m\<lparr>tlbGetCache := c\<rparr>))"
      by (rule holdsR_I) (auto dest: tlb_scan_wf(1) [OF assms(2)])
    then show "safeR (tlb_scan e va 0 (tlb m) None (tlbGetCache m)) (\<lambda>(p, c). True \<and> mmu_wf (m\<lparr>tlbGetCache := c\<rparr>))"
      using safeR_conj [OF tlb_scan_safe] by (auto elim!: safeR_mono)
  qed (auto simp: Let_def split: option.split intro: walk_safe(3) [OF assms(1)])
  then show ?thesis
    by (auto simp: getTLBEntry_def split: option.split intro!: safeR_assertI)
qed

lemma lookup_safe:
  "total_bus bus \<Longrightarrow> mmu_wf m \<Longrightarrow> (\<And>p m' b'. safeR (f (p, m', b')) P) \<Longrightarrow> safeR (bindR (getTLBEntry bus e m b va) f) P"
  by (rule safe_then [OF getTLBEntry_safe]) auto

lemmas access_safe = bus_read_safe bus_write_safe lookup_safe safeR_assertI

lemma read_safe:
  "total_bus bus \<Longrightarrow> mmu_wf m \<Longrightarrow>
   safeR (VAddr_ReadBuffer_MMU_API bus e m b a n) (\<lambda>(fb, r, m', b'). fb = VADDR_ACCESS_OK \<longrightarrow> r \<noteq> None)"
  by (auto simp: VAddr_ReadBuffer_MMU_API_def Let_def split: option.split intro!: access_safe)

lemma write_safe: "total_bus bus \<Longrightarrow> mmu_wf m \<Longrightarrow> safe (VAddr_WriteBuffer_MMU_API bus e m b a bs)"
  by (auto simp: VAddr_WriteBuffer_MMU_API_def Let_def split: option.split intro!: access_safe)

lemma fetch_part_safe: "total_bus bus \<Longrightarrow> mmu_wf m \<Longrightarrow> safe (inst_fetch_part bus e m b a n buf)"
  by (auto simp: inst_fetch_part_def Let_def split: option.split intro!: access_safe)

lemma amo_to_write_safe: "safe (amo_to_write op s v)"
  by (cases op) (simp_all add: amo_to_write_def)

lemma pa_amo_safe:
  assumes "total_bus bus"
  shows "safeR (pa_amo_op bus b a n op src) (\<lambda>(ok, r, b'). ok \<longrightarrow> r \<noteq> None)"
  unfolding pa_amo_op_def
  by (rule bus_read_safe [OF assms])
    (auto simp: Let_def intro!: safeR_initialised safe_then [OF amo_to_write_safe] bus_write_safe [OF assms])

lemma pa_amo_then:
  "total_bus bus \<Longrightarrow> (\<And>ok r b'. ok \<longrightarrow> r \<noteq> None \<Longrightarrow> safeR (f (ok, r, b')) P) \<Longrightarrow>
   safeR (bindR (pa_amo_op bus b a n op src) f) P"
  by (rule safeR_bindI [OF pa_amo_safe]) auto

lemma atomic_safe:
  assumes "total_bus bus" "mmu_wf m"
  shows "safeR (vaddrLoadReserved bus e m b a n) (\<lambda>(exc, r, m', b'). exc = exec_ok \<longrightarrow> r \<noteq> None)"
    and "safeR (vaddrStoreConditional bus e m b a bs) (\<lambda>(exc, r, m', b'). exc = exec_ok \<longrightarrow> r \<noteq> None)"
    and "safeR (vaddrAtomicMemOperation bus e m b a n op src) (\<lambda>(exc, r, m', b'). exc = exec_ok \<longrightarrow> r \<noteq> None)"
  using assms
  by (auto simp: vaddrLoadReserved_def vaddrStoreConditional_def vaddrAtomicMemOperation_def Let_def
      split: option.split intro!: access_safe pa_amo_then) (blast+)

section \<open>Memory instructions\<close>

lemma core_mmu_wf: "core_wf c \<Longrightarrow> mmu_wf (sv39MMU c)"
  by (simp add: core_wf_def)

lemma load_safe:
  assumes "total_bus bus" "core_wf (xc x)"
  shows "safe (load_to bus a n conv rd x)"
proof -
  have "safeR (memRead bus a n x) (\<lambda>(ok, buf, x'). ok \<longrightarrow> buf \<noteq> None)"
    unfolding memRead_def Let_def
    by (auto intro!: basic_safe safeR_bindI [OF read_safe [OF assms(1) core_mmu_wf [OF assms(2)]]])
  then show ?thesis
    unfolding load_to_def by (rule safeR_bindI) (auto intro!: set_rd_safe)
qed

lemma store_safe:
  assumes "total_bus bus" "core_wf (xc x)"
  shows "safe (memWrite bus a bs x)"
  unfolding memWrite_def Let_def
  by (auto intro!: basic_safe safe_then [OF write_safe [OF assms(1) core_mmu_wf [OF assms(2)]]])

lemma exec_AMO_safe:
  assumes "total_bus bus" "core_wf (xc x)"
  shows "safe (exec_AMO bus inst x)"
  unfolding exec_AMO_def Let_def
  by (auto split: option.split AMO_Funct_enum.split
      intro!: basic_safe atomic_safe [OF assms(1) core_mmu_wf [OF assms(2)], THEN safeR_bindI])

lemma exec_32_safe:
  assumes "total_bus bus" "core_wf (xc x)"
  shows "safe (exec_32 bus inst x)"
  using assms
  by (simp add: exec_32_def Let_def integer_safe exec_LOAD_def exec_STORE_def load_safe store_safe exec_AMO_safe
      exec_SYSTEM_safe illegal_safe)

section \<open>Compressed instructions\<close>

lemma c_jump_safe: "safe (c_jump link t x)"
  by (auto simp: c_jump_def Let_def intro!: basic_safe)

lemma exec_C_safe:
  assumes "total_bus bus" "core_wf (xc x)"
  shows "safe (exec_C bus inst x)"
proof -
  note defs = exec_C_ADDI4SPN_def exec_C_LW_def exec_C_LD_def exec_C_SW_def exec_C_SD_def exec_C_ADDI_def
    exec_C_ADDIW_def exec_C_LI_def exec_C_ADDI16SPN_LUI_def exec_C_J_def exec_C_BEQZ_def exec_C_BNEZ_def
    exec_C_SLLI_def exec_C_LWSP_def exec_C_LDSP_def exec_C_SWSP_def exec_C_SDSP_def exec_C_ALU_def
  have "safe (exec_C_JR_MV_EB_JALR_ADD inst x)"
    by (auto simp: exec_C_JR_MV_EB_JALR_ADD_def Let_def ebreak_def intro!: basic_safe c_jump_safe trap_safe)
  then show ?thesis
    using assms by (simp add: exec_C_def Let_def defs load_safe store_safe set_rd_safe alu_to_safe illegal_safe)
qed

section \<open>The step\<close>

lemma finish_safe: "safe (step_finish inst cmp x)"
  unfolding step_finish_def Let_def
  by (rule safe_then) (auto simp: raise_safe intro!: safeR_assertI)

context paddr_bus
begin

lemma fetch_safe:
  assumes "total_bus bus" "keeps e m b"
  shows "safe (VAddr_InstFetch_MMU_API bus e m b a n buf)"
proof -
  have wf: "mmu_wf m" using assms(2) by (simp add: keeps_def mmu_ok_def)
  have "safeR (inst_fetch_part bus e m b a' n' buf') (\<lambda>(fb, buf', m', b'). mmu_wf m')" for a' n' buf'
    by (rule safeR_mono [OF safeR_conj [OF fetch_part_safe [OF assms(1) wf] fetch_part_inv [OF assms(2)]]])
      (auto simp: keeps_def mmu_ok_def)
  note first = safeR_bindI [OF this]
  show ?thesis
    unfolding VAddr_InstFetch_MMU_API_def
    by (auto intro!: first fetch_part_safe assms(1) wf safe_then [OF fetch_part_safe])
qed

lemma Step_safe:
  assumes "core_wf c" "binv b" "total_bus bus"
  shows "safe (Step_CoreAPI bus c b)"
proof -
  obtain c1 where c1: "preExec c = Inr c1" "core_wf c1"
    using preExec_spec [OF assms(1)] core_wf_preExec [OF assms(1)] by (cases "preExec c") auto
  have k: "keeps (core_env c1) (sv39MMU c1) b" using c1(2) assms(2) by (simp add: keeps_def core_wf_mmu)
  have "safeR (VAddr_InstFetch_MMU_API bus (core_env c1) (sv39MMU c1) b pc 4 buf)
      (\<lambda>(fb, buf', m', b'). core_wf (c1\<lparr>sv39MMU := m'\<rparr>))" for pc buf
    by (rule safeR_mono [OF safeR_conj [OF fetch_safe [OF assms(3) k] fetch_inv [OF k]]])
      (auto simp: keeps_def intro: core_wf_mmu(2) [OF c1(2)])
  note fetch = safeR_bindI [OF this]
  show ?thesis
    by (auto simp: Step_CoreAPI_def c1(1) Let_def
        intro!: finish_safe fetch basic_safe safe_then [OF exec_32_safe [OF assms(3)]] safe_then [OF exec_C_safe [OF assms(3)]])
qed

end

section \<open>Properties\<close>


text \<open>A core in U-mode that translates its addresses.\<close>

definition example_translating :: core where
  "example_translating = example_user\<lparr>satp := bput satp_mode 8 0, nextPrivMode := U_MODE\<rparr>"


end
