(* ===== verification/Platform.thy ===== *)
theory Platform
  imports Ram Uartlite Plic RV64_Inv
begin

unbundle bit_operations_syntax

text \<open>
  The default platform (\<open>modules/platform/default/include/DefaultPlatform.hpp\<close>): two cores, the
  RAM, the UART and the two interrupt controllers on one bus, and the run loop. The sizes of the
  devices are those of the module manifests (\<open>module_manifest.hpp\<close> of each module).
\<close>

section \<open>Devices of the platform\<close>

datatype device = is_Ram: Ram ram | is_Uart: Uart uartlite | is_Clint: Clint clint | is_Plic: Plic plic_dev

text \<open>The device object with another derived part; virtual calls dispatch on that part.\<close>

definition with_impl :: "'c mmio_dev \<Rightarrow> 'd \<Rightarrow> 'd mmio_dev" where
  "with_impl d i = \<lparr>devBaseAddr = devBaseAddr d, addrRegionSize = addrRegionSize d, devImpl = i\<rparr>"

definition as_device :: "('d \<Rightarrow> device) \<Rightarrow> 'd mmio_dev \<Rightarrow> device mmio_dev" where
  "as_device k d = with_impl d (k (devImpl d))"

definition dispatch_read :: "('d \<Rightarrow> device) \<Rightarrow> 'd read_method \<Rightarrow> 'd \<Rightarrow> device read_method" where
  "dispatch_read k method i this begin_addr sz =
     bindR (method (with_impl this i) begin_addr sz) (\<lambda>(fb, buffer, d). Inr (fb, buffer, as_device k d))"

definition dispatch_write :: "('d \<Rightarrow> device) \<Rightarrow> 'd write_method \<Rightarrow> 'd \<Rightarrow> device write_method" where
  "dispatch_write k method i this begin_addr buffer =
     bindR (method (with_impl this i) begin_addr buffer) (\<lambda>(fb, d). Inr (fb, as_device k d))"

definition device_read :: "device read_method" where
  "device_read this = (case devImpl this of
       Ram r \<Rightarrow> dispatch_read Ram ram_read r this
     | Uart u \<Rightarrow> dispatch_read Uart uart_read u this
     | Clint c \<Rightarrow> dispatch_read Clint clint_read c this
     | Plic p \<Rightarrow> dispatch_read Plic plic_read p this)"

definition device_write :: "device write_method" where
  "device_write this = (case devImpl this of
       Ram r \<Rightarrow> dispatch_write Ram ram_write r this
     | Uart u \<Rightarrow> dispatch_write Uart uart_write u this
     | Clint c \<Rightarrow> dispatch_write Clint clint_write c this
     | Plic p \<Rightarrow> dispatch_write Plic plic_write p this)"

definition device_ops :: "device dev_ops" where
  "device_ops = \<lparr>ReadBuffer_MMIODev_API = device_read, WriteBuffer_MMIODev_API = device_write\<rparr>"

text \<open>\<open>GetIrqStatus\<close>: the UART overrides the default of the base class.\<close>

definition device_GetIrqStatus :: "device mmio_dev \<Rightarrow> bool" where
  "device_GetIrqStatus this =
     (case devImpl this of Uart u \<Rightarrow> uart_GetIrqStatus (with_impl this u) | _ \<Rightarrow> False)"

definition device_inv :: "device mmio_dev \<Rightarrow> bool" where
  "device_inv d = (case devImpl d of
       Ram r \<Rightarrow> ram_inv (with_impl d r)
     | Uart u \<Rightarrow> True
     | Clint c \<Rightarrow> clint_inv (with_impl d c)
     | Plic p \<Rightarrow> plic_inv (with_impl d p))"

lemma with_impl_simps [simp]:
  "devBaseAddr (with_impl d i) = devBaseAddr d" "addrRegionSize (with_impl d i) = addrRegionSize d"
  "devImpl (with_impl d i) = i" "with_impl (with_impl d j) i = with_impl d i"
  "with_impl d (devImpl d) = d" "with_impl (d\<lparr>devImpl := x\<rparr>) i = with_impl d i"
  by (simp_all add: with_impl_def)

lemma as_device_simps [simp]:
  "devBaseAddr (as_device k d) = devBaseAddr d" "addrRegionSize (as_device k d) = addrRegionSize d"
  "devImpl (as_device k d) = k (devImpl d)"
  by (simp_all add: as_device_def)

lemma same_region_as:
  "same_region (as_device k d) e = same_region d e" "same_region d (with_impl e i) = same_region d e"
  "same_region (with_impl d i) e = same_region d e"
  by (simp_all add: same_region_def)

lemma with_impl_as_device: "with_impl (as_device k d) (devImpl d) = d"
  by (simp add: with_impl_def)

text \<open>Dispatching keeps the contract of each kind of device.\<close>

context mmio_device
begin

lemma dispatch_read_all:
  "dinv (with_impl d i) \<Longrightarrow> holdsR (dispatch_read k (ReadBuffer_MMIODev_API ops) i d a n)
     (\<lambda>(fb, r, d'). same_region d' d \<and> (\<exists>j. devImpl d' = k j \<and> dinv (with_impl d' j)) \<and>
       (\<forall>bs. r = Some bs \<longrightarrow> unat n < 2 ^ 63 \<longrightarrow> length bs = unat n))"
  unfolding dispatch_read_def
  by (rule holdsR_bindI [OF read_all]) (auto simp: same_region_as intro!: exI [of _ "devImpl _"] simp: with_impl_as_device)

lemma dispatch_write_all:
  "dinv (with_impl d i) \<Longrightarrow> holdsR (dispatch_write k (WriteBuffer_MMIODev_API ops) i d a bs)
     (\<lambda>(fb, d'). same_region d' d \<and> (\<exists>j. devImpl d' = k j \<and> dinv (with_impl d' j)))"
  unfolding dispatch_write_def
  by (rule holdsR_bindI [OF write_all]) (auto simp: same_region_as intro!: exI [of _ "devImpl _"] simp: with_impl_as_device)

end

lemmas dispatch_rules =
  ram.dispatch_read_all [where k = Ram, THEN holdsR_mono, unfolded ram_ops_def dev_ops.simps]
  ram.dispatch_write_all [where k = Ram, THEN holdsR_mono, unfolded ram_ops_def dev_ops.simps]
  uart.dispatch_read_all [OF TrueI, where k = Uart, THEN holdsR_mono, unfolded uart_ops_def dev_ops.simps]
  uart.dispatch_write_all [OF TrueI, where k = Uart, THEN holdsR_mono, unfolded uart_ops_def dev_ops.simps]
  clint.dispatch_read_all [where k = Clint, THEN holdsR_mono, unfolded clint_ops_def dev_ops.simps]
  clint.dispatch_write_all [where k = Clint, THEN holdsR_mono, unfolded clint_ops_def dev_ops.simps]
  plic.dispatch_read_all [where k = Plic, THEN holdsR_mono, unfolded plic_ops_def dev_ops.simps]
  plic.dispatch_write_all [where k = Plic, THEN holdsR_mono, unfolded plic_ops_def dev_ops.simps]

text \<open>What an access leaves: a device of the same kind and region whose contract holds.\<close>

definition same_kind :: "device \<Rightarrow> device \<Rightarrow> bool" where
  "same_kind d e \<longleftrightarrow> is_Ram d = is_Ram e \<and> is_Uart d = is_Uart e \<and> is_Clint d = is_Clint e \<and> is_Plic d = is_Plic e"

lemma device_read_all:
  assumes "device_inv d"
  shows "holdsR (device_read d a n) (\<lambda>(fb, r, d'). same_region d' d \<and> device_inv d' \<and>
    same_kind (devImpl d') (devImpl d) \<and> (\<forall>bs. r = Some bs \<longrightarrow> unat n < 2 ^ 63 \<longrightarrow> length bs = unat n))"
  using assms
  by (cases "devImpl d") (auto simp: device_read_def device_inv_def same_kind_def intro!: dispatch_rules)

lemma device_write_all:
  assumes "device_inv d"
  shows "holdsR (device_write d a bs) (\<lambda>(fb, d'). same_region d' d \<and> device_inv d' \<and> same_kind (devImpl d') (devImpl d))"
  using assms
  by (cases "devImpl d") (auto simp: device_write_def device_inv_def same_kind_def intro!: dispatch_rules)

interpretation devices: mmio_device device_ops device_inv
proof unfold_locales
qed (use device_read_all device_write_all in \<open>fastforce simp: device_ops_def dest: holdsR_D\<close>)+

section \<open>The board\<close>

text \<open>Handles of the device objects.\<close>

definition h_ram :: nat where "h_ram = 0"
definition h_uart :: nat where "h_uart = 1"
definition h_clint :: nat where "h_clint = 2"
definition h_plic :: nat where "h_plic = 3"

lemmas handles = h_ram_def h_uart_def h_clint_def h_plic_def

text \<open>Sizes of the regions, from the module manifests, and base addresses, from the constructor.\<close>

definition RAM_SIZE :: u64 where "RAM_SIZE = 0x100000000"
definition UART_SIZE :: u64 where "UART_SIZE = 0x100000"
definition CLINT_SIZE :: u64 where "CLINT_SIZE = 0x10000"
definition PLIC_SIZE :: u64 where "PLIC_SIZE = 0x4000000"
definition RAM_BASE :: u64 where "RAM_BASE = 0x80000000"
definition UART_BASE :: u64 where "UART_BASE = 0x60100000"
definition CLINT_BASE :: u64 where "CLINT_BASE = 0x2000000"
definition PLIC_BASE :: u64 where "PLIC_BASE = 0xc000000"

lemmas board_addresses = RAM_SIZE_def UART_SIZE_def CLINT_SIZE_def PLIC_SIZE_def
  RAM_BASE_def UART_BASE_def CLINT_BASE_def PLIC_BASE_def

record platform =
  sysBus :: "device mmio_bus"
  core0 :: core
  core1 :: core
  counter :: nat

text \<open>
  The body of the constructor, after it got its parts from the object factory; a part the factory
  did not find is the null pointer. The object a pointer leads to enters the heap of the bus when
  the constructor first hands it to the bus or to an interrupt controller, so that handles follow
  the order of the code. \<open>firmware\<close> is the image file, whose size is asked first (\<open>None\<close>: the file
  does not exist, \<open>file_size\<close> throws); it is copied to the start of the RAM.
\<close>

definition adopt :: "'d mmio_dev \<Rightarrow> 'd mmio_bus \<Rightarrow> 'd mmio_bus" where
  "adopt d b = b\<lparr>devHeap := devHeap b @ [d]\<rparr>"

definition read_image :: "u8 list option \<Rightarrow> u8 list res" where
  "read_image file = (case file of None \<Rightarrow> Inl UncaughtException | Some bin_data \<Rightarrow> Inr bin_data)"

text \<open>Both controllers are attached to the status words of core 0 and core 1 (\<open>GetIntStatusPtr_Core\<close>);
  by \<open>attach_both_cores\<close> their shortcuts then lead to these two, as the run loop below has it.\<close>

definition attach_cores ::
    "(nat \<Rightarrow> nat \<Rightarrow> int_ctrl_ptrs \<Rightarrow> (FuncReturnFeedback_e \<times> int_ctrl_ptrs) res) \<Rightarrow> int_ctrl_ptrs res" where
  "attach_cores attach = bindR (attach 0 0 new_int_ctrl_ptrs) (\<lambda>(_, p).
     bindR (attach 1 1 p) (\<lambda>(_, p). Inr p))"

definition device_RegisterDev :: "nat \<Rightarrow> nat \<Rightarrow> device mmio_dev \<Rightarrow> device mmio_dev res" where
  "device_RegisterDev int_id dev this = (case devImpl this of
       Plic p \<Rightarrow> Inr (with_impl this (Plic (snd (RegisterDev_IntCtrl_API p int_id dev))))
     | _ \<Rightarrow> Inl InvalidPointer)"

definition connect_platform ::
    "device mmio_bus option \<Rightarrow> core option \<Rightarrow> core option \<Rightarrow> device mmio_dev option \<Rightarrow> device mmio_dev option \<Rightarrow>
     device mmio_dev option \<Rightarrow> device mmio_dev option \<Rightarrow> u8 list option \<Rightarrow> platform res" where
  "connect_platform bus_ptr core0_ptr core1_ptr rvCLInt rvPLIC ram_ptr uartlite_ptr firmware =
     bindR (deref core0_ptr) (\<lambda>c0.
     bindR (deref core1_ptr) (\<lambda>c1.
     bindR (SetGPRByIndex_CoreAPI 10 1 (snd (WriteProgramCounter_CoreAPI 0x80000000 c1))) (\<lambda>(_, c1').
     bindR (read_image firmware) (\<lambda>bin_data.
     bindR (deref ram_ptr) (\<lambda>ram.
     bindR (device_write ram 0 bin_data) (\<lambda>(_, ram').
     bindR (deref bus_ptr) (\<lambda>b.
     bindR (RegisterMMIODev_MMIOBus_API (adopt ram' b) h_ram RAM_BASE) (\<lambda>(_, b1).
     bindR (deref uartlite_ptr) (\<lambda>uart.
     bindR (RegisterMMIODev_MMIOBus_API (adopt uart b1) h_uart UART_BASE) (\<lambda>(_, b2).
     bindR (deref rvCLInt) (\<lambda>clint.
     bindR (attach_cores AttachCoreIntStatus) (\<lambda>_.
     bindR (deref rvPLIC) (\<lambda>plic.
     bindR (attach_cores plic_AttachCoreIntStatus) (\<lambda>_.
     bindR (device_RegisterDev 1 h_uart plic) (\<lambda>plic'.
     bindR (RegisterMMIODev_MMIOBus_API (adopt plic' (adopt clint b2)) h_clint CLINT_BASE) (\<lambda>(_, b3).
     bindR (RegisterMMIODev_MMIOBus_API b3 h_plic PLIC_BASE) (\<lambda>(_, b4).
     Inr \<lparr>sysBus = b4, core0 = snd (WriteProgramCounter_CoreAPI 0x80000000 c0), core1 = c1', counter = 0\<rparr>)))))))))))))))))"

section \<open>The run loop\<close>

text \<open>
  The loop calls \<open>UpdateIntState_IntCtrl_API\<close> through the pointers \<open>rvCLInt\<close> and \<open>rvPLIC\<close>, which
  hold the CLINT and the PLIC; the other cases of the device type cannot occur
  (lemma \<open>iteration_wf\<close>).
\<close>

definition update_clint :: "platform \<Rightarrow> platform res" where
  "update_clint p =
     (let this = dev_of (sysBus p) h_clint in
      case devImpl this of
        Clint c \<Rightarrow>
          bindR (clint_UpdateIntState (with_impl this c) (intStatus (core0 p)) (intStatus (core1 p)))
            (\<lambda>(d, i0, i1).
          Inr (p\<lparr>sysBus := set_dev h_clint (as_device Clint d) (sysBus p),
                 core0 := (core0 p)\<lparr>intStatus := i0\<rparr>, core1 := (core1 p)\<lparr>intStatus := i1\<rparr>\<rparr>))
      | _ \<Rightarrow> Inl AssertionFailure)"

definition update_plic :: "platform \<Rightarrow> platform res" where
  "update_plic p =
     (let this = dev_of (sysBus p) h_plic in
      case devImpl this of
        Plic d \<Rightarrow>
          bindR (plic_UpdateIntState (\<lambda>h. device_GetIrqStatus (dev_of (sysBus p) h)) (with_impl this d)
                   (intStatus (core0 p)) (intStatus (core1 p)))
            (\<lambda>(d', i0, i1).
          Inr (p\<lparr>sysBus := set_dev h_plic (as_device Plic d') (sysBus p),
                 core0 := (core0 p)\<lparr>intStatus := i0\<rparr>, core1 := (core1 p)\<lparr>intStatus := i1\<rparr>\<rparr>))
      | _ \<Rightarrow> Inl AssertionFailure)"

abbreviation bus_table :: "device mmio_bus bus_ops" where
  "bus_table \<equiv> MEmu_bus_ops device_ops"

definition step_core0 :: "platform \<Rightarrow> platform res" where
  "step_core0 p = bindR (Step_CoreAPI bus_table (core0 p) (sysBus p)) (\<lambda>(c, b).
     Inr (p\<lparr>sysBus := b, core0 := c\<rparr>))"

definition step_core1 :: "platform \<Rightarrow> platform res" where
  "step_core1 p = bindR (Step_CoreAPI bus_table (core1 p) (sysBus p)) (\<lambda>(c, b).
     Inr (p\<lparr>sysBus := b, core1 := c\<rparr>))"

text \<open>Every hundredth round the UART talks to the terminal; the result holds what it printed.\<close>

definition dev_action :: "u8 list option \<Rightarrow> platform \<Rightarrow> (u8 list \<times> platform) res" where
  "dev_action input p =
     (if counter p + 1 = 100 then
        let this = dev_of (sysBus p) h_uart in
        case devImpl this of
          Uart u \<Rightarrow>
            (let (out, d) = uart_Step input (with_impl this u)
             in Inr (out, p\<lparr>sysBus := set_dev h_uart (as_device Uart d) (sysBus p), counter := 0\<rparr>))
        | _ \<Rightarrow> Inl AssertionFailure
      else Inr ([], p\<lparr>counter := counter p + 1\<rparr>))"

definition Run_iteration :: "u8 list option \<Rightarrow> platform \<Rightarrow> (u8 list \<times> platform) res" where
  "Run_iteration input p =
     bindR (update_clint p) (\<lambda>p1.
     bindR (update_plic p1) (\<lambda>p2.
     bindR (step_core0 p2) (\<lambda>p3.
     bindR (step_core1 p3) (dev_action input))))"

text \<open>The endless loop, cut after as many rounds as there are entries of terminal input.\<close>

primrec Run_Platform_API :: "u8 list option list \<Rightarrow> platform \<Rightarrow> (u8 list \<times> platform) res" where
  "Run_Platform_API [] p = Inr ([], p)"
| "Run_Platform_API (input # inputs) p =
     bindR (Run_iteration input p) (\<lambda>(out, p1).
     bindR (Run_Platform_API inputs p1) (\<lambda>(rest, p2). Inr (out @ rest, p2)))"

section \<open>The invariant of the platform\<close>

definition wired :: "(device \<Rightarrow> bool) \<Rightarrow> u64 \<Rightarrow> u64 \<Rightarrow> device mmio_dev \<Rightarrow> bool" where
  "wired is_kind base region_size d \<longleftrightarrow>
     is_kind (devImpl d) \<and> devBaseAddr d = base \<and> addrRegionSize d = region_size"

definition board_wf :: "device mmio_bus \<Rightarrow> bool" where
  "board_wf b \<longleftrightarrow> bus_wf device_inv b \<and> length (devHeap b) = 4 \<and>
     set (mmioDevs b) = {h_ram, h_uart, h_clint, h_plic} \<and>
     wired is_Ram RAM_BASE RAM_SIZE (dev_of b h_ram) \<and> wired is_Uart UART_BASE UART_SIZE (dev_of b h_uart) \<and>
     wired is_Clint CLINT_BASE CLINT_SIZE (dev_of b h_clint) \<and> wired is_Plic PLIC_BASE PLIC_SIZE (dev_of b h_plic)"

definition platform_wf :: "platform \<Rightarrow> bool" where
  "platform_wf p \<longleftrightarrow> board_wf (sysBus p) \<and> core_wf (core0 p) \<and> core_wf (core1 p) \<and> counter p < 100"

lemma wired_same:
  "wired P base sz d \<Longrightarrow> same_region d' d \<Longrightarrow> same_kind (devImpl d') (devImpl d) \<Longrightarrow>
   P \<in> {is_Ram, is_Uart, is_Clint, is_Plic} \<Longrightarrow> wired P base sz d'"
  by (auto simp: wired_def same_region_def same_kind_def)

lemma board_set_dev:
  assumes "board_wf b" "h \<in> set (mmioDevs b)" "same_region d (dev_of b h)" "device_inv d"
    and "same_kind (devImpl d) (devImpl (dev_of b h))"
  shows "board_wf (set_dev h d b)"
proof -
  have "h < length (devHeap b)" using assms(1,2) by (auto simp: board_wf_def handles)
  moreover have "bus_wf device_inv (set_dev h d b)"
    using assms by (intro bus_wf_set_dev) (simp_all add: board_wf_def)
  moreover have "wired P base sz (dev_of b k) \<Longrightarrow> P \<in> {is_Ram, is_Uart, is_Clint, is_Plic} \<Longrightarrow>
      wired P base sz (dev_of (set_dev h d b) k)" for P base sz k
    using wired_same [OF _ assms(3,5)] calculation(1) by (cases "k = h") (simp_all add: dev_of_set_dev)
  moreover have "mmioDevs (set_dev h d b) = mmioDevs b" "length (devHeap (set_dev h d b)) = length (devHeap b)"
    by (simp_all add: set_dev_def)
  ultimately show ?thesis
    using assms(1) unfolding board_wf_def by simp
qed

text \<open>A bus access replaces at most one device, by one of its kind.\<close>

lemma find_board:
  assumes "board_wf b" "findDevAccordingToAddr b a = (fb, dev, b')"
  shows "board_wf b'" "dev = Some h \<Longrightarrow> h \<in> set (mmioDevs b') \<and> device_inv (dev_of b' h)"
proof -
  have wf: "bus_wf device_inv b" using assms(1) by (simp add: board_wf_def)
  then have w: "devs_wf b" "cache_sound b" by (simp_all add: bus_wf_def)
  note s = find_spec [OF w assms(2)]
  have b': "bus_wf device_inv b'"
    using devices.bus_wf_find [OF wf] devices.bus_wf_find_None [OF wf] assms(2) by (cases dev) auto
  with s show "board_wf b'" using assms(1) by (simp add: board_wf_def dev_of_def)
  show "dev = Some h \<Longrightarrow> h \<in> set (mmioDevs b') \<and> device_inv (dev_of b' h)"
    using devices.bus_wf_find [OF wf] assms(2) by auto
qed

lemma board_read:
  assumes "board_wf b"
  shows "holdsR (bus_read device_ops b a n)
    (\<lambda>(fb, r, b'). board_wf b' \<and> (\<forall>bs. r = Some bs \<longrightarrow> unat n < 2 ^ 63 \<longrightarrow> length bs = unat n))"
proof -
  obtain fb dev b1 where f: "findDevAccordingToAddr b a = (fb, dev, b1)" by (metis prod_cases3)
  note s = find_board [OF assms f]
  show ?thesis
  proof (cases dev)
    case None
    with f s(1) show ?thesis by (simp add: bus_read_def)
  next
    case (Some h)
    note d = s(2) [OF Some]
    have "holdsR (device_read (dev_of b1 h) (a - devBaseAddr (dev_of b1 h)) n) (\<lambda>(_, r, d). board_wf (set_dev h d b1) \<and>
        (\<forall>bs. r = Some bs \<longrightarrow> unat n < 2 ^ 63 \<longrightarrow> length bs = unat n))"
      by (rule holdsR_mono [OF device_read_all]) (use d s(1) in \<open>auto intro!: board_set_dev\<close>)
    with f Some s(1) show ?thesis
      by (auto simp: bus_read_def device_ops_def split_def Let_def elim!: holdsR_mono)
  qed
qed

lemma board_write:
  assumes "board_wf b"
  shows "holdsR (bus_write device_ops b a bs) (\<lambda>(fb, b'). board_wf b')"
proof -
  obtain fb dev b1 where f: "findDevAccordingToAddr b a = (fb, dev, b1)" by (metis prod_cases3)
  note s = find_board [OF assms f]
  show ?thesis
  proof (cases dev)
    case None
    with f s(1) show ?thesis by (simp add: bus_write_def)
  next
    case (Some h)
    note d = s(2) [OF Some]
    have "holdsR (device_write (dev_of b1 h) (a - devBaseAddr (dev_of b1 h)) bs) (\<lambda>(_, d). board_wf (set_dev h d b1))"
      by (rule holdsR_mono [OF device_write_all]) (use d s(1) in \<open>auto intro!: board_set_dev\<close>)
    with f Some s(1) show ?thesis
      by (auto simp: bus_write_def device_ops_def split_def Let_def elim!: holdsR_mono)
  qed
qed

interpretation board: paddr_bus bus_table board_wf
proof unfold_locales
qed (use board_read board_write in \<open>fastforce simp: MEmu_bus_ops_def dest: holdsR_D\<close>)+

lemma core_wf_intStatus: "core_wf (c\<lparr>intStatus := i\<rparr>) = core_wf c"
  by (simp add: core_wf_def)

lemma board_kinds:
  "board_wf b \<Longrightarrow> \<exists>r. devImpl (dev_of b h_ram) = Ram r"
  "board_wf b \<Longrightarrow> \<exists>u. devImpl (dev_of b h_uart) = Uart u"
  "board_wf b \<Longrightarrow> \<exists>c. devImpl (dev_of b h_clint) = Clint c"
  "board_wf b \<Longrightarrow> \<exists>p. devImpl (dev_of b h_plic) = Plic p"
  by (auto simp: board_wf_def wired_def is_Ram_def is_Uart_def is_Clint_def is_Plic_def)

lemma board_device_inv: "board_wf b \<Longrightarrow> h \<in> {h_ram, h_uart, h_clint, h_plic} \<Longrightarrow> device_inv (dev_of b h)"
  by (simp add: board_wf_def bus_wf_def)

lemma board_handles: "board_wf b \<Longrightarrow> set (mmioDevs b) = {h_ram, h_uart, h_clint, h_plic}"
  by (simp add: board_wf_def)

text \<open>The interrupt controllers always answer.\<close>

lemma update_clint_wf:
  assumes "platform_wf p"
  shows "returnsR (update_clint p) (\<lambda>p'. platform_wf p' \<and> counter p' = counter p)"
proof -
  have b: "board_wf (sysBus p)" using assms by (simp add: platform_wf_def)
  then obtain c where c: "devImpl (dev_of (sysBus p) h_clint) = Clint c" using board_kinds(3) by blast
  have i: "clint_inv (with_impl (dev_of (sysBus p) h_clint) c)"
    using board_device_inv [OF b, of h_clint] c by (simp add: device_inv_def)
  then have w: "clint_wf clint_harts c" by (simp add: clint_inv_def)
  have "board_wf (set_dev h_clint (with_impl (dev_of (sysBus p) h_clint) (Clint (clint_tick c))) (sysBus p))"
    using b c clint_wf_tick [OF w] board_handles [OF b]
    by (intro board_set_dev) (auto simp: same_region_def device_inv_def same_kind_def clint_inv_def)
  then show ?thesis
    using assms c w clint_wf_tick [OF w]
    by (simp add: update_clint_def clint_UpdateIntState_def Let_def m_s_irq_wf m_t_irq_wf clint_harts_def
        platform_wf_def core_wf_intStatus as_device_def)
qed

lemma update_plic_wf:
  assumes "platform_wf p"
  shows "returnsR (update_plic p) (\<lambda>p'. platform_wf p' \<and> counter p' = counter p)"
proof -
  have b: "board_wf (sysBus p)" using assms by (simp add: platform_wf_def)
  then obtain c where c: "devImpl (dev_of (sysBus p) h_plic) = Plic c" using board_kinds(4) by blast
  have i: "plic_inv (with_impl (dev_of (sysBus p) h_plic) c)"
    using board_device_inv [OF b, of h_plic] c by (simp add: device_inv_def)
  have "board_wf (set_dev h_plic (as_device Plic d) (sysBus p))"
    if "plic_inv d" "same_region d (with_impl (dev_of (sysBus p) h_plic) c)" for d
    using b c board_handles [OF b] that
    by (intro board_set_dev) (auto simp: same_region_as device_inv_def same_kind_def with_impl_as_device)
  then show ?thesis
    using assms c
    by (auto simp: update_plic_def Let_def platform_wf_def core_wf_intStatus
        intro!: returnsR_mono [OF plic_UpdateIntState_returns [OF i]])
qed

lemma step_core_wf:
  assumes "platform_wf p"
  shows "holdsR (step_core0 p) (\<lambda>p'. platform_wf p' \<and> counter p' = counter p)"
    and "holdsR (step_core1 p) (\<lambda>p'. platform_wf p' \<and> counter p' = counter p)"
  using assms
  by (auto simp: step_core0_def step_core1_def platform_wf_def intro!: holdsR_mono [OF board.Step_inv])

lemma dev_action_wf:
  assumes "platform_wf p"
  shows "returnsR (dev_action input p) (\<lambda>(out, p'). platform_wf p')"
proof -
  have b: "board_wf (sysBus p)" using assms by (simp add: platform_wf_def)
  then obtain u where u: "devImpl (dev_of (sysBus p) h_uart) = Uart u" using board_kinds(2) by blast
  have "board_wf (set_dev h_uart (as_device Uart d) (sysBus p))"
    if "same_region d (dev_of (sysBus p) h_uart)" for d
    using b u board_handles [OF b] that
    by (intro board_set_dev) (auto simp: same_region_as device_inv_def same_kind_def)
  moreover have "uart_Step input (with_impl d u) = (out, d') \<Longrightarrow> same_region d' d" for d d' out
    by (auto simp: uart_Step_def same_region_def split_def Let_def)
  ultimately show ?thesis
    using assms u by (auto simp: dev_action_def Let_def platform_wf_def split: prod.split)
qed

lemma wf_then:
  "holdsR m (\<lambda>p'. platform_wf p' \<and> counter p' = k) \<Longrightarrow> (\<And>p'. platform_wf p' \<Longrightarrow> holdsR (f p') P) \<Longrightarrow>
   holdsR (bindR m f) P"
  by (erule holdsR_bindI) simp

lemmas rounds_then = wf_then [OF returnsR_holdsR [OF update_clint_wf]] wf_then [OF returnsR_holdsR [OF update_plic_wf]]
  wf_then [OF step_core_wf(1)] wf_then [OF step_core_wf(2)] returnsR_holdsR [OF dev_action_wf]

lemma iteration_wf: "platform_wf p \<Longrightarrow> holdsR (Run_iteration input p) (\<lambda>(out, p'). platform_wf p')"
  unfolding Run_iteration_def by (intro rounds_then)

lemma run_wf: "platform_wf p \<Longrightarrow> holdsR (Run_Platform_API inputs p) (\<lambda>(out, p'). platform_wf p')"
proof (induction inputs arbitrary: p)
  case Nil
  then show ?case by simp
next
  case (Cons i inputs)
  show ?case
    by (auto simp del: holdsR_bindR intro!: holdsR_bindI [OF iteration_wf [OF Cons.prems]] holdsR_bindI [OF Cons.IH])
qed

section \<open>A new platform is well-formed\<close>

lemma core_wf_start:
  "core_wf c \<Longrightarrow> core_wf (c\<lparr>currentProgramCounter := p\<rparr>)"
  "core_wf c \<Longrightarrow> i \<noteq> 0 \<Longrightarrow> core_wf (c\<lparr>currentProgramCounter := p, GPR := (GPR c)[i := v]\<rparr>)"
  by (simp_all add: core_wf_def)

lemma plic_inv_registered:
  "plic_inv \<lparr>devBaseAddr = x, addrRegionSize = y, devImpl =
     snd (RegisterDev_IntCtrl_API \<lparr>plicCtrl = new_plic 4 4, intDevMap = []\<rparr> 1 h)\<rparr>"
  using plic_wf_new [of 4 4] by (simp add: plic_inv_def RegisterDev_IntCtrl_API_def on_dev_map_def dev_map_register_def) (simp add: new_plic_def)

text \<open>The parts as their modules construct them.\<close>

definition ram_part :: "(u64 \<Rightarrow> u8) \<Rightarrow> device mmio_dev" where
  "ram_part junk = as_device Ram (new_ram junk RAM_SIZE)"

definition uart_part :: "device mmio_dev" where
  "uart_part = as_device Uart (new_uart_dev UART_SIZE)"

definition clint_part :: "device mmio_dev" where
  "clint_part = as_device Clint (new_clint_dev CLINT_SIZE)"

definition plic_part :: "device mmio_dev" where
  "plic_part = as_device Plic (new_plic_dev PLIC_SIZE)"

lemma attach_cores_returns:
  "returnsR (attach_cores AttachCoreIntStatus) (\<lambda>p. core0IntStatus p = Some 0 \<and> core1IntStatus p = Some 1)"
  unfolding attach_cores_def split_def returnsR_bindR
  by (rule returnsR_mono [OF attach_both_cores(2) [of 0 1, unfolded split_def returnsR_bindR]]) (auto elim: returnsR_mono)

lemma attach_cores_ok:
  "returnsR (attach_cores AttachCoreIntStatus) (\<lambda>_. P) = P"
  "returnsR (attach_cores plic_AttachCoreIntStatus) (\<lambda>_. P) = P"
  using attach_cores_returns by (auto simp: returnsR_iff plic_attaches_alike)

lemma core_wf_GPR: "core_wf c \<Longrightarrow> length (GPR c) = 32"
  by (simp add: core_wf_def)

text \<open>The state in which the run loop starts: both cores in M-mode at the image, the image at the start
  of the RAM, and the number of the second core in its register a0.\<close>

definition booted :: "u8 list \<Rightarrow> platform \<Rightarrow> bool" where
  "booted firmware p \<longleftrightarrow> platform_wf p \<and> counter p = 0 \<and>
     currentProgramCounter (core0 p) = RAM_BASE \<and> currentProgramCounter (core1 p) = RAM_BASE \<and>
     nextPrivMode (core0 p) = M_MODE \<and> nextPrivMode (core1 p) = M_MODE \<and> gpr (core1 p) 10 = 1 \<and>
     (case devImpl (dev_of (sysBus p) h_ram) of
        Ram r \<Rightarrow> load_bytes (memData r) 0 (length firmware) = firmware
      | _ \<Rightarrow> False)"

lemma connect_platform_booted:
  assumes "core_wf c0" "core_wf c1" "length firmware \<le> 2 ^ 32" "nextPrivMode c0 = M_MODE" "nextPrivMode c1 = M_MODE"
  shows "returnsR (connect_platform (Some (new_bus [])) (Some c0) (Some c1) (Some clint_part) (Some plic_part)
    (Some (ram_part junk)) (Some uart_part) (Some firmware)) (booted firmware)"
  using assms plic_inv_registered clint_wf_new [of 2]
  by (simp add: connect_platform_def Let_def new_bus_def WriteProgramCounter_CoreAPI_def SetGPRByIndex_CoreAPI_def
      dev_of_def handles device_write_def dispatch_write_def ram_write_def in_block_def new_ram_def board_addresses
      RegisterMMIODev_MMIOBus_API_def set_dev_def isAddrRegionConflict_def as_device_def with_impl_def setDevBaseAddr_def
      new_uart_dev_def new_clint_dev_def new_plic_dev_def adopt_def read_image_def ram_part_def uart_part_def
      clint_part_def plic_part_def device_RegisterDev_def)
    (simp add: attach_cores_ok booted_def load_store_same gpr_def core_wf_GPR platform_wf_def core_wf_start board_wf_def
      bus_wf_def devs_wf_def cache_sound_def wired_def dev_of_def handles
      board_addresses region_ok_def regions_apart_def dev_end_def device_inv_def with_impl_def ram_inv_def clint_inv_def
      clint_harts_def insert_commute)

text \<open>A missing part ends the process, before anything runs.\<close>

lemma connect_platform_null:
  assumes "returnsR (connect_platform bus c0 c1 clint plic ram uart firmware) P"
  shows "bus \<noteq> None \<and> c0 \<noteq> None \<and> c1 \<noteq> None \<and> clint \<noteq> None \<and> plic \<noteq> None \<and> ram \<noteq> None \<and> uart \<noteq> None \<and> firmware \<noteq> None"
  using assms
  by (auto simp: connect_platform_def read_image_def returnsR_iff bindR_eq_Inr deref_def split: option.splits)

section \<open>Delivery of the timer interrupt\<close>

lemma and_int_bit: "w AND int_bit i = (if bit w (int_code i) then int_bit i else 0)"
  by (rule bit_word_eqI) (auto simp: int_bit_def bit_simps)

lemma timer_only:
  "bits_to_int_type (int_bit int_m_timer) = int_m_timer" "int_bit int_m_timer \<noteq> 0"
  "\<not> bit S_MODE_INT_MASK (int_code int_m_timer)" "bget ca_cause (int_cause int_m_timer) = 7"
  by code_simp+

lemma core_wf_deleg:
  assumes "core_wf c"
  shows "\<not> bit (csrMIntDelegation c) (int_code int_m_timer)"
proof
  assume b: "bit (csrMIntDelegation c) (int_code int_m_timer)"
  have "csrMIntDelegation c AND NOT S_MODE_INT_MASK = 0" using assms by (simp add: core_wf_def)
  then have "\<not> bit (csrMIntDelegation c AND NOT S_MODE_INT_MASK) (int_code int_m_timer)" by simp
  with b timer_only(3) show False by (simp add: bit_simps)
qed

lemma pending_timer: "bit (csrIntPending (preExec_update c)) (int_code int_m_timer) = mtip (intStatus c)"
  by (simp add: preExec_update_def bit_bput field_defs)

lemma bget_one_bit: "bget (i, Suc 0) w = of_bool (bit w i)"
  by (rule bit_word_eqI) (auto simp: bit_bget bit_simps)

lemma step_takes_timer:
  assumes wf: "core_wf c" and m: "nextPrivMode c = M_MODE" and e: "bflag ms_mie (status c)"
    and en: "csrIntEnable c = int_bit int_m_timer" and t: "mtip (intStatus c)"
  shows "returnsR (Step_CoreAPI bus c b) (\<lambda>(c', b'). b' = b \<and>
    currentProgramCounter c' = trap_vector (csrMTrapVecBaseAddr c) (int_cause int_m_timer) \<and>
    csrMExceptionPC c' = currentProgramCounter c \<and> csrMachineCause c' = int_cause int_m_timer \<and>
    nextPrivMode c' = M_MODE \<and> \<not> bflag ms_mie (status c') \<and> bflag ms_mpie (status c') \<and> GPR c' = GPR c)"
proof -
  let ?c = "preExec_update c"
  have f: "nextPrivMode ?c = M_MODE" "currentPrivMode ?c = M_MODE" "\<not> needTrap ?c" "status ?c = status c"
    "csrIntEnable ?c = int_bit int_m_timer" "csrMIntDelegation ?c = csrMIntDelegation c" "GPR ?c = GPR c"
    "csrMTrapVecBaseAddr ?c = csrMTrapVecBaseAddr c" "currentProgramCounter ?c = currentProgramCounter c"
    using m en by (simp_all add: preExec_update_def)
  have "csrIntPending ?c AND int_bit int_m_timer = int_bit int_m_timer"
    using t pending_timer [of c] by (simp add: and_int_bit)
  moreover have "int_bit int_m_timer AND NOT (csrMIntDelegation c) = int_bit int_m_timer"
    using core_wf_deleg [OF wf] by (subst and.commute) (simp add: and_int_bit bit_simps)
  ultimately have pre: "preExec c = raiseTrap (int_cause int_m_timer) 0 ?c"
    using e by (simp add: preExec_def Let_def f timer_only)
  have "status_wf (status c)" using wf by (simp add: core_wf_def)
  then have blank: "bget ms_blank0 (status c) = 0" "bget ms_blank1 (status c) = 0" "bget ms_blank2 (status c) = 0"
    "bget ms_blank3 (status c) = 0" "bget ms_blank4 (status c) = 0"
    by (simp_all add: status_wf_blank)
  have other: "bget g (bput ms_mpp x (bput ms_mie y (bput ms_mpie z s))) = bget g s"
    if "g \<in> {ms_blank0, ms_blank1, ms_blank2, ms_blank3, ms_blank4}" for g x y z s
    using that by (auto simp: bget_bput_other disjoint_fields_def field_defs)
  have nt: "\<not> trap_to_S (int_cause int_m_timer) ?c" by (simp add: trap_to_S_def f)
  show ?thesis
    using e by (simp add: Step_CoreAPI_def pre raiseTrap_def f timer_only nt step_finish_def Let_def blank other)
      (simp add: bflag_def bget_bput_same bget_bput_other disjoint_fields_def field_defs bget_one_bit bit_bput)
qed

section \<open>Properties\<close>


text \<open>A platform to apply the properties to.\<close>

definition example_platform :: platform where
  "example_platform =
     (let b = \<lparr>devHeap =
               [\<lparr>devBaseAddr = RAM_BASE, addrRegionSize = RAM_SIZE, devImpl = Ram \<lparr>memData = (\<lambda>_. 0), memorySize = RAM_SIZE\<rparr>\<rparr>,
                \<lparr>devBaseAddr = UART_BASE, addrRegionSize = UART_SIZE, devImpl = Uart new_uartlite\<rparr>,
                \<lparr>devBaseAddr = CLINT_BASE, addrRegionSize = CLINT_SIZE, devImpl = Clint (new_clint 2)\<rparr>,
                \<lparr>devBaseAddr = PLIC_BASE, addrRegionSize = PLIC_SIZE,
                  devImpl = Plic \<lparr>plicCtrl = new_plic 4 4, intDevMap = [(1, h_uart)]\<rparr>\<rparr>],
              mmioDevs = [h_clint, h_plic, h_uart, h_ram], devFindCache = (\<lambda>_. None), preservedBaseAddr = 0,
              preservedDataBuffer = None, preserverHartID = 0, preservedSize = 0\<rparr>;
          c = example_core\<lparr>status := bput ms_mie 1 (status example_core), csrIntEnable := int_bit int_m_timer\<rparr>
      in \<lparr>sysBus = b, core0 = c, core1 = example_core, counter = 99\<rparr>)"

lemma example_platform_wf: "platform_wf example_platform"
proof -
  have "plic_inv \<lparr>devBaseAddr = PLIC_BASE, addrRegionSize = PLIC_SIZE,
      devImpl = \<lparr>plicCtrl = new_plic 4 4, intDevMap = [(1, h_uart)]\<rparr>\<rparr>"
    using plic_wf_new [of 4 4] by (simp add: plic_inv_def) (simp add: new_plic_def)
  moreover have "int_bit int_m_timer AND NOT M_MODE_INT_MASK = 0" by code_simp
  ultimately show ?thesis
    using core_wf_examples(1) clint_wf_new [of 2]
    by (simp add: example_platform_def Let_def platform_wf_def board_wf_def bus_wf_def devs_wf_def cache_sound_def
        wired_def dev_of_def handles board_addresses region_ok_def regions_apart_def dev_end_def device_inv_def
        with_impl_def ram_inv_def clint_inv_def clint_harts_def insert_commute)
      (simp add: core_wf_def status_wf_bput)
qed


text \<open>C21: A run of the platform from a well-formed state, whatever the terminal sends and however
  many rounds are cut from the endless loop, keeps both cores, the bus and the devices well-
  formed; register x0 of both cores stays 0.\<close>

theorem platform_run_safe:
  assumes "platform_wf p"
  shows "holdsR (Run_Platform_API inputs p) (\<lambda>(out, p'). platform_wf p' \<and> gpr (core0 p') 0 = 0 \<and> gpr (core1 p') 0 = 0)"
  by (rule holdsR_mono [OF run_wf [OF assms]]) (auto simp: platform_wf_def core_wf_def gpr_def)

theorem platform_run_safe_witness:
  "holdsR (Run_Platform_API [None, Some [65]] example_platform) (\<lambda>(out, p'). gpr (core0 p') 0 = 0)"
  by (rule holdsR_mono [OF platform_run_safe [OF example_platform_wf]]) auto

lemma ram_in_range:
  assumes "board_wf b" "RAM_BASE \<le> a" "unat (a - RAM_BASE) + n \<le> unat RAM_SIZE"
  shows "isAddrInRange (dev_of b h_ram) a"
proof -
  have "unat a - 0x80000000 \<le> 0x100000000" "0x80000000 \<le> unat a"
    using assms(2,3) by (simp_all add: board_addresses word_le_nat_alt unat_sub)
  then have "a \<le> 0x180000000" by (simp add: word_le_nat_alt)
  then show ?thesis using assms(1,2) by (simp add: board_wf_def wired_def isAddrInRange_def board_addresses)
qed

lemma ram_bus:
  assumes "board_wf b" and "RAM_BASE \<le> a" and "unat (a - RAM_BASE) + length bs \<le> unat RAM_SIZE"
  shows "returnsR (bus_write device_ops b a bs) (\<lambda>(fb, b'). fb = MEMU_OK \<and> board_wf b' \<and>
    (\<forall>h. h \<noteq> h_ram \<longrightarrow> dev_of b' h = dev_of b h) \<and>
    returnsR (bus_read device_ops b' a (of_nat (length bs))) (\<lambda>(fb, r, b''). fb = MEMU_OK \<and> r = Some bs))"
proof -
  have wf: "bus_wf device_inv b" "h_ram \<in> set (mmioDevs b)" "h_ram < length (devHeap b)"
    and base: "devBaseAddr (dev_of b h_ram) = RAM_BASE"
    using assms(1) by (simp_all add: board_wf_def handles wired_def)
  obtain r where r: "devImpl (dev_of b h_ram) = Ram r" using board_kinds(1) [OF assms(1)] by blast
  have sz: "memorySize r = RAM_SIZE"
    using board_device_inv [OF assms(1), of h_ram] r assms(1)
    by (simp add: device_inv_def ram_inv_def board_wf_def wired_def)
  have blk: "in_block r (a - RAM_BASE) (length bs)" using assms(3) sz by (simp add: in_block_def)
  define r' where "r' = r\<lparr>memData := store_bytes (memData r) (a - RAM_BASE) bs\<rparr>"
  obtain b1 where b1: "devHeap b1 = devHeap b" "mmioDevs b1 = mmioDevs b" and
    w: "bus_write device_ops b a bs = bindR (WriteBuffer_MMIODev_API device_ops (dev_of b h_ram) (a - RAM_BASE) bs)
        (\<lambda>(status, d). Inr (MEMU_OK, set_dev h_ram d b1))"
    using bus_routes [OF wf(1,2) ram_in_range [OF assms]] base by metis
  have w': "bus_write device_ops b a bs = Inr (MEMU_OK, set_dev h_ram (with_impl (dev_of b h_ram) (Ram r')) b1)"
    using w r blk by (simp add: device_ops_def device_write_def dispatch_write_def ram_write_def as_device_def r'_def)
  define b' where "b' = set_dev h_ram (with_impl (dev_of b h_ram) (Ram r')) b1"
  have bw: "board_wf b'" using board_write [OF assms(1), of a bs] w' by (simp add: b'_def)
  have d: "dev_of b' h = (if h = h_ram then with_impl (dev_of b h_ram) (Ram r') else dev_of b h)" for h
    using wf(3) b1 by (simp add: b'_def dev_of_set_dev) (simp add: dev_of_def)
  have wf2: "bus_wf device_inv b'" "h_ram \<in> set (mmioDevs b')" and base2: "devBaseAddr (dev_of b' h_ram) = RAM_BASE"
    using bw by (simp_all add: board_wf_def wired_def)
  have "in_block r' (a - RAM_BASE) (length bs)" using blk by (simp add: r'_def in_block_def)
  moreover have "unat (of_nat (length bs) :: u64) = length bs"
    using in_block_length [OF blk] by (simp add: unat_of_nat take_bit_nat_eq_self)
  ultimately have "ReadBuffer_MMIODev_API device_ops (dev_of b' h_ram) (a - RAM_BASE) (of_nat (length bs)) =
      Inr (MEMU_OK, Some bs, dev_of b' h_ram)"
    using in_block_length [OF blk]
    by (simp add: d device_ops_def device_read_def dispatch_read_def ram_read_def as_device_def load_store_same)
      (simp add: r'_def load_store_same)
  then have "returnsR (bus_read device_ops b' a (of_nat (length bs))) (\<lambda>(fb, r, b''). fb = MEMU_OK \<and> r = Some bs)"
    using bus_routes [OF wf2 ram_in_range [OF bw assms(2,3)], of device_ops "of_nat (length bs)" "[]"] base2 by auto
  then show ?thesis using bw d by (simp add: w' b'_def [symmetric])
qed

text \<open>On a well-formed board a write to an address range of the RAM and a read of the same range
  through the bus return the bytes written, leave the other devices alone and never end the run.\<close>

theorem ram_through_the_bus:
  assumes "board_wf b" and "RAM_BASE \<le> a" and "unat (a - RAM_BASE) + length bs \<le> unat RAM_SIZE"
  shows "returnsR (bus_write device_ops b a bs) (\<lambda>(fb, b'). fb = MEMU_OK \<and> board_wf b' \<and>
    (\<forall>h. h \<noteq> h_ram \<longrightarrow> dev_of b' h = dev_of b h) \<and>
    returnsR (bus_read device_ops b' a (of_nat (length bs))) (\<lambda>(fb, r, b''). fb = MEMU_OK \<and> r = Some bs))"
  by (rule ram_bus [OF assms])

theorem ram_through_the_bus_witness:
  "returnsR (bus_write device_ops (sysBus example_platform) 0x80001000 [1, 2, 3]) (\<lambda>(fb, b').
     returnsR (bus_read device_ops b' 0x80001000 3) (\<lambda>(fb, r, b''). r = Some [1, 2, 3]))"
proof -
  have "board_wf (sysBus example_platform)" using example_platform_wf by (simp add: platform_wf_def)
  from ram_through_the_bus [OF this, where a = "0x80001000" and bs = "[1, 2, 3]"] show ?thesis
    by (auto simp: board_addresses elim!: returnsR_mono)
qed

text \<open>C28: A word stored to the transmit register of the UART through the bus is printed by the device
  action of the hundredth round, after the bytes already queued.\<close>

theorem uart_through_the_bus:
  assumes "board_wf (sysBus p)" and "counter p = 99" and "devImpl (dev_of (sysBus p) h_uart) = Uart u"
  shows "returnsR (bus_write device_ops (sysBus p) (UART_BASE + 4) (to_bytes 4 (ucast c :: u32))) (\<lambda>(fb, b).
    fb = MEMU_OK \<and> returnsR (dev_action input (p\<lparr>sysBus := b\<rparr>)) (\<lambda>(out, p'). out = tx u @ [c] \<and> counter p' = 0))"
proof -
  let ?b = "sysBus p"
  have wf: "bus_wf device_inv ?b" "h_uart \<in> set (mmioDevs ?b)" "h_uart < length (devHeap ?b)"
    and u: "devBaseAddr (dev_of ?b h_uart) = UART_BASE" "addrRegionSize (dev_of ?b h_uart) = UART_SIZE"
    using assms(1) by (simp_all add: board_wf_def handles wired_def)
  have rng: "isAddrInRange (dev_of ?b h_uart) (UART_BASE + 4)"
    by (simp add: isAddrInRange_def u) (simp add: board_addresses)
  define u' where "u' = u\<lparr>regs := (regs u)\<lparr>tx_fifo := ucast c\<rparr>, tx := tx u @ [c]\<rparr>"
  obtain b1 where b1: "devHeap b1 = devHeap ?b" and
    w: "bus_write device_ops ?b (UART_BASE + 4) (to_bytes 4 (ucast c :: u32)) =
      bindR (WriteBuffer_MMIODev_API device_ops (dev_of ?b h_uart) 4 (to_bytes 4 (ucast c :: u32)))
        (\<lambda>(status, d). Inr (MEMU_OK, set_dev h_uart d b1))"
    using bus_routes [OF wf(1,2) rng, of device_ops _ "to_bytes 4 (ucast c :: u32)"] u(1) by auto
  have "uart_do_write u 4 (to_bytes 4 (ucast c :: u32)) = Inr (True, u')"
    by (simp add: write_word of_bytes_to_bytes_full byte_casts u'_def)
  then have w': "bus_write device_ops ?b (UART_BASE + 4) (to_bytes 4 (ucast c :: u32)) =
      Inr (MEMU_OK, set_dev h_uart (with_impl (dev_of ?b h_uart) (Uart u')) b1)"
    using w assms(3) u(2) by (simp add: device_ops_def device_write_def dispatch_write_def uart_write_def as_device_def UART_SIZE_def)
  have "dev_of (set_dev h_uart (with_impl (dev_of ?b h_uart) (Uart u')) b1) h_uart = with_impl (dev_of ?b h_uart) (Uart u')"
    using wf(3) b1 by (simp add: dev_of_set_dev)
  then show ?thesis
    using assms(2) by (simp add: w' dev_action_def Let_def uart_Step_def uart_drain_spec u'_def)
qed

theorem uart_through_the_bus_witness:
  "returnsR (bus_write device_ops (sysBus example_platform) (UART_BASE + 4) (to_bytes 4 (ucast (65 :: u8) :: u32))) (\<lambda>(fb, b).
    returnsR (dev_action None (example_platform\<lparr>sysBus := b\<rparr>)) (\<lambda>(out, p'). out = [65]))"
proof -
  have "board_wf (sysBus example_platform)" using example_platform_wf by (simp add: platform_wf_def)
  moreover have "counter example_platform = 99" "devImpl (dev_of (sysBus example_platform) h_uart) = Uart new_uartlite"
    by (simp_all add: example_platform_def Let_def dev_of_def handles)
  ultimately have "returnsR (bus_write device_ops (sysBus example_platform) (UART_BASE + 4) (to_bytes 4 (ucast (65 :: u8) :: u32))) (\<lambda>(fb, b).
    fb = MEMU_OK \<and> returnsR (dev_action None (example_platform\<lparr>sysBus := b\<rparr>)) (\<lambda>(out, p'). out = tx new_uartlite @ [65] \<and> counter p' = 0))"
    by (rule uart_through_the_bus)
  then show ?thesis by (auto simp: new_uartlite_def elim!: returnsR_mono)
qed

section \<open>The UART is served\<close>

definition uart_queue :: "platform \<Rightarrow> u8 list" where
  "uart_queue p = (case devImpl (dev_of (sysBus p) h_uart) of Uart u \<Rightarrow> tx u | _ \<Rightarrow> [])"

lemma tx_fold_putc: "tx (fold uart_putc bs u) = tx u"
  by (induction bs arbitrary: u) (simp_all add: uart_putc_def)

lemma dev_action_serves:
  assumes "platform_wf p"
  shows "holdsR (dev_action input p) (\<lambda>(out, p'). platform_wf p' \<and> counter p' = (counter p + 1) mod 100 \<and>
    (counter p' = 0 \<longrightarrow> uart_queue p' = []))"
proof (rule holdsR_mono [OF holdsR_conj [OF returnsR_holdsR [OF dev_action_wf [OF assms, of input]]]])
  have b: "board_wf (sysBus p)" "counter p < 100" using assms by (simp_all add: platform_wf_def)
  then obtain u where u: "devImpl (dev_of (sysBus p) h_uart) = Uart u" using board_kinds(2) by blast
  have "h_uart < length (devHeap (sysBus p))" using b(1) by (simp add: board_wf_def handles)
  then show "holdsR (dev_action input p) (\<lambda>(out, p'). counter p' = (counter p + 1) mod 100 \<and>
    (counter p' = 0 \<longrightarrow> uart_queue p' = []))"
    using b(2) u by (auto simp: dev_action_def Let_def uart_queue_def dev_of_set_dev uart_Step_def uart_drain_spec tx_fold_putc split: option.split)
qed auto

lemma counted_then:
  "holdsR m (\<lambda>p'. platform_wf p' \<and> counter p' = k) \<Longrightarrow> (\<And>p'. platform_wf p' \<Longrightarrow> counter p' = k \<Longrightarrow> holdsR (f p') P) \<Longrightarrow>
   holdsR (bindR m f) P"
  by (erule holdsR_bindI) simp

lemma iteration_serves:
  assumes "platform_wf p"
  shows "holdsR (Run_iteration input p) (\<lambda>(out, p'). platform_wf p' \<and> counter p' = (counter p + 1) mod 100 \<and>
    (counter p' = 0 \<longrightarrow> uart_queue p' = []))"
  unfolding Run_iteration_def
proof (rule counted_then [OF returnsR_holdsR [OF update_clint_wf [OF assms]]])
  fix p1 assume p1: "platform_wf p1" "counter p1 = counter p"
  show "holdsR (bindR (update_plic p1) (\<lambda>p2. bindR (step_core0 p2) (\<lambda>p3. bindR (step_core1 p3) (dev_action input))))
    (\<lambda>(out, p'). platform_wf p' \<and> counter p' = (counter p + 1) mod 100 \<and> (counter p' = 0 \<longrightarrow> uart_queue p' = []))"
  proof (rule counted_then [OF returnsR_holdsR [OF update_plic_wf [OF p1(1)]]])
    fix p2 assume p2: "platform_wf p2" "counter p2 = counter p1"
    show "holdsR (bindR (step_core0 p2) (\<lambda>p3. bindR (step_core1 p3) (dev_action input)))
      (\<lambda>(out, p'). platform_wf p' \<and> counter p' = (counter p + 1) mod 100 \<and> (counter p' = 0 \<longrightarrow> uart_queue p' = []))"
    proof (rule counted_then [OF step_core_wf(1) [OF p2(1)]])
      fix p3 assume p3: "platform_wf p3" "counter p3 = counter p2"
      show "holdsR (bindR (step_core1 p3) (dev_action input))
        (\<lambda>(out, p'). platform_wf p' \<and> counter p' = (counter p + 1) mod 100 \<and> (counter p' = 0 \<longrightarrow> uart_queue p' = []))"
        by (rule counted_then [OF step_core_wf(2) [OF p3(1)]])
          (rule holdsR_mono [OF dev_action_serves], use p1 p2 p3 in auto)
    qed
  qed
qed

lemma run_serves:
  "platform_wf p \<Longrightarrow> holdsR (Run_Platform_API inputs p) (\<lambda>(out, p').
     counter p' = (counter p + length inputs) mod 100 \<and> (inputs \<noteq> [] \<and> counter p' = 0 \<longrightarrow> uart_queue p' = []))"
proof (induction inputs arbitrary: p)
  case Nil
  then show ?case by (simp add: platform_wf_def)
next
  case (Cons i inputs)
  have "holdsR (bindR (Run_Platform_API inputs p1) (\<lambda>(rest, p2). Inr (out @ rest, p2))) (\<lambda>(out, p').
      counter p' = (counter p + Suc (length inputs)) mod 100 \<and> (counter p' = 0 \<longrightarrow> uart_queue p' = []))"
    if p1: "platform_wf p1" "counter p1 = (counter p + 1) mod 100" "counter p1 = 0 \<longrightarrow> uart_queue p1 = []" for out p1
  proof (cases "inputs = []")
    case True
    with p1 show ?thesis by simp
  next
    case False
    show ?thesis
      by (rule holdsR_bindI [OF Cons.IH [OF p1(1)]]) (use p1(2) False in \<open>auto simp: mod_simps\<close>)
  qed
  then show ?case
    by (auto simp del: holdsR_bindR intro!: holdsR_bindI [OF iteration_serves [OF Cons.prems]])
qed

text \<open>C40: Whenever the number of rounds reaches a multiple of a hundred, the UART has been served in
  the last round: its transmit queue is empty, whatever the cores did.\<close>

theorem uart_served_every_hundred_rounds:
  assumes "platform_wf p" and "(counter p + length inputs) mod 100 = 0" and "inputs \<noteq> []"
  shows "holdsR (Run_Platform_API inputs p) (\<lambda>(out, p'). counter p' = 0 \<and> uart_queue p' = [])"
  by (rule holdsR_mono [OF run_serves [OF assms(1)]]) (use assms(2,3) in auto)

theorem uart_served_every_hundred_rounds_witness:
  "holdsR (Run_Platform_API [Some [65]] example_platform) (\<lambda>(out, p'). uart_queue p' = [])"
proof -
  have "(counter example_platform + length [Some [65 :: u8]]) mod 100 = 0"
    by (simp add: example_platform_def Let_def)
  from uart_served_every_hundred_rounds [OF example_platform_wf this] show ?thesis
    by (auto elim!: holdsR_mono)
qed

end
