(* ===== verification/Board_Access.thy ===== *)
theory Board_Access
  imports Platform
begin

unbundle bit_operations_syntax

text \<open>
  Which accesses of a guest end the emulator: on the board of the default platform every naturally
  aligned access of one, two, four or eight bytes is either answered or hits one of the addresses
  listed here, where a device asserts or leaves its arrays.
\<close>

section \<open>The PLIC\<close>

text \<open>Offsets of words of the region that \<open>do_read\<close> and \<open>do_write\<close> take to lie in their arrays, but
  which do not: words of the pending bitmap after the first, the second word of an enable bitmap,
  and the registers of a context one past the last.\<close>

definition plic_pending_hole :: "nat \<Rightarrow> bool" where
  "plic_pending_hole off \<longleftrightarrow> 0x1004 \<le> off \<and> off \<le> 0x1010"

definition plic_enable_hole :: "nat \<Rightarrow> bool" where
  "plic_enable_hole off \<longleftrightarrow> 0x2000 \<le> off \<and> off < 0x2200 \<and> off mod 0x80 = 4"

definition plic_read_hole :: "nat \<Rightarrow> bool" where
  "plic_read_hole off \<longleftrightarrow> plic_pending_hole off \<or> plic_enable_hole off \<or> off = 0x204000 \<or> off = 0x204004"

text \<open>A store that completes a source uses the number stored as an index.\<close>

definition plic_complete :: "nat \<Rightarrow> bool" where
  "plic_complete off \<longleftrightarrow> 0x200000 \<le> off \<and> off \<le> 0x204004 \<and> off mod 0x1000 = 4"

definition plic_write_hole :: "nat \<Rightarrow> u32 \<Rightarrow> bool" where
  "plic_write_hole off v \<longleftrightarrow> plic_enable_hole off \<or> off = 0x204000 \<or> (plic_complete off \<and> 32 \<le> v)"

lemma returns_iff: "returnsR m (\<lambda>_. True) \<longleftrightarrow> (\<exists>x. m = Inr x)"
  by (cases m) auto

lemma aget_returns: "returnsR (aget xs i) (\<lambda>_. True) \<longleftrightarrow> i < length xs"
  by (simp add: aget_def)

definition plic_44 :: "plic \<Rightarrow> bool" where
  "plic_44 p \<longleftrightarrow> plic_wf p \<and> nr_source p = 4 \<and> nr_context p = 4"

lemma plic_44_lengths:
  assumes "plic_44 p"
  shows "length (priority p) = 5" "length (pending p) = 1" "length (claimed p) = 1" "length (enable p) = 4"
    "length (threshold p) = 4" "length (claim p) = 4" "i < 4 \<Longrightarrow> length (enable p ! i) = 1"
    "i < 4 \<Longrightarrow> unat (claim p ! i) \<le> 4"
  using assms by (auto simp: plic_44_def plic_wf_def bitmap_words_def)

lemma off_facts:
  fixes off :: u64
  assumes "unat off + 4 \<le> 0x4000000"
  shows "unat (off + 4) = unat off + 4" "k \<le> off \<Longrightarrow> unat (off - k) = unat off - unat k"
    "unat (off div k) = unat off div unat k" "unat (off mod k) = unat off mod unat k"
proof -
  show "unat (off + 4) = unat off + 4" using assms by (simp add: unat_word_ariths)
  show "k \<le> off \<Longrightarrow> unat (off - k) = unat off - unat k" by (rule unat_sub)
  show "unat (off div k) = unat off div unat k" "unat (off mod k) = unat off mod unat k"
    by (rule unat_div unat_mod)+
qed

text \<open>The offsets by the five parts of the register map.\<close>

lemma word_offset_cases:
  assumes "unat (off :: u64) mod 4 = 0"
  obtains q where "unat off = 4 * q" "q < 0x400"
    | q where "unat off = 4 * q" "0x400 \<le> q" "q < 0x420"
    | q where "unat off = 4 * q" "0x420 \<le> q" "q < 0x800"
    | q where "unat off = 4 * q" "0x800 \<le> q" "q < 0x80000"
    | q where "unat off = 4 * q" "0x80000 \<le> q"
proof -
  obtain q where "unat off = 4 * q" using assms by (auto elim: dvdE simp: mod_eq_0_iff_dvd)
  then show ?thesis using that by (meson not_less)
qed

lemma word_position:
  fixes q :: nat
  obtains "4 * q mod 0x80 = 0" | "4 * q mod 0x80 = 4" | "4 < 4 * q mod 0x80"
proof -
  have "4 * q mod 0x80 = 4 * (q mod 0x20)" by (simp add: mult_mod_right)
  moreover have "q mod 0x20 = 0 \<or> q mod 0x20 = 1 \<or> 1 < q mod 0x20" by linarith
  ultimately have "4 * q mod 0x80 = 0 \<or> 4 * q mod 0x80 = 4 \<or> 4 < 4 * q mod 0x80" by auto
  then show ?thesis by (elim disjE) (fact that)+
qed

text \<open>The registers of a context: its number and the position in its block.\<close>

lemma context_offset:
  fixes off :: u64
  assumes "unat off = 4 * q" "0x80000 \<le> q"
  obtains c r where "unat off = 0x200000 + 0x1000 * c + 4 * r" "r < 0x400" "unat off mod 0x1000 = 4 * r"
    "unat ((off - 0x200000) div 0x1000) = c" "off mod 0x1000 = 0 \<longleftrightarrow> r = 0" "off mod 0x1000 = 4 \<longleftrightarrow> r = 1"
proof -
  define c r where "c = q div 0x400 - 0x200" and "r = q mod 0x400"
  have "0x80000 div 0x400 \<le> q div 0x400" using assms(2) by (rule div_le_mono)
  then have "q div 0x400 = 0x200 + c" by (simp add: c_def)
  moreover have "q = 0x400 * (q div 0x400) + r" by (simp add: r_def)
  ultimately have q: "q = 0x80000 + 0x400 * c + r" by simp
  have r: "r < 0x400" by (simp add: r_def)
  have u: "unat off = 0x200000 + 0x1000 * c + 4 * r" using assms(1) q by simp
  have "unat (off - 0x200000) = 0x1000 * c + 4 * r"
    using u by (simp add: unat_sub word_le_nat_alt)
  then have c: "unat ((off - 0x200000) div 0x1000) = c" using r by (simp add: unat_div)
  have "0x200000 + 0x1000 * c + 4 * r = 4 * r + 0x1000 * (0x200 + c)" by simp
  then have m: "unat off mod 0x1000 = 4 * r" using u r by (simp only: mod_mult_self2)
      (simp add: mod_less)
  from m have z: "off mod 0x1000 = 0 \<longleftrightarrow> r = 0" "off mod 0x1000 = 4 \<longleftrightarrow> r = 1"
    by (simp_all add: word_unat_eq_iff unat_mod)
  show ?thesis by (rule that [OF u r m c z])
qed

lemma last_context:
  fixes c r :: nat
  assumes "r < 0x400"
  shows "0x1000 * c + 4 * r = 0x4000 \<longleftrightarrow> c = 4 \<and> r = 0" "0x1000 * c + 4 * r = 0x4004 \<longleftrightarrow> c = 4 \<and> r = 1"
    "0x1000 * c + 4 * r \<le> 0x4004 \<longleftrightarrow> c < 4 \<or> (c = 4 \<and> r \<le> 1)"
proof -
  consider "c < 4" | "c = 4" | "4 < c" by linarith
  then have "(0x1000 * c + 4 * r = 0x4000 \<longleftrightarrow> c = 4 \<and> r = 0) \<and> (0x1000 * c + 4 * r = 0x4004 \<longleftrightarrow> c = 4 \<and> r = 1) \<and>
    (0x1000 * c + 4 * r \<le> 0x4004 \<longleftrightarrow> c < 4 \<or> (c = 4 \<and> r \<le> 1))"
    by cases (use assms in auto)
  then show "0x1000 * c + 4 * r = 0x4000 \<longleftrightarrow> c = 4 \<and> r = 0" "0x1000 * c + 4 * r = 0x4004 \<longleftrightarrow> c = 4 \<and> r = 1"
    "0x1000 * c + 4 * r \<le> 0x4004 \<longleftrightarrow> c < 4 \<or> (c = 4 \<and> r \<le> 1)" by blast+
qed

lemmas plic_word_simps = Let_def word_le_nat_alt word_less_nat_alt aget_returns plic_pending_hole_def plic_enable_hole_def

lemma plic_read_words:
  assumes p: "plic_44 p" and off: "unat off + 4 \<le> 0x4000000" "unat off mod 4 = 0"
  shows "returnsR (plic_do_read p off 4) (\<lambda>_. True) \<longleftrightarrow> \<not> plic_read_hole (unat off)"
proof -
  note l = plic_44_lengths [OF p] and f = off_facts [OF off(1)]
  have n: "nr_source p = 4" "nr_context p = 4" using p by (simp_all add: plic_44_def)
  have z: "off = k \<longleftrightarrow> unat off = unat k" for k by (simp add: word_unat_eq_iff)
  note s = plic_do_read_def plic_read_hole_def plic_word_simps n f z l
  from off(2) show ?thesis
  proof (cases rule: word_offset_cases)
    case (1 q)
    then show ?thesis by (auto simp: s)
  next
    case (2 q)
    then have "unat ((off - 0x1000) div 4) = q - 0x400"
      using f(2) [of "0x1000"] by (simp add: unat_div word_le_nat_alt)
    with 2 show ?thesis by (auto simp: s)
  next
    case (3 q)
    then show ?thesis by (auto simp: s)
  next
    case (4 q)
    then have "unat ((off - 0x2000) div 0x80) = (4 * q - 0x2000) div 0x80" "unat (off mod 0x80) = 4 * q mod 0x80"
      using f(2) [of "0x2000"] by (simp_all add: unat_div unat_mod word_le_nat_alt)
    moreover have "(4 * q - 0x2000) div 0x80 < 4 \<longleftrightarrow> 4 * q < 0x2200" using 4 by arith
    ultimately show ?thesis
      by (rule_tac word_position [of q]) (use 4 in \<open>simp_all add: s not_le [symmetric]\<close>)
  next
    case (5 q)
    then obtain c r where c: "unat off = 0x200000 + 0x1000 * c + 4 * r" "r < 0x400" "unat off mod 0x1000 = 4 * r"
      "unat ((off - 0x200000) div 0x1000) = c" "off mod 0x1000 = 0 \<longleftrightarrow> r = 0" "off mod 0x1000 = 4 \<longleftrightarrow> r = 1"
      by (rule context_offset)
    note p4 = last_context [OF c(2)]
    have h: "plic_read_hole (unat off) \<longleftrightarrow> c = 4 \<and> r \<le> 1"
      using c(1,2) by (auto simp: p4 plic_read_hole_def plic_pending_hole_def plic_enable_hole_def)
    have cl: "unat (claim p ! c) div 32 = 0" if "c < 4" using l(8) [OF that] by simp
    show ?thesis
      unfolding h using c(2,4-6) cl l
      by (auto simp: plic_do_read_def Let_def word_le_nat_alt word_less_nat_alt aget_returns n f c(1) unat_div aget_def aset_def)
  qed
qed

lemma buf_word_returns: "returnsR (buf_word bs) (\<lambda>v. P v) \<longleftrightarrow> 4 \<le> length bs \<and> P (of_bytes (take 4 bs))"
  by (simp add: buf_word_def mem_get_def)

lemma bitmap_clear_returns:
  "length ws = 1 \<Longrightarrow> returnsR (bitmap_clear ws v) (\<lambda>_. P) \<longleftrightarrow> v < 32 \<and> P"
proof -
  assume l: "length ws = 1"
  have "unat (v div 32) < 1 \<longleftrightarrow> v < 32" by (simp add: unat_div word_less_nat_alt div_eq_0_iff)
  then show ?thesis using l by (simp add: bitmap_clear_def aget_def aset_def)
qed

lemma aset_returns: "returnsR (aset xs i v) (\<lambda>ys. P ys) \<longleftrightarrow> i < length xs \<and> P (xs[i := v])"
  by (simp add: aset_def)

lemma plic_write_words:
  assumes p: "plic_44 p" and off: "unat off + 4 \<le> 0x4000000" "unat off mod 4 = 0" and bs: "length bs = 4"
  shows "returnsR (plic_do_write p off bs) (\<lambda>_. True) \<longleftrightarrow> \<not> plic_write_hole (unat off) (of_bytes bs)"
proof -
  note l = plic_44_lengths [OF p] and f = off_facts [OF off(1)]
  have n: "nr_source p = 4" "nr_context p = 4" using p by (simp_all add: plic_44_def)
  have z: "off = k \<longleftrightarrow> unat off = unat k" for k by (simp add: word_unat_eq_iff)
  note s = plic_do_write_def plic_write_hole_def plic_complete_def plic_word_simps n f z l bs buf_word_returns aset_returns
    bitmap_clear_returns
  from off(2) show ?thesis
  proof (cases rule: word_offset_cases)
    case (1 q)
    then show ?thesis by (auto simp: s)
  next
    case (2 q)
    then show ?thesis by (auto simp: s)
  next
    case (3 q)
    then show ?thesis by (auto simp: s)
  next
    case (4 q)
    then have "unat ((off - 0x2000) div 0x80) = (4 * q - 0x2000) div 0x80" "unat (off mod 0x80) = 4 * q mod 0x80"
      using f(2) [of "0x2000"] by (simp_all add: unat_div unat_mod word_le_nat_alt)
    moreover have "(4 * q - 0x2000) div 0x80 < 4 \<longleftrightarrow> 4 * q < 0x2200" using 4 by arith
    ultimately show ?thesis
      by (rule_tac word_position [of q]) (use 4 in \<open>simp_all add: s not_le [symmetric]\<close>)
  next
    case (5 q)
    then obtain c r where c: "unat off = 0x200000 + 0x1000 * c + 4 * r" "r < 0x400" "unat off mod 0x1000 = 4 * r"
      "unat ((off - 0x200000) div 0x1000) = c" "off mod 0x1000 = 0 \<longleftrightarrow> r = 0" "off mod 0x1000 = 4 \<longleftrightarrow> r = 1"
      by (rule context_offset)
    note p4 = last_context [OF c(2)]
    have h: "plic_write_hole (unat off) v \<longleftrightarrow> (c = 4 \<and> r = 0) \<or> (c \<le> 4 \<and> r = 1 \<and> 32 \<le> v)" for v
      using c(1-3) by (auto simp: p4 plic_write_hole_def plic_complete_def plic_enable_hole_def)
    show ?thesis
      unfolding h using c(2,4-6) l bs
      by (auto simp: plic_do_write_def Let_def n f c(1) buf_word_returns aset_returns bitmap_clear_returns word_le_nat_alt
          word_less_nat_alt)
  qed
qed

section \<open>The devices\<close>

text \<open>An access that starts in a region and is aligned to its length ends in the region, unless it
  starts at the first address after it, which the bus still gives to the device.\<close>

lemma aligned_end:
  fixes off n S :: nat
  assumes "n dvd off" "n dvd S" "off \<le> S" "0 < n"
  shows "off + n \<le> S \<longleftrightarrow> off \<noteq> S"
proof -
  have "n \<le> S - off" if "off < S"
    using assms that by (intro dvd_imp_le) simp_all
  then show ?thesis using assms(3,4) by auto
qed

lemma no_wrap_offset:
  "unat (off :: u64) + unat sz < 2 ^ 63 \<Longrightarrow> unat (off + sz) = unat off + unat sz"
  by (rule no_wrap64) simp

lemma ram_returns:
  assumes "ram_inv d"
  shows "returnsR (ram_read d off sz) (\<lambda>_. True) \<longleftrightarrow> unat off + unat sz \<le> unat (addrRegionSize d)"
    and "returnsR (ram_write d off bs) (\<lambda>_. True) \<longleftrightarrow> unat off + length bs \<le> unat (addrRegionSize d)"
  using assms by (simp_all add: ram_read_def ram_write_def ram_inv_def in_block_def Let_def)

lemma copy_len_inside:
  assumes "unat off + unat sz \<le> 16"
  shows "copy_len off sz = unat sz"
proof -
  have "unat (16 - off) = 16 - unat off" using assms by (simp add: unat_sub word_le_nat_alt)
  then have "sz \<le> 16 - off" using assms by (simp add: word_le_nat_alt)
  then show ?thesis by (simp add: copy_len_def sizeof_regs_def)
qed

lemma uart_returns:
  assumes "unat off + unat sz < 2 ^ 63"
  shows "returnsR (uart_read d off sz) (\<lambda>_. True) \<longleftrightarrow> unat off + unat sz \<le> unat (addrRegionSize d)"
    and "length bs = unat sz \<Longrightarrow>
      returnsR (uart_write d off bs) (\<lambda>_. True) \<longleftrightarrow> unat off + length bs \<le> unat (addrRegionSize d)"
  using no_wrap_offset [OF assms] copy_len_inside [of off sz]
  by (auto simp: uart_read_def uart_write_def uart_do_read_def uart_do_write_def Let_def word_le_nat_alt
      word_less_nat_alt sizeof_regs_def mem_get_def mem_put_def)

lemma clint_returns:
  assumes "clint_inv d" "unat off + unat sz < 2 ^ 63"
  shows "returnsR (clint_read d off sz) (\<lambda>_. True) \<longleftrightarrow> unat off + unat sz \<le> unat (addrRegionSize d)"
    and "length bs = unat sz \<Longrightarrow>
      returnsR (clint_write d off bs) (\<lambda>_. True) \<longleftrightarrow> unat off + length bs \<le> unat (addrRegionSize d)"
proof -
  have l: "length (mtimecmp (devImpl d)) = 2" "length (msip (devImpl d)) = 2"
    using assms(1) by (simp_all add: clint_inv_def clint_wf_def clint_harts_def)
  have o: "unat (off - k) = unat off - unat k" if "unat k \<le> unat off" for k
    using that by (simp add: unat_sub word_le_nat_alt)
  note s = clint_do_read_def clint_do_write_def word_le_nat_alt no_wrap_offset [OF assms(2)] clint_harts_def
    mem_get_def mem_put_def l o Let_def
  have "returnsR (clint_do_read clint_harts (devImpl d) off sz) (\<lambda>_. True)"
    "length bs = unat sz \<Longrightarrow> returnsR (clint_do_write clint_harts (devImpl d) off bs) (\<lambda>_. True)"
    by (auto simp: s)
  then show "returnsR (clint_read d off sz) (\<lambda>_. True) \<longleftrightarrow> unat off + unat sz \<le> unat (addrRegionSize d)"
    and "length bs = unat sz \<Longrightarrow>
      returnsR (clint_write d off bs) (\<lambda>_. True) \<longleftrightarrow> unat off + length bs \<le> unat (addrRegionSize d)"
    by (simp_all add: clint_read_def clint_write_def word_le_nat_alt no_wrap_offset [OF assms(2)] split_def)
qed

lemma plic_returns:
  assumes "plic_inv d" "unat off mod 4 = 0" "addrRegionSize d = 0x4000000"
  shows "unat off + 4 \<le> 0x4000000 \<Longrightarrow>
      returnsR (plic_read d off 4) (\<lambda>_. True) \<longleftrightarrow> \<not> plic_read_hole (unat off)"
    and "unat off + 4 \<le> 0x4000000 \<Longrightarrow> length bs = 4 \<Longrightarrow>
      returnsR (plic_write d off bs) (\<lambda>_. True) \<longleftrightarrow> \<not> plic_write_hole (unat off) (of_bytes bs)"
    and "off = 0x4000000 \<Longrightarrow> \<not> returnsR (plic_read d off 4) (\<lambda>_. True)"
    and "off = 0x4000000 \<Longrightarrow> length bs = 4 \<Longrightarrow> \<not> returnsR (plic_write d off bs) (\<lambda>_. True)"
proof -
  have p: "plic_44 (plicCtrl (devImpl d))" using assms(1) by (simp add: plic_inv_def plic_44_def Let_def)
  show "unat off + 4 \<le> 0x4000000 \<Longrightarrow> returnsR (plic_read d off 4) (\<lambda>_. True) \<longleftrightarrow> \<not> plic_read_hole (unat off)"
    using plic_read_words [OF p _ assms(2)] off_facts(1) [of off] assms(3)
    by (simp add: plic_read_def word_le_nat_alt split_def)
  show "unat off + 4 \<le> 0x4000000 \<Longrightarrow> length bs = 4 \<Longrightarrow>
      returnsR (plic_write d off bs) (\<lambda>_. True) \<longleftrightarrow> \<not> plic_write_hole (unat off) (of_bytes bs)"
    using plic_write_words [OF p _ assms(2)] off_facts(1) [of off] assms(3)
    by (simp add: plic_write_def word_le_nat_alt split_def)
qed (simp_all add: plic_read_def plic_write_def assms(3))

lemma plic_read_size: "sz \<noteq> 4 \<Longrightarrow> \<not> returnsR (plic_read d off sz) (\<lambda>_. True)"
  by (simp add: plic_read_def plic_do_read_def Let_def split_def assertR_def)

section \<open>The board\<close>

text \<open>The first address after each region, and the region of the PLIC.\<close>

definition past_end :: "u64 \<Rightarrow> bool" where
  "past_end a \<longleftrightarrow> a \<in> {RAM_BASE + RAM_SIZE, UART_BASE + UART_SIZE, CLINT_BASE + CLINT_SIZE, PLIC_BASE + PLIC_SIZE}"

definition in_plic :: "u64 \<Rightarrow> bool" where
  "in_plic a \<longleftrightarrow> PLIC_BASE \<le> a \<and> a < PLIC_BASE + PLIC_SIZE"

definition aligned_access :: "u64 \<Rightarrow> nat \<Rightarrow> bool" where
  "aligned_access a n \<longleftrightarrow> n \<in> {1, 2, 4, 8} \<and> unat a mod n = 0"

lemma board_base:
  assumes "board_wf b"
  shows "devBaseAddr (dev_of b h_ram) = RAM_BASE" "addrRegionSize (dev_of b h_ram) = RAM_SIZE"
    "devBaseAddr (dev_of b h_uart) = UART_BASE" "addrRegionSize (dev_of b h_uart) = UART_SIZE"
    "devBaseAddr (dev_of b h_clint) = CLINT_BASE" "addrRegionSize (dev_of b h_clint) = CLINT_SIZE"
    "devBaseAddr (dev_of b h_plic) = PLIC_BASE" "addrRegionSize (dev_of b h_plic) = PLIC_SIZE"
  using assms by (simp_all add: board_wf_def wired_def)

text \<open>Which device answers.\<close>

lemma in_region:
  fixes a base S :: u64
  assumes "base \<le> a" "a \<le> base + S" "unat base + unat S < 2 ^ 63" "n dvd unat a" "n dvd unat base" "n dvd unat S" "0 < n"
  shows "unat (a - base) \<le> unat S" "n dvd unat (a - base)"
    "unat (a - base) + n \<le> unat S \<longleftrightarrow> a \<noteq> base + S"
proof -
  have o: "unat (a - base) = unat a - unat base" using assms(1) by (simp add: unat_sub)
  have e: "unat (base + S) = unat base + unat S" by (rule no_wrap64) (use assms(3) in simp)
  show le: "unat (a - base) \<le> unat S" using assms(2) o e by (simp add: word_le_nat_alt)
  show d: "n dvd unat (a - base)" using assms(4,5) o by simp
  have "a = base + S \<longleftrightarrow> unat (a - base) = unat S"
    using o e assms(1) by (simp add: word_unat_eq_iff word_le_nat_alt) arith
  with aligned_end [OF d assms(6) le assms(7)]
  show "unat (a - base) + n \<le> unat S \<longleftrightarrow> a \<noteq> base + S" by simp
qed

lemma device_returns:
  assumes "device_inv d" "\<not> is_Plic (devImpl d)" "unat off + unat sz < 2 ^ 63"
  shows "returnsR (device_read d off sz) (\<lambda>_. True) \<longleftrightarrow> unat off + unat sz \<le> unat (addrRegionSize d)"
    and "length bs = unat sz \<Longrightarrow>
      returnsR (device_write d off bs) (\<lambda>_. True) \<longleftrightarrow> unat off + length bs \<le> unat (addrRegionSize d)"
  using assms
  by (cases "devImpl d"; simp add: device_read_def device_write_def dispatch_read_def dispatch_write_def split_def
      device_inv_def ram_returns uart_returns clint_returns)+

lemma device_plic:
  assumes "device_inv d" "devImpl d = Plic p"
  shows "returnsR (device_read d off sz) (\<lambda>_. True) = returnsR (plic_read (with_impl d p) off sz) (\<lambda>_. True)"
    and "returnsR (device_write d off bs) (\<lambda>_. True) = returnsR (plic_write (with_impl d p) off bs) (\<lambda>_. True)"
    and "plic_inv (with_impl d p)"
  using assms by (simp_all add: device_read_def device_write_def dispatch_read_def dispatch_write_def split_def device_inv_def)

lemma board_answers:
  assumes "board_wf b" "h \<in> {h_ram, h_uart, h_clint, h_plic}"
    and "devBaseAddr (dev_of b h) = base" "addrRegionSize (dev_of b h) = S" "base \<le> a" "a \<le> base + S"
  shows "returnsR (bus_read device_ops b a n) (\<lambda>_. True) = returnsR (device_read (dev_of b h) (a - base) n) (\<lambda>_. True)"
    and "returnsR (bus_write device_ops b a bs) (\<lambda>_. True) = returnsR (device_write (dev_of b h) (a - base) bs) (\<lambda>_. True)"
proof -
  have "bus_wf device_inv b" "h \<in> set (mmioDevs b)" "isAddrInRange (dev_of b h) a"
    using assms by (auto simp: board_wf_def isAddrInRange_def)
  from bus_routes [OF this, of device_ops n bs] assms(3)
  show "returnsR (bus_read device_ops b a n) (\<lambda>_. True) = returnsR (device_read (dev_of b h) (a - base) n) (\<lambda>_. True)"
    and "returnsR (bus_write device_ops b a bs) (\<lambda>_. True) = returnsR (device_write (dev_of b h) (a - base) bs) (\<lambda>_. True)"
    by (auto simp: device_ops_def split_def)
qed

lemma board_silent:
  assumes "board_wf b" "\<And>h. h \<in> {h_ram, h_uart, h_clint, h_plic} \<Longrightarrow> \<not> isAddrInRange (dev_of b h) a"
  shows "returnsR (bus_read device_ops b a n) (\<lambda>_. True)" "returnsR (bus_write device_ops b a bs) (\<lambda>_. True)"
proof -
  have "devs_wf b" "cache_sound b" using assms(1) by (simp_all add: board_wf_def bus_wf_def)
  then have "returnsR (bus_read device_ops b a n) (\<lambda>_. True) \<and> returnsR (bus_write device_ops b a bs) (\<lambda>_. True)"
  proof (cases rule: find_cases [of b a])
    case (none b')
    then show ?thesis by (simp add: bus_read_def bus_write_def)
  next
    case (some h b')
    then show ?thesis using assms by (simp add: board_wf_def)
  qed
  then show "returnsR (bus_read device_ops b a n) (\<lambda>_. True)" "returnsR (bus_write device_ops b a bs) (\<lambda>_. True)" by simp_all
qed

lemma past_end_cases:
  "RAM_BASE \<le> a \<Longrightarrow> a \<le> RAM_BASE + RAM_SIZE \<Longrightarrow> \<not> in_plic a \<and> (past_end a \<longleftrightarrow> a = RAM_BASE + RAM_SIZE)"
  "UART_BASE \<le> a \<Longrightarrow> a \<le> UART_BASE + UART_SIZE \<Longrightarrow> \<not> in_plic a \<and> (past_end a \<longleftrightarrow> a = UART_BASE + UART_SIZE)"
  "CLINT_BASE \<le> a \<Longrightarrow> a \<le> CLINT_BASE + CLINT_SIZE \<Longrightarrow> \<not> in_plic a \<and> (past_end a \<longleftrightarrow> a = CLINT_BASE + CLINT_SIZE)"
  "PLIC_BASE \<le> a \<Longrightarrow> a \<le> PLIC_BASE + PLIC_SIZE \<Longrightarrow>
     (in_plic a \<longleftrightarrow> a \<noteq> PLIC_BASE + PLIC_SIZE) \<and> (past_end a \<longleftrightarrow> a = PLIC_BASE + PLIC_SIZE)"
proof -
  show "PLIC_BASE \<le> a \<Longrightarrow> a \<le> PLIC_BASE + PLIC_SIZE \<Longrightarrow>
     (in_plic a \<longleftrightarrow> a \<noteq> PLIC_BASE + PLIC_SIZE) \<and> (past_end a \<longleftrightarrow> a = PLIC_BASE + PLIC_SIZE)"
    by (auto simp: past_end_def in_plic_def board_addresses less_le)
qed (auto simp: past_end_def in_plic_def board_addresses word_le_nat_alt word_less_nat_alt)

lemma silent_address:
  assumes "\<not> (RAM_BASE \<le> a \<and> a \<le> RAM_BASE + RAM_SIZE)" "\<not> (UART_BASE \<le> a \<and> a \<le> UART_BASE + UART_SIZE)"
    "\<not> (CLINT_BASE \<le> a \<and> a \<le> CLINT_BASE + CLINT_SIZE)" "\<not> (PLIC_BASE \<le> a \<and> a \<le> PLIC_BASE + PLIC_SIZE)"
  shows "\<not> in_plic a \<and> \<not> past_end a"
  using assms by (auto simp: past_end_def in_plic_def board_addresses word_le_nat_alt word_less_nat_alt)

lemma aligned_access_bounds:
  assumes "aligned_access a n"
  shows "0 < n" "n \<le> 8" "n dvd unat a" "unat (of_nat n :: u64) = n"
    "n dvd unat RAM_BASE" "n dvd unat RAM_SIZE" "n dvd unat UART_BASE" "n dvd unat UART_SIZE"
    "n dvd unat CLINT_BASE" "n dvd unat CLINT_SIZE" "n dvd unat PLIC_BASE" "n dvd unat PLIC_SIZE"
  using assms by (auto simp: aligned_access_def board_addresses mod_eq_0_iff_dvd)

lemma region_returns:
  assumes b: "board_wf b" and h: "h \<in> {h_ram, h_uart, h_clint}" and d: "devBaseAddr (dev_of b h) = base" "addrRegionSize (dev_of b h) = S"
    and a: "base \<le> a" "a \<le> base + S" "aligned_access a n"
    and S: "unat base + unat S < 2 ^ 62" "n dvd unat base" "n dvd unat S"
  shows "returnsR (bus_read device_ops b a (of_nat n)) (\<lambda>_. True) \<longleftrightarrow> a \<noteq> base + S"
    and "length bs = n \<Longrightarrow> returnsR (bus_write device_ops b a bs) (\<lambda>_. True) \<longleftrightarrow> a \<noteq> base + S"
proof -
  note al = aligned_access_bounds [OF a(3)]
  have r: "unat (a - base) \<le> unat S" "unat (a - base) + n \<le> unat S \<longleftrightarrow> a \<noteq> base + S"
    using in_region [OF a(1,2) _ al(3) S(2,3) al(1)] S(1) by simp_all
  have w: "unat (a - base) + unat (of_nat n :: u64) < 2 ^ 63" using r(1) S(1) al(2,4) by simp
  have i: "device_inv (dev_of b h)" "\<not> is_Plic (devImpl (dev_of b h))"
    using b h board_device_inv [OF b, of h] board_kinds [OF b] by auto
  have h': "h \<in> {h_ram, h_uart, h_clint, h_plic}" using h by blast
  note ans = board_answers [OF b h' d a(1,2)] and dev = device_returns [OF i w]
  show "returnsR (bus_read device_ops b a (of_nat n)) (\<lambda>_. True) \<longleftrightarrow> a \<noteq> base + S"
    unfolding ans dev d al(4) by (rule r(2))
  show "length bs = n \<Longrightarrow> returnsR (bus_write device_ops b a bs) (\<lambda>_. True) \<longleftrightarrow> a \<noteq> base + S"
    unfolding ans using dev(2) [of bs] r(2) by (simp add: al(4) d)
qed

lemma plic_region_returns:
  assumes b: "board_wf b" and a: "PLIC_BASE \<le> a" "a \<le> PLIC_BASE + PLIC_SIZE" "aligned_access a n"
  shows "returnsR (bus_read device_ops b a (of_nat n)) (\<lambda>_. True) \<longleftrightarrow>
      n = 4 \<and> a \<noteq> PLIC_BASE + PLIC_SIZE \<and> \<not> plic_read_hole (unat (a - PLIC_BASE))"
    and "n = 4 \<Longrightarrow> length bs = n \<Longrightarrow> returnsR (bus_write device_ops b a bs) (\<lambda>_. True) \<longleftrightarrow>
      a \<noteq> PLIC_BASE + PLIC_SIZE \<and> \<not> plic_write_hole (unat (a - PLIC_BASE)) (of_bytes bs)"
proof -
  note al = aligned_access_bounds [OF a(3)] and d = board_base(7,8) [OF b]
  obtain p where p: "devImpl (dev_of b h_plic) = Plic p" using board_kinds(4) [OF b] by blast
  note dp = device_plic [OF board_device_inv [OF b, of h_plic] p]
  have h: "h_plic \<in> {h_ram, h_uart, h_clint, h_plic}" by simp
  note ans = board_answers [OF b h d a(1,2)]
  have z: "PLIC_SIZE = 0x4000000" "unat PLIC_SIZE = 0x4000000" by (simp_all add: board_addresses)
  have r: "unat (a - PLIC_BASE) \<le> 0x4000000" "n dvd unat (a - PLIC_BASE)"
      "unat (a - PLIC_BASE) + n \<le> 0x4000000 \<longleftrightarrow> a \<noteq> PLIC_BASE + PLIC_SIZE"
    using in_region [OF a(1,2) _ al(3,11,12,1)] unfolding z by (simp_all add: board_addresses)
  have e: "a = PLIC_BASE + PLIC_SIZE \<Longrightarrow> a - PLIC_BASE = 0x4000000" by (simp add: board_addresses)
  let ?d = "with_impl (dev_of b h_plic) p"
  have s: "addrRegionSize ?d = 0x4000000" using d by (simp add: z)
  have i: "plic_inv ?d" using dp(3) by simp
  have f: "unat (a - PLIC_BASE) mod 4 = 0" if "n = 4" using r(2) that by (simp add: mod_eq_0_iff_dvd)
  show "returnsR (bus_read device_ops b a (of_nat n)) (\<lambda>_. True) \<longleftrightarrow>
      n = 4 \<and> a \<noteq> PLIC_BASE + PLIC_SIZE \<and> \<not> plic_read_hole (unat (a - PLIC_BASE))"
  proof (cases "n = 4")
    case True
    then show ?thesis
      using plic_returns(1,3) [OF i f s] r(3) e dp(1) by (auto simp: ans)
  next
    case False
    then have "(of_nat n :: u64) \<noteq> 4" using a(3) by (auto simp: aligned_access_def)
    then show ?thesis using False plic_read_size dp(1) by (simp add: ans)
  qed
  show "n = 4 \<Longrightarrow> length bs = n \<Longrightarrow> returnsR (bus_write device_ops b a bs) (\<lambda>_. True) \<longleftrightarrow>
      a \<noteq> PLIC_BASE + PLIC_SIZE \<and> \<not> plic_write_hole (unat (a - PLIC_BASE)) (of_bytes bs)"
    using plic_returns(2,4) [OF i f s, of bs] r(3) e dp(2) by (auto simp: ans)
qed

lemma plic_past_end_write:
  assumes "board_wf b" "aligned_access a (length bs)" "a = PLIC_BASE + PLIC_SIZE"
  shows "\<not> returnsR (bus_write device_ops b a bs) (\<lambda>_. True)"
proof -
  obtain p where p: "devImpl (dev_of b h_plic) = Plic p" using board_kinds(4) [OF assms(1)] by blast
  have "h_plic \<in> {h_ram, h_uart, h_clint, h_plic}" "PLIC_BASE \<le> a" "a \<le> PLIC_BASE + PLIC_SIZE"
    using assms(3) by (simp_all add: board_addresses)
  note ans = board_answers(2) [OF assms(1) this(1) board_base(7,8) [OF assms(1)] this(2,3)]
  have "unat (PLIC_SIZE + of_nat (length bs)) = unat PLIC_SIZE + length bs"
    using aligned_access_bounds [OF assms(2)] by (subst no_wrap64) (simp_all add: board_addresses)
  then have "\<not> PLIC_SIZE + of_nat (length bs) \<le> PLIC_SIZE"
    using aligned_access_bounds(1) [OF assms(2)] by (simp add: word_le_nat_alt)
  moreover have "a - PLIC_BASE = PLIC_SIZE" using assms(3) by simp
  ultimately show ?thesis
    using device_plic(2) [OF board_device_inv [OF assms(1), of h_plic] p] board_base(8) [OF assms(1)]
    by (simp add: ans plic_write_def)
qed

lemma region_sums:
  "unat RAM_BASE + unat RAM_SIZE < 2 ^ 62" "unat UART_BASE + unat UART_SIZE < 2 ^ 62"
  "unat CLINT_BASE + unat CLINT_SIZE < 2 ^ 62"
  by (simp_all add: board_addresses)

lemmas region_reads =
  region_returns(1) [of _ h_ram, OF _ _ board_base(1,2)] region_returns(1) [of _ h_uart, OF _ _ board_base(3,4)]
  region_returns(1) [of _ h_clint, OF _ _ board_base(5,6)]

lemmas region_writes =
  region_returns(2) [of _ h_ram, OF _ _ board_base(1,2)] region_returns(2) [of _ h_uart, OF _ _ board_base(3,4)]
  region_returns(2) [of _ h_clint, OF _ _ board_base(5,6)]

lemma address_cases:
  obtains (ram) "RAM_BASE \<le> a" "a \<le> RAM_BASE + RAM_SIZE"
    | (uart) "UART_BASE \<le> a" "a \<le> UART_BASE + UART_SIZE"
    | (clint) "CLINT_BASE \<le> a" "a \<le> CLINT_BASE + CLINT_SIZE"
    | (plic) "PLIC_BASE \<le> a" "a \<le> PLIC_BASE + PLIC_SIZE"
    | (silent) "\<not> in_plic a" "\<not> past_end a"
        "\<And>b h. board_wf b \<Longrightarrow> h \<in> {h_ram, h_uart, h_clint, h_plic} \<Longrightarrow> \<not> isAddrInRange (dev_of b h) a"
proof (cases "(RAM_BASE \<le> a \<and> a \<le> RAM_BASE + RAM_SIZE) \<or> (UART_BASE \<le> a \<and> a \<le> UART_BASE + UART_SIZE) \<or>
    (CLINT_BASE \<le> a \<and> a \<le> CLINT_BASE + CLINT_SIZE) \<or> (PLIC_BASE \<le> a \<and> a \<le> PLIC_BASE + PLIC_SIZE)")
  case True
  then show ?thesis by (elim disjE conjE) (fact ram uart clint plic)+
next
  case False
  then have "\<not> isAddrInRange (dev_of b h) a" if "board_wf b" "h \<in> {h_ram, h_uart, h_clint, h_plic}" for b h
    using that board_base [OF that(1)] by (auto simp: isAddrInRange_def)
  moreover have "\<not> in_plic a \<and> \<not> past_end a" using False by (intro silent_address) simp_all
  ultimately show ?thesis using silent by blast
qed

section \<open>Properties\<close>

text \<open>C26: On a well-formed board an aligned read of one, two, four or eight bytes returns unless it
  starts one past the end of a region, or is a read of the PLIC that is not a word or hits a word
  of the pending or enable bitmaps or a context register outside the arrays.\<close>

theorem board_reads_characterised:
  assumes "board_wf b" and "aligned_access a n"
  shows "returnsR (bus_read device_ops b a (of_nat n)) (\<lambda>_. True) \<longleftrightarrow>
    \<not> past_end a \<and> (in_plic a \<longrightarrow> n = 4 \<and> \<not> plic_read_hole (unat (a - PLIC_BASE)))"
proof (cases a rule: address_cases)
  case ram
  show ?thesis
    using region_reads(1) [OF assms(1) _ assms(1) assms(1) ram assms(2) region_sums(1)] past_end_cases(1) [OF ram]
      aligned_access_bounds [OF assms(2)] by simp
next
  case uart
  show ?thesis
    using region_reads(2) [OF assms(1) _ assms(1) assms(1) uart assms(2) region_sums(2)] past_end_cases(2) [OF uart]
      aligned_access_bounds [OF assms(2)] by simp
next
  case clint
  show ?thesis
    using region_reads(3) [OF assms(1) _ assms(1) assms(1) clint assms(2) region_sums(3)] past_end_cases(3) [OF clint]
      aligned_access_bounds [OF assms(2)] by simp
next
  case plic
  show ?thesis using plic_region_returns(1) [OF assms(1) plic assms(2)] past_end_cases(4) [OF plic] by auto
next
  case silent
  then show ?thesis using board_silent(1) [OF assms(1) silent(3)] assms(1) by blast
qed

theorem board_reads_characterised_witness:
  "returnsR (bus_read device_ops (sysBus example_platform) 0x80000008 8) (\<lambda>_. True) \<and>
   \<not> returnsR (bus_read device_ops (sysBus example_platform) 0xc001004 4) (\<lambda>_. True)"
proof -
  have b: "board_wf (sysBus example_platform)" using example_platform_wf by (simp add: platform_wf_def)
  show ?thesis
    using board_reads_characterised [OF b, of "0x80000008" 8] board_reads_characterised [OF b, of "0xc001004" 4]
    by (simp add: aligned_access_def past_end_def in_plic_def board_addresses plic_read_hole_def plic_pending_hole_def)
qed

text \<open>C27: On a well-formed board an aligned write of one, two, four or eight bytes, of words in the
  PLIC, returns unless it starts one past the end of a region, writes a word of an enable bitmap
  or a threshold outside the arrays, or completes a source with a number of 32 or more.\<close>

theorem board_writes_characterised:
  assumes "board_wf b" and "aligned_access a (length bs)" and "in_plic a \<Longrightarrow> length bs = 4"
  shows "returnsR (bus_write device_ops b a bs) (\<lambda>_. True) \<longleftrightarrow>
    \<not> past_end a \<and> (in_plic a \<longrightarrow> \<not> plic_write_hole (unat (a - PLIC_BASE)) (of_bytes bs))"
proof (cases a rule: address_cases)
  case ram
  show ?thesis
    using region_writes(1) [OF assms(1) _ assms(1) assms(1) ram assms(2) region_sums(1)] past_end_cases(1) [OF ram]
      aligned_access_bounds [OF assms(2)] by simp
next
  case uart
  show ?thesis
    using region_writes(2) [OF assms(1) _ assms(1) assms(1) uart assms(2) region_sums(2)] past_end_cases(2) [OF uart]
      aligned_access_bounds [OF assms(2)] by simp
next
  case clint
  show ?thesis
    using region_writes(3) [OF assms(1) _ assms(1) assms(1) clint assms(2) region_sums(3)] past_end_cases(3) [OF clint]
      aligned_access_bounds [OF assms(2)] by simp
next
  case plic
  show ?thesis
  proof (cases "in_plic a")
    case True
    then show ?thesis using plic_region_returns(2) [OF assms(1) plic assms(2) assms(3) refl] past_end_cases(4) [OF plic] by auto
  next
    case False
    then have "a = PLIC_BASE + PLIC_SIZE" using past_end_cases(4) [OF plic] by simp
    then show ?thesis
      using plic_past_end_write [OF assms(1,2)] past_end_cases(4) [OF plic] by simp
  qed
next
  case silent
  then show ?thesis using board_silent(2) [OF assms(1) silent(3)] assms(1) by blast
qed

theorem board_writes_characterised_witness:
  "returnsR (bus_write device_ops (sysBus example_platform) 0x80000008 [1, 2, 3, 4]) (\<lambda>_. True) \<and>
   \<not> returnsR (bus_write device_ops (sysBus example_platform) 0xc200004 [32, 0, 0, 0]) (\<lambda>_. True)"
proof -
  have b: "board_wf (sysBus example_platform)" using example_platform_wf by (simp add: platform_wf_def)
  show ?thesis
    using board_writes_characterised [OF b, of "0x80000008" "[1, 2, 3, 4]"] board_writes_characterised [OF b, of "0xc200004" "[32, 0, 0, 0]"]
    by (simp add: aligned_access_def past_end_def in_plic_def board_addresses plic_write_hole_def plic_complete_def
        plic_enable_hole_def)
qed

end
