(* ===== verification/Protection.thy ===== *)
theory Protection
  imports RV64_Inv Sv39_Walk Ram
begin

unbundle bit_operations_syntax

text \<open>
  Memory protection. A bus with memory behind it is a locale; over it, a core in U-mode whose
  translation buffer is coherent with protected page tables changes only bytes that the tables let
  the user write, in one step and in any number of steps up to the next trap.
\<close>

section \<open>Memory behind a bus\<close>

text \<open>\<open>byte b x\<close> is the byte that memory holds at the physical address \<open>x\<close>, \<open>memory a n\<close> says that the
  \<open>n\<close> bytes from \<open>a\<close> on are memory. Accesses elsewhere leave memory alone.\<close>

locale memory_bus = paddr_bus bus binv for bus :: "'b bus_ops" and binv +
  fixes byte :: "'b \<Rightarrow> u64 \<Rightarrow> u8" and memory :: "u64 \<Rightarrow> nat \<Rightarrow> bool"
  assumes memory_read: "binv b \<Longrightarrow> memory a (unat n) \<Longrightarrow>
      \<exists>b'. PAddr_ReadBuffer_MMIOBus_API bus b a n =
        Inr (MEMU_OK, Some (load_bytes (byte b) a (unat n)), b')"
    and memory_write: "binv b \<Longrightarrow> memory a (length bs) \<Longrightarrow>
      \<exists>b'. PAddr_WriteBuffer_MMIOBus_API bus b a bs = Inr (MEMU_OK, b') \<and> byte b' = store_bytes (byte b) a bs"
    and read_frame: "binv b \<Longrightarrow> PAddr_ReadBuffer_MMIOBus_API bus b a n = Inr (fb, r, b') \<Longrightarrow> byte b' = byte b"
    and write_frame: "binv b \<Longrightarrow> PAddr_WriteBuffer_MMIOBus_API bus b a bs = Inr (fb, b') \<Longrightarrow>
      x \<notin> (\<lambda>i. a + of_nat i) ` {..<length bs} \<Longrightarrow> byte b' x = byte b x"

section \<open>What the user may write\<close>

definition word_at :: "('b \<Rightarrow> u64 \<Rightarrow> u8) \<Rightarrow> 'b \<Rightarrow> u64 \<Rightarrow> u64" where
  "word_at byte b a = of_bytes (load_bytes (byte b) a 8)"

lemma to_bytes_word_at: "to_bytes 8 (word_at byte b a) = load_bytes (byte b) a 8"
  using to_bytes_of_bytes [of "load_bytes (byte b) a 8", where 'a = 64] by (simp add: word_at_def)

text \<open>The environment in which the translation unit works while the core is in U-mode.\<close>

definition user_env :: "core \<Rightarrow> mmu_env" where
  "user_env c = \<lparr>env_priv = U_MODE, env_satp = satp c, env_status = status c, env_hart = rvHartID c\<rparr>"

text \<open>The physical bytes that some mapping lets be written.\<close>

definition writable :: "(u64 \<Rightarrow> u64) \<Rightarrow> mmu_env \<Rightarrow> u64 \<Rightarrow> bool" where
  "writable mem e x \<longleftrightarrow> (\<exists>va pte l. sv39 mem e va = Some (pte, l) \<and> store_allowed e pte \<and> x = sv39_paddr pte l va)"

text \<open>Every entry that a walk reads lies in memory, where the user cannot write.\<close>

definition tables_protected :: "(u64 \<Rightarrow> nat \<Rightarrow> bool) \<Rightarrow> (u64 \<Rightarrow> u64) \<Rightarrow> mmu_env \<Rightarrow> bool" where
  "tables_protected memory mem e \<longleftrightarrow> (\<forall>va. \<forall>a \<in> set (walk_addrs mem 2 (sv39_root e) va).
     memory a 8 \<and> (\<forall>i < 8. \<not> writable mem e (a + of_nat i)))"

text \<open>Steps of a core from U-mode; between steps the interrupt lines change.\<close>

inductive user_steps :: "'b bus_ops \<Rightarrow> core \<times> 'b \<Rightarrow> core \<times> 'b \<Rightarrow> bool" for bus s where
  start: "user_steps bus s s"
| step: "user_steps bus s (c', b') \<Longrightarrow> nextPrivMode c' = U_MODE \<Longrightarrow>
     Step_CoreAPI bus (c'\<lparr>intStatus := i\<rparr>) b' = Inr (c'', b'') \<Longrightarrow> user_steps bus s (c'', b'')"

lemma page_offset:
  assumes "\<not> crosses_page va (of_nat n)" "n \<le> 8" "i < n"
  shows "unat va mod 4096 + i < 4096"
proof (rule ccontr)
  let ?j = "n - 1"
  assume "\<not> unat va mod 4096 + i < 4096"
  then have far: "4096 \<le> unat va mod 4096 + ?j" using assms(3) by simp
  have d: "unat (drop_bit 12 x) = unat x div 4096" for x :: u64
    by (simp add: drop_bit_eq_div unat_div)
  have n: "(of_nat n :: u64) - 1 = of_nat ?j" using assms(3) by (simp add: of_nat_diff)
  have "drop_bit 12 va = drop_bit 12 (va + of_nat ?j)"
    using assms(1) n by (simp add: crosses_page_def add_diff_eq [symmetric])
  then have e: "unat (va + of_nat ?j) div 4096 = unat va div 4096"
    using d [of va] d [of "va + of_nat ?j"] by simp
  show False
  proof (cases "unat va + ?j < 2 ^ 64")
    case True
    then have "(unat va + ?j) div 4096 = unat va div 4096" using e by (simp add: unat_offset)
    moreover have "unat va + ?j < 4096 + 4096 * ((unat va + ?j) div 4096)" by (rule dividend_less_times_div) simp
    moreover have "4096 * (unat va div 4096) + unat va mod 4096 = unat va" by (rule mult_div_mod_eq)
    ultimately show False using far by linarith
  next
    case False
    then have "unat (va + of_nat ?j) = (unat va + ?j - 2 ^ 64) mod 2 ^ 64"
      using assms(2) by (simp add: unat_word_ariths unat_of_nat le_mod_geq)
    also have "\<dots> \<le> unat va + ?j - 2 ^ 64" by (rule mod_less_eq_dividend)
    finally have "unat (va + of_nat ?j) < 8" using assms(2) unat_lt64 [of va] by linarith
    then have "unat va div 4096 = 0" using e by simp
    with False assms(2) show False by simp
  qed
qed

lemma same_page:
  assumes "unat va mod 4096 + i < 4096" "12 \<le> L"
  shows "drop_bit L (va + of_nat i) = drop_bit L (va :: u64)" "take_bit L (va + of_nat i) = take_bit L va + of_nat i"
proof -
  define q k where "q = unat va div 4096" and "k = unat va mod 4096"
  have u: "unat va = 4096 * q + k" by (simp add: q_def k_def)
  have "q < 4503599627370496" using unat_lt64 [of va] by (simp add: q_def less_mult_imp_div_less)
  moreover have k: "k + i < 4096" using assms(1) by (simp only: k_def)
  ultimately have "unat va + i < 18446744073709551616" using u by linarith
  then have w: "unat (va + of_nat i) = unat va + i" by (intro unat_offset) simp
  have "(unat va + i) div 4096 = q"
    using k by (simp add: u add.assoc div_nat_eqI)
  moreover obtain m where "L = 12 + m" using assms(2) le_Suc_ex by blast
  then have "x div 2 ^ L = x div 4096 div 2 ^ m" for x :: nat by (simp add: power_add div_mult2_eq)
  ultimately have "unat (va + of_nat i) div 2 ^ L = unat va div 2 ^ L" using w by (simp add: q_def)
  then have d: "drop_bit L (va + of_nat i) = drop_bit L va"
    unfolding word_unat_eq_iff unat_drop_bit_eq by (simp add: drop_bit_eq_div)
  then show "drop_bit L (va + of_nat i) = drop_bit L va" .
  have "push_bit L (drop_bit L va) + take_bit L (va + of_nat i) = push_bit L (drop_bit L va) + take_bit L va + of_nat i"
    using bits_ident [of L "va + of_nat i"] bits_ident [of L va] by (simp only: d)
  then show "take_bit L (va + of_nat i) = take_bit L va + of_nat i"
    by (simp only: add.assoc add_left_cancel)
qed

lemma sv39_page_bytes:
  assumes "sv39 mem e va = Some (pte, l)" "\<not> crosses_page va (of_nat n)" "n \<le> 8" "i < n"
  shows "sv39 mem e (va + of_nat i) = Some (pte, l) \<and> sv39_paddr pte l (va + of_nat i) = sv39_paddr pte l va + of_nat i"
proof -
  have "12 \<le> level_bits l" by (simp add: level_bits_def)
  note sp = same_page [OF page_offset [OF assms(2-4)] this]
  show ?thesis
    using sv39_walk_page [OF assms(1) [unfolded sv39_def] sp(1)] sp(2) by (simp add: sv39_def sv39_paddr_def add.assoc)
qed

section \<open>Translated accesses\<close>

context memory_bus
begin

abbreviation words :: "'b \<Rightarrow> u64 \<Rightarrow> u64" where
  "words \<equiv> word_at byte"

definition table_entries :: "mmu_env \<Rightarrow> 'b \<Rightarrow> u64 set" where
  "table_entries e b0 = (\<Union>va. set (walk_addrs (words b0) 2 (sv39_root e) va))"

definition intact :: "mmu_env \<Rightarrow> 'b \<Rightarrow> 'b \<Rightarrow> bool" where
  "intact e b0 b \<longleftrightarrow> binv b \<and> (\<forall>x. \<not> writable (words b0) e x \<longrightarrow> byte b x = byte b0 x)"

lemma intact_read: "intact e b0 b \<Longrightarrow> holdsR (PAddr_ReadBuffer_MMIOBus_API bus b a n) (\<lambda>(fb, r, b'). intact e b0 b')"
  by (rule holdsR_I) (auto simp: intact_def dest: bus_read_inv read_frame)

lemma intact_write:
  assumes "intact e b0 b" "\<And>i. i < length bs \<Longrightarrow> writable (words b0) e (a + of_nat i)"
  shows "holdsR (PAddr_WriteBuffer_MMIOBus_API bus b a bs) (\<lambda>(fb, b'). intact e b0 b')"
proof (rule holdsR_I)
  fix r assume w: "PAddr_WriteBuffer_MMIOBus_API bus b a bs = Inr r"
  obtain fb b' where r: "r = (fb, b')" by (cases r)
  have "byte b' x = byte b x" if "\<not> writable (words b0) e x" for x
    using write_frame [OF _ w [unfolded r], of x] assms that by (auto simp: intact_def)
  then show "case r of (fb, b') \<Rightarrow> intact e b0 b'"
    using assms(1) bus_write_inv [OF _ w [unfolded r]] by (simp add: r intact_def)
qed

lemma intact_tables:
  assumes "tables_protected memory (words b0) e"
  shows "pt_memory bus (intact e b0) (words b0) (table_entries e b0)"
  unfolding pt_memory_def
proof (intro allI impI, elim conjE)
  fix b a
  assume b: "intact e b0 b" and a: "a \<in> table_entries e b0"
  have m: "memory a 8" "i < 8 \<Longrightarrow> byte b (a + of_nat i) = byte b0 (a + of_nat i)" for i
    using assms a b by (auto simp: tables_protected_def table_entries_def intact_def)
  then obtain b' where r: "PAddr_ReadBuffer_MMIOBus_API bus b a 8 =
      Inr (MEMU_OK, Some (load_bytes (byte b) a 8), b')"
    using memory_read [of b a 8] b by (auto simp: intact_def)
  moreover have "load_bytes (byte b) a 8 = to_bytes 8 (words b0 a)"
    unfolding to_bytes_word_at load_bytes_def by (rule map_cong) (use m(2) in auto)
  ultimately show "returnsR (PAddr_ReadBuffer_MMIOBus_API bus b a 8)
      (\<lambda>(fb, r, b'). fb = MEMU_OK \<and> r = Some (to_bytes 8 (words b0 a)) \<and> intact e b0 b')"
    using intact_read [OF b, of a 8] by simp
qed

text \<open>The translation unit and the bus while the user runs.\<close>

definition guarded :: "mmu_env \<Rightarrow> 'b \<Rightarrow> mmu \<Rightarrow> 'b \<Rightarrow> bool" where
  "guarded e b0 m b \<longleftrightarrow> tables_protected memory (words b0) e \<and> bget satp_mode (env_satp e) = 8 \<and> env_priv e = U_MODE \<and>
     tlb_ok (words b0) e m \<and> intact e b0 b"

lemma guarded_env: "guarded e b0 m b \<Longrightarrow> \<not> bare_access e \<and> access_priv e = U_MODE"
  by (simp add: guarded_def bare_access_def access_priv_def)

lemma guarded_lookup:
  assumes "guarded e b0 m b"
  shows "holdsR (getTLBEntry bus e m b va) (\<lambda>(p, m', b'). guarded e b0 m' b' \<and>
    (\<forall>i. p = Some i \<longrightarrow> (\<exists>pte l. sv39 (words b0) e va = Some (pte, l) \<and> l \<le> 2 \<and> entry_attrs (tlb m' ! i) pte l)))"
proof (cases "canonical va")
  case True
  have g: "tlb_ok (words b0) e m" "intact e b0 b" "bget satp_mode (env_satp e) = 8"
    using assms by (simp_all add: guarded_def)
  have t: "pt_memory bus (intact e b0) (words b0) (table_entries e b0)"
    using assms by (intro intact_tables) (simp add: guarded_def)
  have "set (walk_addrs (words b0) 2 (sv39_root e) va) \<subseteq> table_entries e b0" by (auto simp: table_entries_def)
  from g(1,2) t this g(3) True show ?thesis
    by (cases rule: getTLBEntry_walk_cases) (use assms in \<open>auto simp: guarded_def\<close>)
qed (simp add: getTLBEntry_def)

lemma guarded_read:
  "guarded e b0 m b \<Longrightarrow> (\<And>fb r b'. guarded e b0 m b' \<Longrightarrow> holdsR (f (fb, r, b')) P) \<Longrightarrow>
   holdsR (bindR (PAddr_ReadBuffer_MMIOBus_API bus b a n) f) P"
  by (rule holdsR_bindI [OF intact_read]) (auto simp: guarded_def)

lemma guarded_find:
  "guarded e b0 m b \<Longrightarrow>
   (\<And>p m' b'. guarded e b0 m' b' \<Longrightarrow>
      (\<And>i. p = Some i \<Longrightarrow> \<exists>pte l. sv39 (words b0) e va = Some (pte, l) \<and> l \<le> 2 \<and> entry_attrs (tlb m' ! i) pte l) \<Longrightarrow>
      holdsR (f (p, m', b')) P) \<Longrightarrow>
   holdsR (bindR (getTLBEntry bus e m b va) f) P"
  by (rule holdsR_bindI [OF guarded_lookup]) auto

text \<open>A store that the entry of its page allows.\<close>

lemma guarded_write:
  assumes g: "guarded e b0 m b"
    and t: "\<exists>pte l. sv39 (words b0) e va = Some (pte, l) \<and> l \<le> 2 \<and> entry_attrs t pte l"
    and allowed: "te_A t" "te_D t" "te_W t" "te_U t"
    and page: "\<not> crosses_page va (of_nat (length bs))" "length bs \<le> 8"
  shows "holdsR (PAddr_WriteBuffer_MMIOBus_API bus b (te_ppa t + va mod page_size_of t) bs) (\<lambda>(fb, b'). guarded e b0 m b')"
proof -
  obtain pte l where w: "sv39 (words b0) e va = Some (pte, l)" "l \<le> 2" "entry_attrs t pte l" using t by blast
  have pa: "te_ppa t + va mod page_size_of t = sv39_paddr pte l va" using attrs_page_size [OF w(3,2)] by simp
  have "store_allowed e pte"
    using w(3) allowed guarded_env [OF g] by (simp add: store_allowed_def entry_attrs_def)
  then have "writable (words b0) e (sv39_paddr pte l va + of_nat i)" if "i < length bs" for i
    using sv39_page_bytes [OF w(1) page that] unfolding writable_def by metis
  then have "holdsR (PAddr_WriteBuffer_MMIOBus_API bus b (sv39_paddr pte l va) bs) (\<lambda>(fb, b'). intact e b0 b')"
    using g by (intro intact_write) (auto simp: guarded_def)
  then show ?thesis
    unfolding pa by (rule holdsR_mono) (use g in \<open>auto simp: guarded_def\<close>)
qed

lemma guarded_store:
  "guarded e b0 m b \<Longrightarrow> \<exists>pte l. sv39 (words b0) e va = Some (pte, l) \<and> l \<le> 2 \<and> entry_attrs t pte l \<Longrightarrow>
   te_A t \<and> te_D t \<and> te_W t \<and> te_U t \<Longrightarrow> \<not> crosses_page va (of_nat (length bs)) \<Longrightarrow> length bs \<le> 8 \<Longrightarrow>
   (\<And>fb b'. guarded e b0 m b' \<Longrightarrow> holdsR (f (fb, b')) P) \<Longrightarrow>
   holdsR (bindR (PAddr_WriteBuffer_MMIOBus_API bus b (te_ppa t + va mod page_size_of t) bs) f) P"
  by (rule holdsR_bindI [OF guarded_write]) auto

lemma guarded_lr:
  "guarded e b0 (reserve e' a n m) b = guarded e b0 m b" "guarded e b0 (drop_reservation e' m) b = guarded e b0 m b"
  "guarded e b0 (m\<lparr>lr_valid := f\<rparr>) b = guarded e b0 m b"
  by (simp_all add: guarded_def tlb_ok_def tlb_coherent_def tlb_unique_def reserve_def drop_reservation_def mmu_wf_def)

lemmas guarded_rules = guarded_read guarded_find guarded_store holdsR_assertI

lemma read_guarded:
  "guarded e b0 m b \<Longrightarrow> holdsR (VAddr_ReadBuffer_MMU_API bus e m b a n) (\<lambda>(fb, r, m', b'). guarded e b0 m' b')"
  by (auto simp: VAddr_ReadBuffer_MMU_API_def Let_def guarded_env split: option.split simp del: holdsR_bindR holdsR_assertR
      intro!: guarded_read guarded_find holdsR_assertI)

lemma write_guarded:
  "guarded e b0 m b \<Longrightarrow> length bs \<le> 8 \<Longrightarrow>
   holdsR (VAddr_WriteBuffer_MMU_API bus e m b a bs) (\<lambda>(fb, m', b'). guarded e b0 m' b')"
  by (auto simp: VAddr_WriteBuffer_MMU_API_def Let_def guarded_env split: option.split simp del: holdsR_bindR holdsR_assertR
      intro!: guarded_rules)

lemma fetch_part_guarded:
  "guarded e b0 m b \<Longrightarrow> holdsR (inst_fetch_part bus e m b a n buf) (\<lambda>(fb, buf', m', b'). guarded e b0 m' b')"
  by (auto simp: inst_fetch_part_def Let_def split: option.split simp del: holdsR_bindR holdsR_assertR
      intro!: guarded_read guarded_find holdsR_assertI)

lemma fetch_guarded:
  assumes "guarded e b0 m b"
  shows "holdsR (VAddr_InstFetch_MMU_API bus e m b a n buf) (\<lambda>(fb, buf', m', b'). guarded e b0 m' b')"
proof -
  have "holdsR (bindR (inst_fetch_part bus e m1 b1 a' n' buf1) (\<lambda>(fb, hi, m2, b2). Inr (g fb, h hi, m2, b2)))
      (\<lambda>(fb, buf', m', b'). guarded e b0 m' b')" if "guarded e b0 m1 b1"
    for m1 b1 a' n' buf1 and g :: "VAddr_RW_Feedback \<Rightarrow> VAddr_RW_Feedback" and h :: "u8 list \<Rightarrow> u8 list"
    by (rule holdsR_bindI [OF fetch_part_guarded [OF that]]) auto
  then show ?thesis
    unfolding VAddr_InstFetch_MMU_API_def
    by (auto intro!: fetch_part_guarded assms holdsR_bindI [OF fetch_part_guarded [OF assms]] simp del: holdsR_bindR)
qed

lemma lr_guarded:
  "guarded e b0 m b \<Longrightarrow> holdsR (vaddrLoadReserved bus e m b a n) (\<lambda>(exc, r, m', b'). guarded e b0 m' b')"
  by (auto simp: vaddrLoadReserved_def Let_def guarded_env guarded_lr split: option.split simp del: holdsR_bindR holdsR_assertR
      intro!: guarded_read guarded_find holdsR_assertI)

lemma sc_guarded:
  "guarded e b0 m b \<Longrightarrow> length bs \<le> 8 \<Longrightarrow>
   holdsR (vaddrStoreConditional bus e m b a bs) (\<lambda>(exc, r, m', b'). guarded e b0 m' b')"
  by (auto simp: vaddrStoreConditional_def Let_def guarded_env guarded_lr split: option.split
      simp del: holdsR_bindR holdsR_assertR intro!: guarded_rules)

lemma amo_value_then: "(\<And>y. holdsR (f y) P) \<Longrightarrow> holdsR (bindR (amo_to_write op s v) f) P"
  by (rule holdsR_bindI [OF holdsR_any])

lemma pa_amo_guarded:
  assumes "guarded e b0 m b" "\<exists>pte l. sv39 (words b0) e va = Some (pte, l) \<and> l \<le> 2 \<and> entry_attrs t pte l"
    "te_A t \<and> te_D t \<and> te_W t \<and> te_U t" "\<not> crosses_page va n" "n = 4 \<or> n = 8"
  shows "holdsR (pa_amo_op bus b (te_ppa t + va mod page_size_of t) n op src) (\<lambda>(ok, r, b'). guarded e b0 m b')"
proof -
  have n: "unat n \<le> 8" using assms(5) by auto
  show ?thesis
    unfolding pa_amo_op_def Let_def
    by (rule guarded_read [OF assms(1)])
      (auto simp: n assms(3,4) simp del: holdsR_bindR intro!: any_then amo_value_then guarded_store [OF _ assms(2)])
qed

lemma amo_guarded:
  assumes "guarded e b0 m b"
  shows "holdsR (vaddrAtomicMemOperation bus e m b a n op src) (\<lambda>(exc, r, m', b'). guarded e b0 m' b')"
  using assms
  by (auto simp: vaddrAtomicMemOperation_def Let_def guarded_env split: option.split simp del: holdsR_bindR holdsR_assertR
      intro!: guarded_find holdsR_assertI holdsR_bindI [OF pa_amo_guarded])

section \<open>Instructions\<close>

text \<open>Before an instruction the core is in U-mode and its unit is guarded; afterwards it still is, unless
  a trap has been raised. Memory is intact in any case.\<close>

definition user_x :: "mmu_env \<Rightarrow> 'b \<Rightarrow> 'b xstate \<Rightarrow> bool" where
  "user_x e b0 x \<longleftrightarrow> core_env (xc x) = e \<and> guarded e b0 (sv39MMU (xc x)) (xb x)"

definition after_x :: "mmu_env \<Rightarrow> 'b \<Rightarrow> 'b xstate \<Rightarrow> bool" where
  "after_x e b0 x \<longleftrightarrow> intact e b0 (xb x) \<and> (nextPrivMode (xc x) = U_MODE \<longrightarrow> user_x e b0 x)"

lemma user_after: "user_x e b0 x \<Longrightarrow> after_x e b0 x"
  by (simp add: user_x_def after_x_def guarded_def)

lemma user_x_mode: "user_x e b0 x \<Longrightarrow> currentPrivMode (xc x) = U_MODE"
  by (auto simp: user_x_def guarded_def core_env_def)

lemma user_x_upd [simp]:
  "user_x e b0 (set_pc p x) = user_x e b0 x" "user_x e b0 (x\<lparr>is_new_pc_set := f\<rparr>) = user_x e b0 x"
  "user_x e b0 (x\<lparr>is_instr_illegal := f\<rparr>) = user_x e b0 x"
  by (simp_all add: user_x_def set_pc_def core_env_def)

lemma after_x_upd [simp]:
  "after_x e b0 (set_pc p x) = after_x e b0 x" "after_x e b0 (x\<lparr>is_new_pc_set := f\<rparr>) = after_x e b0 x"
  "after_x e b0 (x\<lparr>is_instr_illegal := f\<rparr>) = after_x e b0 x"
  by (simp_all add: after_x_def) (simp add: set_pc_def)

lemma user_access:
  "user_x e b0 x \<Longrightarrow> guarded (core_env (xc x)) b0 (sv39MMU (xc x)) (xb x)"
  "user_x e b0 x \<Longrightarrow> guarded (core_env (xc x)) b0 m b \<Longrightarrow> user_x e b0 (x\<lparr>xc := (xc x)\<lparr>sv39MMU := m\<rparr>, xb := b\<rparr>)"
  by (simp_all add: user_x_def core_env_def)

lemma user_access_after:
  "user_x e b0 x \<Longrightarrow> guarded (core_env (xc x)) b0 m b \<Longrightarrow> after_x e b0 (x\<lparr>xc := (xc x)\<lparr>sv39MMU := m\<rparr>, xb := b\<rparr>)"
  by (rule user_after [OF user_access(2)])

lemma setGPR_user: "holdsR (setGPR i v c) (\<lambda>c'. core_env c' = core_env c \<and> sv39MMU c' = sv39MMU c \<and> nextPrivMode c' = nextPrivMode c)"
  by (auto simp: setGPR_def core_env_def intro!: holdsR_assertI)

lemma set_rd_after: "after_x e b0 x \<Longrightarrow> holdsR (set_rd i v x) (after_x e b0)"
  unfolding set_rd_def by (rule holdsR_bindI [OF setGPR_user]) (auto simp: after_x_def user_x_def)

lemma raise_leaves_user: "holdsR (raiseTrap cause tval c) (\<lambda>c'. nextPrivMode c' \<noteq> U_MODE)"
  by (auto simp: raiseTrap_def Let_def intro!: holdsR_assertI)

lemma raise_after: "after_x e b0 x \<Longrightarrow> holdsR (raise_x cause tval x) (after_x e b0)"
  unfolding raise_x_def by (rule holdsR_bindI [OF raise_leaves_user]) (auto simp: after_x_def)

lemma trap_after: "after_x e b0 x \<Longrightarrow> holdsR (bindR (raiseTrap cause tval c) (\<lambda>c. Inr (x\<lparr>xc := c\<rparr>))) (after_x e b0)"
  by (rule holdsR_bindI [OF raise_leaves_user]) (auto simp: after_x_def)

lemma set_rd_after_then:
  "after_x e b0 x \<Longrightarrow> (\<And>x'. after_x e b0 x' \<Longrightarrow> holdsR (f x') P) \<Longrightarrow> holdsR (bindR (set_rd i v x) f) P"
  by (rule holdsR_bindI [OF set_rd_after])

lemma raise_after_then:
  "after_x e b0 x \<Longrightarrow> (\<And>x'. after_x e b0 x' \<Longrightarrow> holdsR (f x') P) \<Longrightarrow> holdsR (bindR (raise_x c v x) f) P"
  by (rule holdsR_bindI [OF raise_after])

lemma illegal_after: "after_x e b0 x \<Longrightarrow> holdsR (illegal x) (after_x e b0)"
  by (simp add: illegal_def)

lemma alu_to_after: "after_x e b0 x \<Longrightarrow> holdsR (alu_to rd a b op w x) (after_x e b0)"
  unfolding alu_to_def by (rule holdsR_bindI [OF holdsR_any]) (rule set_rd_after)

lemmas after_rules = set_rd_after raise_after illegal_after alu_to_after set_rd_after_then raise_after_then holdsR_assertI

lemma integer_after:
  assumes "after_x e b0 x"
  shows "holdsR (exec_LUI inst x) (after_x e b0)" "holdsR (exec_AUIPC inst x) (after_x e b0)"
    "holdsR (exec_JAL inst x) (after_x e b0)" "holdsR (exec_JALR inst x) (after_x e b0)"
    "holdsR (exec_BRANCH inst x) (after_x e b0)" "holdsR (exec_OPIMM inst x) (after_x e b0)"
    "holdsR (exec_OPIMM32 inst x) (after_x e b0)" "holdsR (exec_OP inst x) (after_x e b0)"
    "holdsR (exec_OP32 inst x) (after_x e b0)"
  using assms
  by (auto simp: exec_LUI_def exec_AUIPC_def exec_JAL_def exec_JALR_def exec_BRANCH_def exec_OPIMM_def exec_OPIMM32_def
      exec_OP_def exec_OP32_def Let_def split: option.split bool.split simp del: holdsR_bindR holdsR_assertR
      intro!: after_rules)

text \<open>Memory instructions.\<close>

lemma access4_user:
  "holdsR M (\<lambda>(fb, r, m', b'). guarded (core_env (xc x)) b0 m' b') \<Longrightarrow> user_x e b0 x \<Longrightarrow>
   (\<And>fb r m b. after_x e b0 (x\<lparr>xc := (xc x)\<lparr>sv39MMU := m\<rparr>, xb := b\<rparr>) \<Longrightarrow> holdsR (f (fb, r, m, b)) P) \<Longrightarrow>
   holdsR (bindR M f) P"
  by (erule holdsR_bindI) (auto simp: user_access_after)

lemma access3_user:
  "holdsR M (\<lambda>(fb, m', b'). guarded (core_env (xc x)) b0 m' b') \<Longrightarrow> user_x e b0 x \<Longrightarrow>
   (\<And>fb m b. after_x e b0 (x\<lparr>xc := (xc x)\<lparr>sv39MMU := m\<rparr>, xb := b\<rparr>) \<Longrightarrow> holdsR (f (fb, m, b)) P) \<Longrightarrow>
   holdsR (bindR M f) P"
  by (erule holdsR_bindI) (auto simp: user_access_after)

lemma memRead_after: "user_x e b0 x \<Longrightarrow> holdsR (memRead bus a n x) (\<lambda>(ok, buf, x'). after_x e b0 x')"
  by (auto simp: memRead_def Let_def simp del: holdsR_bindR holdsR_assertR
      intro!: raise_after_then holdsR_assertI access4_user [OF read_guarded [OF user_access(1)]] intro: user_after)

lemma memWrite_after: "user_x e b0 x \<Longrightarrow> length bs \<le> 8 \<Longrightarrow> holdsR (memWrite bus a bs x) (after_x e b0)"
  by (auto simp: memWrite_def Let_def simp del: holdsR_bindR holdsR_assertR
      intro!: raise_after holdsR_assertI access3_user [OF write_guarded [OF user_access(1)]] intro: user_after)

lemma load_to_after: "user_x e b0 x \<Longrightarrow> holdsR (load_to bus a n conv rd x) (after_x e b0)"
  unfolding load_to_def
  by (rule holdsR_bindI [OF memRead_after]) (auto simp del: holdsR_bindR intro!: any_then set_rd_after)

lemma exec_LOAD_after: "user_x e b0 x \<Longrightarrow> holdsR (exec_LOAD bus inst x) (after_x e b0)"
  by (simp add: exec_LOAD_def Let_def load_to_after illegal_after user_after)

lemma exec_STORE_after: "user_x e b0 x \<Longrightarrow> holdsR (exec_STORE bus inst x) (after_x e b0)"
  by (simp add: exec_STORE_def Let_def memWrite_after illegal_after user_after)

lemma exec_AMO_after:
  assumes "user_x e b0 x"
  shows "holdsR (exec_AMO bus inst x) (after_x e b0)"
  using assms user_after [OF assms]
  by (auto simp: exec_AMO_def Let_def simp del: holdsR_bindR holdsR_assertR split: option.split AMO_Funct_enum.split
      intro!: after_rules any_then access4_user [OF lr_guarded [OF user_access(1)]]
        access4_user [OF sc_guarded [OF user_access(1)]] access4_user [OF amo_guarded [OF user_access(1)]])

text \<open>System instructions: the user can return from no trap, flush nothing and write no register.\<close>

lemma or_illegal_after: "after_x e b0 x \<Longrightarrow> holdsR (or_illegal None x) (after_x e b0)"
  by (simp add: or_illegal_def illegal_after)

lemma exec_PRIV_after: "user_x e b0 x \<Longrightarrow> holdsR (exec_PRIV inst x) (after_x e b0)"
  using user_after user_x_mode [of e b0 x]
  by (auto simp: exec_PRIV_def Let_def ecall_def ebreak_def sret_def mret_def sfence_vma_def simp del: holdsR_bindR
      intro!: illegal_after or_illegal_after trap_after)

end

lemma csr_of_index: "csr_of k = Some i \<Longrightarrow> csr_addr i = k"
  by (auto simp: csr_of_def dest: find_Some_iff [THEN iffD1])

lemma user_writes_no_csr:
  assumes "currentPrivMode c = U_MODE" "csr_op_permission_check k True c"
  shows "csr_write (csr_of k) d c = Inr None"
proof (cases "csr_of k")
  case None
  then show ?thesis by (simp add: csr_write_def)
next
  case (Some i)
  with assms csr_of_index [OF Some] show ?thesis
    by (cases i) (simp_all add: csr_write_def csr_op_permission_check_def)
qed

context memory_bus
begin

lemma exec_csr_after:
  assumes "user_x e b0 x"
  shows "holdsR (exec_csr inst w w new x) (after_x e b0)"
proof (cases w)
  case True
  then show ?thesis
    using illegal_after [OF user_after [OF assms]] user_writes_no_csr [OF user_x_mode [OF assms]]
    by (auto simp: exec_csr_def Let_def split: option.split)
next
  case False
  then show ?thesis
    using user_after [OF assms] illegal_after [OF user_after [OF assms]] set_rd_after [OF user_after [OF assms]]
    by (auto simp: exec_csr_def Let_def split: option.split)
qed

lemma exec_SYSTEM_after: "user_x e b0 x \<Longrightarrow> holdsR (exec_SYSTEM inst x) (after_x e b0)"
  by (simp add: exec_SYSTEM_def Let_def exec_CSRRW_def exec_CSRRS_def exec_CSRRC_def exec_CSRRWI_def
      exec_CSRRSI_def exec_CSRRCI_def exec_csr_after exec_PRIV_after illegal_after user_after)

lemma exec_32_after: "user_x e b0 x \<Longrightarrow> holdsR (exec_32 bus inst x) (after_x e b0)"
  by (simp add: exec_32_def Let_def integer_after exec_LOAD_after exec_STORE_after exec_AMO_after exec_SYSTEM_after
      illegal_after user_after)

lemma c_jump_after: "after_x e b0 x \<Longrightarrow> holdsR (c_jump link t x) (after_x e b0)"
  by (auto simp: c_jump_def Let_def simp del: holdsR_bindR intro!: after_rules)

lemma c_control_after: "after_x e b0 x \<Longrightarrow> holdsR (exec_C_JR_MV_EB_JALR_ADD inst x) (after_x e b0)"
  by (auto simp: exec_C_JR_MV_EB_JALR_ADD_def Let_def ebreak_def simp del: holdsR_bindR
      intro!: after_rules c_jump_after trap_after)

lemma c_parts_after:
  assumes "user_x e b0 x"
  shows "holdsR (exec_C_LW bus inst x) (after_x e b0)" "holdsR (exec_C_LD bus inst x) (after_x e b0)"
    "holdsR (exec_C_SW bus inst x) (after_x e b0)" "holdsR (exec_C_SD bus inst x) (after_x e b0)"
    "holdsR (exec_C_LWSP bus inst x) (after_x e b0)" "holdsR (exec_C_LDSP bus inst x) (after_x e b0)"
    "holdsR (exec_C_SWSP bus inst x) (after_x e b0)" "holdsR (exec_C_SDSP bus inst x) (after_x e b0)"
    "holdsR (exec_C_ADDI4SPN inst x) (after_x e b0)" "holdsR (exec_C_ADDI inst x) (after_x e b0)"
    "holdsR (exec_C_ADDIW inst x) (after_x e b0)" "holdsR (exec_C_LI inst x) (after_x e b0)"
    "holdsR (exec_C_ADDI16SPN_LUI inst x) (after_x e b0)" "holdsR (exec_C_ALU inst x) (after_x e b0)"
    "holdsR (exec_C_J inst x) (after_x e b0)" "holdsR (exec_C_BEQZ inst x) (after_x e b0)"
    "holdsR (exec_C_BNEZ inst x) (after_x e b0)" "holdsR (exec_C_SLLI inst x) (after_x e b0)"
  by (simp_all add: c_defs Let_def load_to_after memWrite_after set_rd_after alu_to_after illegal_after user_after assms)

lemma exec_C_after: "user_x e b0 x \<Longrightarrow> holdsR (exec_C bus inst x) (after_x e b0)"
  by (simp add: exec_C_def Let_def c_parts_after c_control_after illegal_after user_after)

section \<open>Steps\<close>

definition user_inv :: "mmu_env \<Rightarrow> 'b \<Rightarrow> core \<Rightarrow> 'b \<Rightarrow> bool" where
  "user_inv e b0 c b \<longleftrightarrow> intact e b0 b \<and> (nextPrivMode c = U_MODE \<longrightarrow> user_env c = e \<and> guarded e b0 (sv39MMU c) b)"

lemma user_env_x: "core_env c = e \<Longrightarrow> env_priv e = U_MODE \<Longrightarrow> user_env c = e"
  by (auto simp: core_env_def user_env_def)

lemma finish_after:
  assumes "after_x e b0 x"
  shows "holdsR (step_finish inst cmp x) (\<lambda>(c, b). user_inv e b0 c b)"
proof -
  have "holdsR (if is_instr_illegal x then raise_x (cause_of exec_illegal_instr) (ucast inst) x else Inr x) (after_x e b0)"
    using assms by (simp add: raise_after)
  then show ?thesis
    unfolding step_finish_def
    by (rule holdsR_bindI)
      (auto simp: Let_def after_x_def user_x_def user_inv_def guarded_def core_env_def user_env_def
        intro!: holdsR_assertI simp del: holdsR_assertR)
qed

lemma raise_traps: "holdsR (raiseTrap cause tval c) (\<lambda>c'. needTrap c' \<and> nextPrivMode c' \<noteq> U_MODE)"
  by (auto simp: raiseTrap_def Let_def intro!: holdsR_assertI)

lemma preExec_user:
  "holdsR (preExec c) (\<lambda>c'. c' = preExec_update c \<or> (needTrap c' \<and> nextPrivMode c' \<noteq> U_MODE))"
  by (auto simp: preExec_def Let_def intro: holdsR_mono [OF raise_traps])

lemma preExec_update_user:
  "core_env (preExec_update c) = (core_env c)\<lparr>env_priv := nextPrivMode c\<rparr>" "sv39MMU (preExec_update c) = sv39MMU c"
  "\<not> needTrap (preExec_update c)" "nextPrivMode (preExec_update c) = nextPrivMode c"
  by (simp_all add: preExec_update_def core_env_def)

lemma Step_user:
  assumes inv: "user_inv e b0 c b" and mode: "nextPrivMode c = U_MODE"
  shows "holdsR (Step_CoreAPI bus c b) (\<lambda>(c', b'). user_inv e b0 c' b')"
proof (cases "preExec c")
  case (Inl reason)
  then show ?thesis by (simp add: Step_CoreAPI_def)
next
  case (Inr c1)
  let ?x = "\<lparr>xc = c1, xb = b, is_new_pc_set = False, is_instr_illegal = False\<rparr>"
  have fin: "holdsR (bindR m (step_finish inst cmp)) (\<lambda>(c', b'). user_inv e b0 c' b')" if "holdsR m (after_x e b0)" for m inst cmp
    using that by (rule holdsR_bindI) (rule finish_after)
  consider "c1 = preExec_update c" | "needTrap c1" "nextPrivMode c1 \<noteq> U_MODE"
    using holdsR_D [OF preExec_user Inr] by blast
  then show ?thesis
  proof cases
    case 1
    then have u: "user_x e b0 ?x" "\<not> needTrap c1"
      using inv mode by (simp_all add: preExec_update_user user_x_def user_inv_def) (simp add: user_env_def core_env_def)
    have g: "guarded (core_env c1) b0 (sv39MMU c1) b" using u(1) by (simp add: user_x_def)
    have "user_x e b0 (?x\<lparr>xc := c1\<lparr>sv39MMU := m\<rparr>, xb := b'\<rparr>)" if "guarded (core_env c1) b0 m b'" for m b'
      using user_access(2) [OF u(1), of m b'] that by simp
    then show ?thesis
      using u
      by (auto simp: Step_CoreAPI_def Inr Let_def simp del: holdsR_bindR holdsR_assertR
          intro!: fin raise_after exec_32_after exec_C_after holdsR_assertI holdsR_bindI [OF fetch_guarded [OF g]] user_after)
  next
    case 2
    then have "after_x e b0 ?x" using inv by (simp add: after_x_def user_inv_def)
    then show ?thesis using 2(1) by (simp add: Step_CoreAPI_def Inr Let_def finish_after)
  qed
qed

lemma user_inv_irq: "user_inv e b0 (c\<lparr>intStatus := i\<rparr>) b = user_inv e b0 c b"
  by (simp add: user_inv_def user_env_def)

lemma user_steps_inv:
  assumes "user_steps bus s t" "user_inv e b0 (fst s) (snd s)"
  shows "user_inv e b0 (fst t) (snd t)"
  using assms
proof (induction rule: user_steps.induct)
  case start
  then show ?case .
next
  case (step c' b' i c'' b'')
  then have "user_inv e b0 (c'\<lparr>intStatus := i\<rparr>) b'" by (simp add: user_inv_irq)
  from holdsR_D [OF Step_user [OF this] step.hyps(3)] step.hyps(2) show ?case by simp
qed

section \<open>Virtual memory\<close>

text \<open>Memory holds the bytes \<open>f\<close>, among them, at the addresses \<open>A\<close>, tables with the entries \<open>mem\<close>.\<close>

definition holds_tables :: "(u64 \<Rightarrow> u64) \<Rightarrow> u64 set \<Rightarrow> (u64 \<Rightarrow> u8) \<Rightarrow> 'b \<Rightarrow> bool" where
  "holds_tables mem A f b \<longleftrightarrow> binv b \<and> byte b = f \<and> (\<forall>a \<in> A. memory a 8 \<and> load_bytes f a 8 = to_bytes 8 (mem a))"

lemma holds_tables_read:
  assumes b: "holds_tables mem A f b" and a: "memory a (unat n)"
  obtains b' where "PAddr_ReadBuffer_MMIOBus_API bus b a n = Inr (MEMU_OK, Some (load_bytes f a (unat n)), b')"
    "holds_tables mem A f b'"
proof -
  obtain b' where r: "PAddr_ReadBuffer_MMIOBus_API bus b a n = Inr (MEMU_OK, Some (load_bytes f a (unat n)), b')"
    using memory_read [of b a n] a b by (auto simp: holds_tables_def)
  then have "holds_tables mem A f b'"
    using b bus_read_inv [OF _ r] read_frame [OF _ r] by (simp add: holds_tables_def)
  with r show thesis by (rule that)
qed

lemma holds_tables_pt: "pt_memory bus (holds_tables mem A f) mem A"
  unfolding pt_memory_def
proof (intro allI impI, elim conjE)
  fix b a assume b: "holds_tables mem A f b" and a: "a \<in> A"
  then have m: "memory a (unat (8 :: u64))" "load_bytes f a 8 = to_bytes 8 (mem a)" by (simp_all add: holds_tables_def)
  show "returnsR (PAddr_ReadBuffer_MMIOBus_API bus b a 8)
      (\<lambda>(fb, r, b'). fb = MEMU_OK \<and> r = Some (to_bytes 8 (mem a)) \<and> holds_tables mem A f b')"
    by (rule holds_tables_read [OF b m(1)]) (simp add: m(2))
qed

lemma holds_tables_write:
  assumes b: "holds_tables mem A f b" and pa: "memory pa (length bs)"
    and far: "\<And>a i j. a \<in> A \<Longrightarrow> i < length bs \<Longrightarrow> j < 8 \<Longrightarrow> a + of_nat j \<noteq> pa + of_nat i"
  obtains b' where "PAddr_WriteBuffer_MMIOBus_API bus b pa bs = Inr (MEMU_OK, b')"
    "holds_tables mem A (store_bytes f pa bs) b'"
proof -
  have bf: "binv b" "byte b = f" using b by (simp_all add: holds_tables_def)
  obtain b' where w: "PAddr_WriteBuffer_MMIOBus_API bus b pa bs = Inr (MEMU_OK, b')" "byte b' = store_bytes f pa bs"
    using memory_write [OF bf(1) pa] bf(2) by blast
  have "load_bytes (store_bytes f pa bs) a 8 = load_bytes f a 8" if "a \<in> A" for a
    unfolding load_bytes_def
    by (rule map_cong) (use far [OF that] in \<open>auto intro!: store_bytes_outside\<close>)
  then show thesis
    using w b bus_write_inv [OF bf(1) w(1)] by (intro that [of b']) (auto simp: holds_tables_def)
qed

text \<open>A store through the translation unit and a load after it act on the flat memory at the physical
  addresses.\<close>

lemma virtual_store_load:
  assumes t: "tlb_ok mem e m" "holds_tables mem A f b" "bget satp_mode (env_satp e) = 8" "\<not> bare_access e"
    and va: "set (walk_addrs mem 2 (sv39_root e) va) \<subseteq> A" "canonical va" "\<not> crosses_page va (of_nat (length bs))"
      "sv39 mem e va = Some (pte, l)" "store_allowed e pte" "memory (sv39_paddr pte l va) (length bs)"
    and va': "set (walk_addrs mem 2 (sv39_root e) va') \<subseteq> A" "canonical va'" "\<not> crosses_page va' n"
      "sv39 mem e va' = Some (pte', l')" "load_outcome e pte' = VADDR_ACCESS_OK" "memory (sv39_paddr pte' l' va') (unat n)"
    and far: "\<And>a i j. a \<in> A \<Longrightarrow> i < length bs \<Longrightarrow> j < 8 \<Longrightarrow> a + of_nat j \<noteq> sv39_paddr pte l va + of_nat i"
  shows "returnsR (VAddr_WriteBuffer_MMU_API bus e m b va bs) (\<lambda>(fb, m1, b1). fb = VADDR_ACCESS_OK \<and>
    returnsR (VAddr_ReadBuffer_MMU_API bus e m1 b1 va' n) (\<lambda>(fb', r, m2, b2). fb' = VADDR_ACCESS_OK \<and>
      r = Some (load_bytes (store_bytes f (sv39_paddr pte l va) bs) (sv39_paddr pte' l' va') (unat n))))"
proof -
  let ?f = "store_bytes f (sv39_paddr pte l va) bs"
  from write_walk [OF t(1,2) holds_tables_pt va(1) t(3) va(2) t(4) va(3)] va(4,5) obtain m1 b1 where
    1: "tlb_ok mem e m1" "holds_tables mem A f b1" "VAddr_WriteBuffer_MMU_API bus e m b va bs =
      bindR (PAddr_WriteBuffer_MMIOBus_API bus b1 (sv39_paddr pte l va) bs) (\<lambda>(fb, b2).
        Inr (if fb = MEMU_OK then VADDR_ACCESS_OK else VADDR_PAGE_FAULT, m1, b2))"
    by auto
  obtain b2 where 2: "PAddr_WriteBuffer_MMIOBus_API bus b1 (sv39_paddr pte l va) bs = Inr (MEMU_OK, b2)"
    "holds_tables mem A ?f b2"
    using holds_tables_write [OF 1(2) va(6) far] by blast
  from read_walk [OF 1(1) 2(2) holds_tables_pt va'(1) t(3) va'(2) t(4) va'(3)] va'(4,5) obtain m3 b3 where
    3: "holds_tables mem A ?f b3" "VAddr_ReadBuffer_MMU_API bus e m1 b2 va' n =
      bindR (PAddr_ReadBuffer_MMIOBus_API bus b3 (sv39_paddr pte' l' va') n) (\<lambda>(fb, data, b4).
        Inr (if fb = MEMU_OK then VADDR_ACCESS_OK else VADDR_ACCESS_FAULT, data, m3, b4))"
    by auto
  then show ?thesis
    using 1(3) 2(1) memory_read [OF _ va'(6), of b3] by (auto simp: holds_tables_def)
qed

end

end
