(* ===== verification/Board_Memory.thy ===== *)
theory Board_Memory
  imports Platform Protection
begin

unbundle bit_operations_syntax

text \<open>
  The RAM of the board as the memory behind its bus, and what follows for programs on it: isolation
  of a user program, and virtual memory as a view of the RAM.
\<close>

section \<open>The RAM as memory\<close>

text \<open>The RAM object lies in the heap of the bus (\<open>board_kinds\<close>); the other case cannot occur.\<close>

definition ram_byte :: "device mmio_bus \<Rightarrow> u64 \<Rightarrow> u8" where
  "ram_byte b x = (case devImpl (dev_of b h_ram) of Ram r \<Rightarrow> memData r (x - RAM_BASE) | _ \<Rightarrow> 0)"

definition in_ram :: "u64 \<Rightarrow> nat \<Rightarrow> bool" where
  "in_ram a n \<longleftrightarrow> RAM_BASE \<le> a \<and> unat (a - RAM_BASE) + n \<le> unat RAM_SIZE"

lemma store_bytes_shift: "store_bytes m (a - c) bs (x - c) = store_bytes (\<lambda>x. m (x - c)) a bs x"
proof (induction bs arbitrary: m a)
  case Nil
  then show ?case by simp
next
  case (Cons b bs)
  have "(\<lambda>x. (m(a - c := b)) (x - c)) = (\<lambda>x. m (x - c))(a := b)" by (auto simp: fun_eq_iff)
  moreover have "a - c + 1 = (a + 1) - c" by simp
  ultimately show ?case by (simp only: store_bytes.simps Cons.IH)
qed

lemma load_bytes_shift: "load_bytes m (a - c) n = load_bytes (\<lambda>x. m (x - c)) a n"
  by (simp add: load_bytes_def algebra_simps)

lemma board_ram:
  assumes "board_wf b"
  obtains r where "devImpl (dev_of b h_ram) = Ram r" "memorySize r = RAM_SIZE" "ram_byte b = (\<lambda>x. memData r (x - RAM_BASE))"
proof -
  obtain r where r: "devImpl (dev_of b h_ram) = Ram r" using board_kinds(1) [OF assms] by blast
  moreover have "memorySize r = RAM_SIZE"
    using board_device_inv [OF assms, of h_ram] r assms by (simp add: device_inv_def ram_inv_def board_wf_def wired_def)
  ultimately show thesis using that by (simp add: ram_byte_def fun_eq_iff)
qed

lemma ram_routes:
  assumes "board_wf b" "in_ram a n"
  obtains b1 where "devHeap b1 = devHeap b" "mmioDevs b1 = mmioDevs b"
    "bus_read device_ops b a sz = bindR (device_read (dev_of b h_ram) (a - RAM_BASE) sz) (\<lambda>(_, buf, d). Inr (MEMU_OK, buf, set_dev h_ram d b1))"
    "bus_write device_ops b a bs = bindR (device_write (dev_of b h_ram) (a - RAM_BASE) bs) (\<lambda>(_, d). Inr (MEMU_OK, set_dev h_ram d b1))"
proof -
  have wf: "bus_wf device_inv b" "h_ram \<in> set (mmioDevs b)" and base: "devBaseAddr (dev_of b h_ram) = RAM_BASE"
    using assms(1) by (simp_all add: board_wf_def wired_def)
  have "isAddrInRange (dev_of b h_ram) a" using ram_in_range [OF assms(1), of a n] assms(2) by (simp add: in_ram_def)
  from bus_routes [OF wf this, of device_ops sz bs] show thesis using base that by (auto simp: device_ops_def)
qed

lemma ram_heap: "board_wf b \<Longrightarrow> h_ram < length (devHeap b)"
  by (simp add: board_wf_def handles)

lemma ram_memory_read:
  assumes "board_wf b" "in_ram a (unat n)"
  shows "\<exists>b'. bus_read device_ops b a n = Inr (MEMU_OK, Some (load_bytes (ram_byte b) a (unat n)), b')"
proof -
  obtain r where r: "devImpl (dev_of b h_ram) = Ram r" "memorySize r = RAM_SIZE" "ram_byte b = (\<lambda>x. memData r (x - RAM_BASE))"
    by (rule board_ram [OF assms(1)])
  obtain b1 where "bus_read device_ops b a n =
      bindR (device_read (dev_of b h_ram) (a - RAM_BASE) n) (\<lambda>(_, buf, d). Inr (MEMU_OK, buf, set_dev h_ram d b1))"
    by (rule ram_routes [OF assms])
  then show ?thesis
    using assms(2) r by (simp add: device_read_def dispatch_read_def ram_read_def in_block_def in_ram_def load_bytes_shift)
qed

lemma ram_memory_write:
  assumes "board_wf b" "in_ram a (length bs)"
  shows "\<exists>b'. bus_write device_ops b a bs = Inr (MEMU_OK, b') \<and> ram_byte b' = store_bytes (ram_byte b) a bs"
proof -
  obtain r where r: "devImpl (dev_of b h_ram) = Ram r" "memorySize r = RAM_SIZE" "ram_byte b = (\<lambda>x. memData r (x - RAM_BASE))"
    by (rule board_ram [OF assms(1)])
  obtain b1 where b1: "devHeap b1 = devHeap b" and w: "bus_write device_ops b a bs =
      bindR (device_write (dev_of b h_ram) (a - RAM_BASE) bs) (\<lambda>(_, d). Inr (MEMU_OK, set_dev h_ram d b1))"
    by (rule ram_routes [OF assms])
  let ?r = "r\<lparr>memData := store_bytes (memData r) (a - RAM_BASE) bs\<rparr>"
  let ?b = "set_dev h_ram (as_device Ram ((with_impl (dev_of b h_ram) r)\<lparr>devImpl := ?r\<rparr>)) b1"
  have "bus_write device_ops b a bs = Inr (MEMU_OK, ?b)"
    using assms(2) r w by (simp add: device_write_def dispatch_write_def ram_write_def in_block_def in_ram_def)
  moreover have "ram_byte ?b = (\<lambda>x. store_bytes (memData r) (a - RAM_BASE) bs (x - RAM_BASE))"
    using ram_heap [OF assms(1)] b1 by (simp add: ram_byte_def dev_of_set_dev fun_eq_iff)
  then have "ram_byte ?b = store_bytes (ram_byte b) a bs" by (simp add: r(3) store_bytes_shift)
  ultimately show ?thesis by blast
qed

text \<open>Other devices have no part in the RAM.\<close>

lemma ram_byte_cong: "devImpl (dev_of b' h_ram) = devImpl (dev_of b h_ram) \<Longrightarrow> ram_byte b' = ram_byte b"
  by (simp add: ram_byte_def fun_eq_iff)

lemma device_read_ram:
  "devImpl d = Ram r \<Longrightarrow> device_read d a n = Inr (fb, buf, d') \<Longrightarrow> devImpl d' = Ram r"
  by (auto simp: device_read_def dispatch_read_def ram_read_def Let_def split: if_splits)

lemma device_write_ram:
  "devImpl d = Ram r \<Longrightarrow> device_write d a bs = Inr (fb, d') \<Longrightarrow>
   devImpl d' = Ram (r\<lparr>memData := store_bytes (memData r) a bs\<rparr>)"
  by (auto simp: device_write_def dispatch_write_def ram_write_def Let_def split: if_splits)

lemma ram_read_frame:
  assumes "board_wf b" "bus_read device_ops b a n = Inr (fb, buf, b')"
  shows "ram_byte b' = ram_byte b"
proof -
  have w: "devs_wf b" "cache_sound b" using assms(1) by (simp_all add: board_wf_def bus_wf_def)
  obtain r where r: "devImpl (dev_of b h_ram) = Ram r" by (rule board_ram [OF assms(1)])
  show ?thesis
  proof (rule ram_byte_cong, cases rule: find_cases [OF w, of a])
    case (1 b1)
    then show "devImpl (dev_of b' h_ram) = devImpl (dev_of b h_ram)"
      using assms(2) by (auto simp: bus_read_def dev_of_def)
  next
    case (2 h b1)
    have "h < length (devHeap b1)" using w(1) 2(2,4) by (simp add: devs_wf_def)
    with 2 show "devImpl (dev_of b' h_ram) = devImpl (dev_of b h_ram)"
      using assms(2) r device_read_ram [OF r]
      by (auto simp: bus_read_def device_ops_def res_eq_Inr dev_of_set_dev) (auto simp: dev_of_def)
  qed
qed

lemma ram_write_frame:
  assumes "board_wf b" "bus_write device_ops b a bs = Inr (fb, b')" "x \<notin> (\<lambda>i. a + of_nat i) ` {..<length bs}"
  shows "ram_byte b' x = ram_byte b x"
proof -
  have w: "devs_wf b" "cache_sound b" using assms(1) by (simp_all add: board_wf_def bus_wf_def)
  obtain r where r: "devImpl (dev_of b h_ram) = Ram r" "ram_byte b = (\<lambda>x. memData r (x - RAM_BASE))"
    by (rule board_ram [OF assms(1)])
  have base: "devBaseAddr (dev_of b h_ram) = RAM_BASE" using assms(1) by (simp add: board_wf_def wired_def)
  show ?thesis
  proof (cases rule: find_cases [OF w, of a])
    case (1 b1)
    then have "ram_byte b' = ram_byte b"
      using assms(2) by (intro ram_byte_cong) (auto simp: bus_write_def dev_of_def)
    then show ?thesis by simp
  next
    case (2 h b1)
    have h: "h < length (devHeap b1)" using w(1) 2(2,4) by (simp add: devs_wf_def)
    have d: "dev_of b1 k = dev_of b k" for k using 2(4) by (simp add: dev_of_def)
    from 2(1) assms(2) obtain s dv where
      wr: "device_write (dev_of b h) (a - devBaseAddr (dev_of b h)) bs = Inr (s, dv)" "b' = set_dev h dv b1"
      by (auto simp: bus_write_def device_ops_def res_eq_Inr d)
    show ?thesis
    proof (cases "h = h_ram")
      case True
      have "devImpl (dev_of b' h_ram) = Ram (r\<lparr>memData := store_bytes (memData r) (a - RAM_BASE) bs\<rparr>)"
        using device_write_ram [OF r(1)] wr True h base by (simp add: dev_of_set_dev)
      then have "ram_byte b' x = store_bytes (\<lambda>x. memData r (x - RAM_BASE)) a bs x"
        by (simp add: ram_byte_def store_bytes_shift)
      also have "\<dots> = ram_byte b x" unfolding r(2) by (rule store_bytes_outside) (use assms(3) in auto)
      finally show ?thesis .
    next
      case False
      then have "ram_byte b' = ram_byte b" using wr(2) h d by (intro ram_byte_cong) (simp add: dev_of_set_dev)
      then show ?thesis by simp
    qed
  qed
qed

interpretation board_memory: memory_bus bus_table board_wf ram_byte in_ram
  by unfold_locales
    (simp_all add: MEmu_bus_ops_def ram_memory_read ram_memory_write ram_read_frame ram_write_frame)

section \<open>An address space of a user\<close>

abbreviation ram_words :: "device mmio_bus \<Rightarrow> u64 \<Rightarrow> u64" where
  "ram_words \<equiv> word_at ram_byte"

text \<open>A root table at \<open>0x80001000\<close> whose entry 3 maps a gigabyte at \<open>0xc0000000\<close> for the user; the first
  instruction there stores a byte.\<close>

definition user_pte :: u64 where "user_pte = 0x300000df"

definition user_ram :: "u64 \<Rightarrow> u8" where
  "user_ram = store_bytes (store_bytes (\<lambda>_. 0) 0x40000000 (to_bytes 4 (0x00628023 :: u32))) 0x1018 (to_bytes 8 user_pte)"

text \<open>A board with given contents of the RAM.\<close>

definition board_with :: "(u64 \<Rightarrow> u8) \<Rightarrow> device mmio_bus" where
  "board_with f = set_dev h_ram (with_impl (dev_of (sysBus example_platform) h_ram) (Ram \<lparr>memData = f, memorySize = RAM_SIZE\<rparr>))
     (sysBus example_platform)"

abbreviation user_board :: "device mmio_bus" where
  "user_board \<equiv> board_with user_ram"

definition user_core :: core where
  "user_core = example_core\<lparr>satp := 0x8000000000080001, nextPrivMode := U_MODE, currentProgramCounter := 0xc0000000,
     GPR := (replicate 32 0)[5 := 0xc0000100, 6 := 0x41]\<rparr>"

lemma board_with_wf: "board_wf (board_with f)"
proof -
  have b: "board_wf (sysBus example_platform)" using example_platform_wf by (simp add: platform_wf_def)
  obtain r where r: "devImpl (dev_of (sysBus example_platform) h_ram) = Ram r" using board_kinds(1) [OF b] by blast
  have "addrRegionSize (dev_of (sysBus example_platform) h_ram) = RAM_SIZE" using b by (simp add: board_wf_def wired_def)
  then show ?thesis
    using b r unfolding board_with_def
    by (intro board_set_dev) (auto simp: board_handles [OF b] same_region_def device_inv_def ram_inv_def same_kind_def)
qed

lemma board_with_devs: "dev_of (board_with f) h = (if h = h_ram
    then with_impl (dev_of (sysBus example_platform) h_ram) (Ram \<lparr>memData = f, memorySize = RAM_SIZE\<rparr>)
    else dev_of (sysBus example_platform) h)"
  using ram_heap [of "sysBus example_platform"] example_platform_wf
  by (simp add: board_with_def dev_of_set_dev platform_wf_def)

lemma board_with_byte: "ram_byte (board_with f) x = f (x - RAM_BASE)"
  by (simp add: ram_byte_def board_with_devs)

lemma load_bytes_cong: "(\<And>i. i < n \<Longrightarrow> f (a + of_nat i) = g (a + of_nat i)) \<Longrightarrow> load_bytes f a n = load_bytes g a n"
  by (simp add: load_bytes_def)

lemma of_bytes_zeros: "of_bytes (replicate n 0) = (0 :: 'a::len word)"
  by (induction n) simp_all

lemma load_zero: "load_bytes (\<lambda>_. 0) a n = replicate n 0"
  by (simp add: load_bytes_def map_replicate_const)

lemma vpn_bound: "unat (vpn 2 va) < 512"
  using take_bit_nat_less_exp [of 9 "unat (drop_bit (level_bits 2) va)"] by (simp add: vpn_def unsigned_take_bit_eq)

lemma user_entry_offset: "unat (0x1000 + vpn 2 va * 8) = 0x1000 + unat (vpn 2 va) * 8"
  using vpn_bound [of va] by (simp add: unat_word_ariths)

lemma user_words: "ram_words user_board (0x80001000 + vpn 2 va * 8) = (if vpn 2 va = 3 then user_pte else 0)"
proof -
  let ?o = "0x1000 + vpn 2 va * 8"
  have o: "0x80001000 + vpn 2 va * 8 - RAM_BASE = ?o" by (simp add: RAM_BASE_def)
  have l: "load_bytes (ram_byte user_board) (0x80001000 + vpn 2 va * 8) 8 = load_bytes user_ram ?o 8"
    unfolding o [symmetric] load_bytes_shift by (rule load_bytes_cong) (simp add: board_with_byte)
  have v: "vpn 2 va = 3 \<longleftrightarrow> unat (vpn 2 va) = 3" by (simp add: word_unat_eq_iff)
  show ?thesis
  proof (cases "vpn 2 va = 3")
    case True
    then show ?thesis
      unfolding word_at_def l using load_store_same [of "to_bytes 8 user_pte" _ "0x1018"]
      by (simp add: user_ram_def of_bytes_to_bytes_full)
  next
    case False
    then have "apart 0x1018 (length (to_bytes 8 user_pte)) ?o 8" "apart 0x40000000 (length (to_bytes 4 (0x00628023 :: u32))) ?o 8"
      using vpn_bound [of va] unfolding apart_def user_entry_offset v by auto
    then have "load_bytes user_ram ?o 8 = load_bytes (\<lambda>_. 0) ?o 8"
      using vpn_bound [of va] unfolding user_ram_def by (simp add: load_store_apart user_entry_offset)
    then show ?thesis using False by (simp add: word_at_def l load_zero of_bytes_zeros)
  qed
qed

lemma user_root: "sv39_root (user_env user_core) = 0x80001000"
  by code_simp

lemma user_leaf: "leaf_pte user_pte" "\<not> leaf_pte 0" "\<not> dir_pte 0" "\<not> dir_pte user_pte" "pte_addr user_pte = 0xc0000000"
  by code_simp+

lemma user_walk: "sv39 (ram_words user_board) (user_env user_core) va = (if vpn 2 va = 3 then Some (user_pte, 2) else None)"
  using user_words [of va]
  by (cases "vpn 2 va = 3"; simp add: sv39_def user_root numeral_2_eq_2)
    (simp_all add: numeral_2_eq_2 [symmetric] user_leaf Let_def)

lemma user_walk_addrs:
  "walk_addrs (ram_words user_board) 2 (sv39_root (user_env user_core)) va = [0x80001000 + vpn 2 va * 8]"
  using user_words [of va]
  by (cases "vpn 2 va = 3"; simp add: user_root numeral_2_eq_2)
    (simp_all add: numeral_2_eq_2 [symmetric] user_leaf Let_def)

lemma user_writable:
  assumes "writable (ram_words user_board) (user_env user_core) x"
  shows "0xc0000000 \<le> unat x"
proof -
  obtain va where x: "x = 0xc0000000 + take_bit 30 va"
    using assms by (auto simp: writable_def user_walk sv39_paddr_def user_leaf level_bits_def split: if_splits)
  have "unat (take_bit 30 va) < 2 ^ 30" 
    using take_bit_nat_less_exp [of 30 "unat va"] by (simp add: unsigned_take_bit_eq)
  then show ?thesis by (simp add: x unat_word_ariths)
qed

lemma user_tables: "tables_protected in_ram (ram_words user_board) (user_env user_core)"
proof -
  have e: "unat (0x80001000 + vpn 2 va * 8) = 0x80001000 + unat (vpn 2 va) * 8" for va
    using vpn_bound [of va] by (simp add: unat_word_ariths)
  have "in_ram (0x80001000 + vpn 2 va * 8) 8" for va
    using vpn_bound [of va] by (simp add: in_ram_def board_addresses word_le_nat_alt e user_entry_offset)
  moreover have "\<not> writable (ram_words user_board) (user_env user_core) (0x80001000 + vpn 2 va * 8 + of_nat i)" if "i < 8" for va i
  proof
    assume "writable (ram_words user_board) (user_env user_core) (0x80001000 + vpn 2 va * 8 + of_nat i)"
    from user_writable [OF this] show False
      using that vpn_bound [of va] by (simp add: unat_offset e)
  qed
  ultimately show ?thesis by (simp add: tables_protected_def user_walk_addrs)
qed

section \<open>Properties\<close>

text \<open>C4: Memory protection on the board: a core that starts in U-mode with Sv39 on, a coherent TLB
  and page tables that lie in RAM where the user has no writable mapping, changes in any number of
  steps, up to the step that traps, no byte of RAM that no mapping lets the user write, so the
  tables stay what they are; while it is in U-mode satp, the status and the coherence of the TLB
  stay.\<close>

theorem user_isolation:
  assumes "board_wf b" and "nextPrivMode c = U_MODE" and "bget satp_mode (satp c) = 8"
    and "tables_protected in_ram (ram_words b) (user_env c)" and "tlb_ok (ram_words b) (user_env c) (sv39MMU c)"
    and "user_steps bus_table (c, b) (c', b')"
  shows "board_wf b' \<and> (\<forall>x. \<not> writable (ram_words b) (user_env c) x \<longrightarrow> ram_byte b' x = ram_byte b x) \<and>
    (nextPrivMode c' = U_MODE \<longrightarrow> user_env c' = user_env c \<and> tlb_ok (ram_words b) (user_env c) (sv39MMU c'))"
proof -
  have e: "env_priv (user_env c) = U_MODE" "bget satp_mode (env_satp (user_env c)) = 8"
    using assms(3) by (simp_all add: user_env_def)
  have "board_memory.intact (user_env c) b b" using assms(1) by (simp add: board_memory.intact_def)
  then have "board_memory.user_inv (user_env c) b c b"
    using assms(4,5) e by (simp add: board_memory.user_inv_def board_memory.guarded_def)
  then have "board_memory.user_inv (user_env c) b c' b'"
    using board_memory.user_steps_inv [OF assms(6)] by simp
  then show ?thesis
    unfolding board_memory.user_inv_def board_memory.guarded_def board_memory.intact_def by blast
qed

text \<open>The user program starts with an empty translation buffer.\<close>

lemma user_core_facts:
  "nextPrivMode user_core = U_MODE" "bget satp_mode (satp user_core) = 8"
  "tlb_ok mem (user_env user_core) (sv39MMU user_core)"
  subgoal by (simp add: user_core_def)
  subgoal unfolding user_core_def by (simp, code_simp)
  subgoal by (simp add: user_core_def example_core_def core_reset_def example_mmu_def tlb_ok_new)
  done

text \<open>Its first step fetches and executes a store through the translation unit.\<close>

abbreviation user_table_addrs :: "u64 set" where
  "user_table_addrs \<equiv> range (\<lambda>va. 0x80001000 + vpn 2 va * 8)"

lemma user_holds: "board_memory.holds_tables (ram_words user_board) user_table_addrs (ram_byte user_board) user_board"
  using user_tables board_with_wf
  by (auto simp: board_memory.holds_tables_def tables_protected_def user_walk_addrs to_bytes_word_at)

lemma user_pre: "preExec user_core = Inr (preExec_update user_core)"
  by (simp add: preExec_def Let_def preExec_update_def user_core_def example_core_def core_reset_def bits_to_int_type_def)

lemma user_update:
  "core_env (preExec_update user_core) = user_env user_core" "sv39MMU (preExec_update user_core) = sv39MMU user_core"
  "currentProgramCounter (preExec_update user_core) = 0xc0000000" "\<not> needTrap (preExec_update user_core)"
  "GPR (preExec_update user_core) = (replicate 32 0)[5 := 0xc0000100, 6 := 0x41]"
  by (simp_all add: preExec_update_def user_core_def core_env_def user_env_def)

lemma user_setting:
  "set (walk_addrs (ram_words user_board) 2 (sv39_root (user_env user_core)) va) \<subseteq> user_table_addrs"
  "bget satp_mode (env_satp (user_env user_core)) = 8" "env_priv (user_env user_core) \<noteq> M_MODE"
  "\<not> bare_access (user_env user_core)" "fetch_allowed (user_env user_core) user_pte" "store_allowed (user_env user_core) user_pte"
  subgoal by (simp add: user_walk_addrs)
  subgoal using user_core_facts(2) by (simp add: user_env_def)
  subgoal by (simp add: user_env_def)
  subgoal using user_core_facts(2) by (simp add: user_env_def bare_access_def access_priv_def)
  subgoal by code_simp
  subgoal by code_simp
  done

lemma user_addresses:
  "canonical 0xc0000000" "canonical 0xc0000100" "\<not> crosses_page 0xc0000000 4" "\<not> crosses_page 0xc0000100 1"
  "sv39_paddr user_pte 2 0xc0000000 = 0xc0000000" "sv39_paddr user_pte 2 0xc0000100 = 0xc0000100"
  "in_ram 0xc0000000 4" "in_ram 0xc0000100 1"
  subgoal by code_simp
  subgoal by code_simp
  subgoal by code_simp
  subgoal by code_simp
  subgoal by code_simp
  subgoal by code_simp
  subgoal by (simp add: in_ram_def board_addresses)
  subgoal by (simp add: in_ram_def board_addresses)
  done

lemma user_fetch:
  "\<exists>m' b1. tlb_ok (ram_words user_board) (user_env user_core) m' \<and>
     board_memory.holds_tables (ram_words user_board) user_table_addrs (ram_byte user_board) b1 \<and>
     VAddr_InstFetch_MMU_API bus_table (user_env user_core) (sv39MMU user_core) user_board 0xc0000000 4 buf =
       Inr (INST_ACCESS_OK, to_bytes 4 (0x00628023 :: u32), m', b1)"
proof -
  have "sv39 (ram_words user_board) (user_env user_core) 0xc0000000 = Some (user_pte, 2)"
    unfolding user_walk by code_simp
  moreover have "load_bytes (ram_byte user_board) 0xc0000000 4 = to_bytes 4 (0x00628023 :: u32)"
    unfolding load_bytes_def board_with_byte RAM_BASE_def by code_simp
  moreover obtain m' b1 where "tlb_ok (ram_words user_board) (user_env user_core) m'"
    "board_memory.holds_tables (ram_words user_board) user_table_addrs (ram_byte user_board) b1"
    "inst_fetch_part bus_table (user_env user_core) (sv39MMU user_core) user_board 0xc0000000 4 buf =
     (case sv39 (ram_words user_board) (user_env user_core) 0xc0000000 of
        None \<Rightarrow> Inr (INST_PAGE_FAULT, buf, m', b1)
      | Some (pte, l) \<Rightarrow>
          if \<not> fetch_allowed (user_env user_core) pte then Inr (INST_PAGE_FAULT, buf, m', b1)
          else bindR (PAddr_ReadBuffer_MMIOBus_API bus_table b1 (sv39_paddr pte l 0xc0000000) 4) (\<lambda>(fb, data, b2).
            Inr (if fb = MEMU_OK then INST_ACCESS_OK else INST_ACCESS_FAULT,
                 case data of None \<Rightarrow> buf | Some bs \<Rightarrow> bs, m', b2)))"
    using fetch_walk [OF user_core_facts(3) user_holds board_memory.holds_tables_pt user_setting(1,2) user_addresses(1)
        user_setting(3) user_addresses(3), of buf] by auto
  moreover from calculation obtain b2 where
    "PAddr_ReadBuffer_MMIOBus_API bus_table b1 0xc0000000 4 = Inr (MEMU_OK, Some (to_bytes 4 (0x00628023 :: u32)), b2)"
    "board_memory.holds_tables (ram_words user_board) user_table_addrs (ram_byte user_board) b2"
    using board_memory.holds_tables_read [of "ram_words user_board" user_table_addrs "ram_byte user_board" b1 "0xc0000000" 4]
    by (auto simp: user_addresses)
  ultimately show ?thesis
    by (simp add: VAddr_InstFetch_MMU_API_def user_setting user_addresses)
qed

lemma user_store:
  assumes "tlb_ok (ram_words user_board) (user_env user_core) m"
    and "board_memory.holds_tables (ram_words user_board) user_table_addrs (ram_byte user_board) b"
  shows "\<exists>m' b2. ram_byte b2 0xc0000100 = 0x41 \<and>
     VAddr_WriteBuffer_MMU_API bus_table (user_env user_core) m b 0xc0000100 [0x41] = Inr (VADDR_ACCESS_OK, m', b2)"
proof -
  have "sv39 (ram_words user_board) (user_env user_core) 0xc0000100 = Some (user_pte, 2)"
    unfolding user_walk by code_simp
  moreover obtain m' b1 where b1: "board_memory.holds_tables (ram_words user_board) user_table_addrs (ram_byte user_board) b1"
    "VAddr_WriteBuffer_MMU_API bus_table (user_env user_core) m b 0xc0000100 [0x41] =
     (case sv39 (ram_words user_board) (user_env user_core) 0xc0000100 of
        None \<Rightarrow> Inr (VADDR_PAGE_FAULT, m', b1)
      | Some (pte, l) \<Rightarrow>
          if \<not> store_allowed (user_env user_core) pte then Inr (VADDR_PAGE_FAULT, m', b1)
          else bindR (PAddr_WriteBuffer_MMIOBus_API bus_table b1 (sv39_paddr pte l 0xc0000100) [0x41]) (\<lambda>(fb, b2).
            Inr (if fb = MEMU_OK then VADDR_ACCESS_OK else VADDR_PAGE_FAULT, m', b2)))"
    using write_walk [OF assms board_memory.holds_tables_pt user_setting(1,2) user_addresses(2) user_setting(4), of "[0x41]"]
      user_addresses(4) by auto
  moreover obtain b2 where "PAddr_WriteBuffer_MMIOBus_API bus_table b1 0xc0000100 [0x41] = Inr (MEMU_OK, b2)"
    "ram_byte b2 = store_bytes (ram_byte user_board) 0xc0000100 [0x41]"
    using board_memory.memory_write [of b1 "0xc0000100" "[0x41]"] b1(1) user_addresses(8)
    by (auto simp: board_memory.holds_tables_def)
  ultimately show ?thesis by (simp add: user_setting user_addresses)
qed

lemma user_first_step: "returnsR (Step_CoreAPI bus_table user_core user_board) (\<lambda>(c', b'). ram_byte b' 0xc0000100 = 0x41)"
proof -
  let ?i = "0x00628023 :: u32"
  obtain m b where f: "tlb_ok (ram_words user_board) (user_env user_core) m"
    "board_memory.holds_tables (ram_words user_board) user_table_addrs (ram_byte user_board) b"
    "VAddr_InstFetch_MMU_API bus_table (user_env user_core) (sv39MMU user_core) user_board 0xc0000000 4 [0, 0, 0, 0] =
       Inr (INST_ACCESS_OK, to_bytes 4 ?i, m, b)"
    using user_fetch by blast
  obtain m' b2 where w: "ram_byte b2 0xc0000100 = 0x41"
    "VAddr_WriteBuffer_MMU_API bus_table (user_env user_core) m b 0xc0000100 [0x41] = Inr (VADDR_ACCESS_OK, m', b2)"
    using user_store [OF f(1,2)] by blast
  have d: "bget f_opcode ?i = 0x23" "bget f_funct3 ?i = 0" "reg f_rs1 ?i = 5" "reg f_rs2 ?i = 6" "imm_s ?i = 0"
    "\<not> is_compressed ?i" "to_bytes 1 (0x41 :: u64) = [0x41]"
    by code_simp+
  let ?c = "preExec_update user_core"
  let ?x = "\<lparr>xc = ?c\<lparr>sv39MMU := m\<rparr>, xb = b, is_new_pc_set = False, is_instr_illegal = False\<rparr>"
  have e: "core_env (?c\<lparr>sv39MMU := m\<rparr>) = user_env user_core" using user_update(1) by (simp add: core_env_def)
  have "exec_32 bus_table ?i ?x = memWrite bus_table 0xc0000100 [0x41] ?x"
    using d by (simp add: exec_32_def exec_STORE_def Let_def gpr_def user_update)
  also have "\<dots> = Inr (?x\<lparr>xc := ?c\<lparr>sv39MMU := m'\<rparr>, xb := b2\<rparr>)"
    by (simp add: memWrite_def e w)
  finally have x: "exec_32 bus_table ?i ?x = Inr (?x\<lparr>xc := ?c\<lparr>sv39MMU := m'\<rparr>, xb := b2\<rparr>)" .
  have s: "status ?c = status example_core" by (simp add: preExec_update_def user_core_def)
  show ?thesis
    using x user_update blank_fields [OF core_wf_examples(1)] s
    by (simp add: Step_CoreAPI_def user_pre PC_ALIGN_def f(3) of_bytes_to_bytes_full d step_finish_def Let_def w)
qed

theorem user_isolation_witness:
  "returnsR (Step_CoreAPI bus_table user_core user_board)
     (\<lambda>(c', b'). ram_byte b' 0xc0000100 = 0x41 \<and> ram_byte b' 0x80001018 = 0xdf)"
proof -
  obtain c' b' where s: "Step_CoreAPI bus_table user_core user_board = Inr (c', b')" "ram_byte b' 0xc0000100 = 0x41"
    using user_first_step by (auto simp: returnsR_iff)
  have "user_core\<lparr>intStatus := intStatus user_core\<rparr> = user_core" by simp
  then have "user_steps bus_table (user_core, user_board) (c', b')"
    using user_steps.step [OF user_steps.start user_core_facts(1), of bus_table "intStatus user_core" user_board] s by simp
  note iso = user_isolation [OF board_with_wf user_core_facts(1,2) user_tables user_core_facts(3) this]
  have "\<not> writable (ram_words user_board) (user_env user_core) 0x80001018"
    using user_writable [of "0x80001018"] by auto
  moreover have "ram_byte user_board 0x80001018 = 0xdf"
    unfolding board_with_byte by (simp add: RAM_BASE_def) code_simp
  ultimately show ?thesis using iso s by simp
qed

text \<open>The \<open>n\<close> bytes from \<open>va\<close> on are mapped to the RAM from \<open>pa\<close> on, by an entry that \<open>allowed\<close> accepts.\<close>

definition maps_to_ram :: "(u64 \<Rightarrow> u64) \<Rightarrow> mmu_env \<Rightarrow> (u64 \<Rightarrow> bool) \<Rightarrow> u64 \<Rightarrow> u64 \<Rightarrow> u64 \<Rightarrow> bool" where
  "maps_to_ram mem e allowed va n pa \<longleftrightarrow> canonical va \<and> \<not> crosses_page va n \<and> in_ram pa (unat n) \<and>
     (\<exists>pte l. sv39 mem e va = Some (pte, l) \<and> allowed pte \<and> pa = sv39_paddr pte l va)"

text \<open>The page tables lie in the RAM and share no byte with the \<open>n\<close> bytes from \<open>pa\<close> on.\<close>

definition tables_apart :: "(u64 \<Rightarrow> u64) \<Rightarrow> mmu_env \<Rightarrow> u64 \<Rightarrow> nat \<Rightarrow> bool" where
  "tables_apart mem e pa n \<longleftrightarrow> (\<forall>va. \<forall>a \<in> set (walk_addrs mem 2 (sv39_root e) va).
     in_ram a 8 \<and> (\<forall>i < n. \<forall>j < 8. a + of_nat j \<noteq> pa + of_nat i))"

text \<open>C6: Translated accesses on the board refine flat memory: a store of up to eight bytes through
  the MMU into a page that allows it, away from the page tables, and a load of any mapped readable
  address after it both succeed, and the load returns what the RAM array with the bytes stored at
  the physical address holds at the physical address of the load, also under another virtual
  address.\<close>

theorem virtual_memory_is_ram:
  assumes "board_wf b" and "bget satp_mode (env_satp e) = 8" and "\<not> bare_access e" and "tlb_ok (ram_words b) e m"
    and "length bs \<le> 8" and "maps_to_ram (ram_words b) e (store_allowed e) va (of_nat (length bs)) pa"
    and "tables_apart (ram_words b) e pa (length bs)"
    and "maps_to_ram (ram_words b) e (\<lambda>pte. load_outcome e pte = VADDR_ACCESS_OK) va' n pa'"
  shows "returnsR (VAddr_WriteBuffer_MMU_API bus_table e m b va bs) (\<lambda>(fb, m1, b1). fb = VADDR_ACCESS_OK \<and>
    returnsR (VAddr_ReadBuffer_MMU_API bus_table e m1 b1 va' n) (\<lambda>(fb', r, m2, b2). fb' = VADDR_ACCESS_OK \<and>
      r = Some (load_bytes (store_bytes (ram_byte b) pa bs) pa' (unat n))))"
proof -
  let ?A = "\<Union>va. set (walk_addrs (ram_words b) 2 (sv39_root e) va)"
  have n: "unat (of_nat (length bs) :: u64) = length bs" using assms(5) by (simp add: unat_of_nat)
  obtain pte l where 1: "canonical va" "\<not> crosses_page va (of_nat (length bs))" "sv39 (ram_words b) e va = Some (pte, l)"
    "store_allowed e pte" "in_ram (sv39_paddr pte l va) (length bs)" "pa = sv39_paddr pte l va"
    using assms(6) n by (auto simp: maps_to_ram_def)
  obtain pte' l' where 2: "canonical va'" "\<not> crosses_page va' n" "sv39 (ram_words b) e va' = Some (pte', l')"
    "load_outcome e pte' = VADDR_ACCESS_OK" "in_ram (sv39_paddr pte' l' va') (unat n)" "pa' = sv39_paddr pte' l' va'"
    using assms(8) by (auto simp: maps_to_ram_def)
  have A: "set (walk_addrs (ram_words b) 2 (sv39_root e) v) \<subseteq> ?A" for v by blast
  have t: "board_memory.holds_tables (ram_words b) ?A (ram_byte b) b"
    using assms(1,7) by (auto simp: board_memory.holds_tables_def to_bytes_word_at tables_apart_def)
  show ?thesis
    unfolding 1(6) 2(6)
    by (rule board_memory.virtual_store_load [OF assms(4) t assms(2,3) A 1(1-5) A 2(1-5)])
      (use assms(7) in \<open>auto simp: tables_apart_def 1(6)\<close>)
qed

theorem virtual_memory_is_ram_witness:
  "returnsR (VAddr_WriteBuffer_MMU_API bus_table (user_env user_core) (sv39MMU user_core) user_board 0xc0000100 [0x41])
     (\<lambda>(fb, m, b). returnsR (VAddr_ReadBuffer_MMU_API bus_table (user_env user_core) m b 0xc0000100 1)
       (\<lambda>(fb', r, _). fb' = VADDR_ACCESS_OK \<and> r = Some [0x41]))"
proof -
  have s: "sv39 (ram_words user_board) (user_env user_core) 0xc0000100 = Some (user_pte, 2)"
    unfolding user_walk by code_simp
  have "load_outcome (user_env user_core) user_pte = VADDR_ACCESS_OK" by code_simp
  then have p: "maps_to_ram (ram_words user_board) (user_env user_core) (store_allowed (user_env user_core)) 0xc0000100 1 0xc0000100"
    "maps_to_ram (ram_words user_board) (user_env user_core)
       (\<lambda>pte. load_outcome (user_env user_core) pte = VADDR_ACCESS_OK) 0xc0000100 1 0xc0000100"
    using s user_addresses user_setting by (simp_all add: maps_to_ram_def)
  have "0x80001000 + vpn 2 va * 8 + of_nat j \<noteq> (0xc0000100 :: u64)" if "j < 8" for va j
  proof -
    have "unat (0x80001000 + vpn 2 va * 8) = 0x80001000 + unat (vpn 2 va) * 8"
      using vpn_bound [of va] by (simp add: unat_word_ariths)
    then have "unat (0x80001000 + vpn 2 va * 8 + of_nat j) \<noteq> unat (0xc0000100 :: u64)"
      using that vpn_bound [of va] by (simp add: unat_offset)
    then show ?thesis by metis
  qed
  then have t: "tables_apart (ram_words user_board) (user_env user_core) 0xc0000100 (length [0x41 :: u8])"
    using user_tables by (simp add: tables_apart_def tables_protected_def user_walk_addrs)
  have l: "length [0x41 :: u8] \<le> 8" "of_nat (length [0x41 :: u8]) = (1 :: u64)" by simp_all
  have "load_bytes (store_bytes f 0xc0000100 [0x41]) 0xc0000100 (unat (1 :: u64)) = [0x41]" for f :: "u64 \<Rightarrow> u8"
    using load_store_same [of "[0x41]" f "0xc0000100"] by simp
  then show ?thesis
    by (intro returnsR_mono [OF virtual_memory_is_ram [OF board_with_wf user_setting(2,4) user_core_facts(3) l(1)
        p(1) [folded l(2)] t p(2)]])
      (auto elim!: returnsR_mono)
qed

end
