(* ===== verification/Confidentiality.thy ===== *)
theory Confidentiality
  imports Protection
begin

unbundle bit_operations_syntax

text \<open>
  Confidentiality. Two machines whose memories agree on the pages and the page tables of a user give
  the user the same steps: what the core computes in U-mode does not depend on the rest of memory.
\<close>

section \<open>Related outcomes\<close>

text \<open>Both end with the same crash, or both return and the results are related.\<close>

definition relR :: "('x \<Rightarrow> 'y \<Rightarrow> bool) \<Rightarrow> 'x res \<Rightarrow> 'y res \<Rightarrow> bool" where
  "relR R m n \<longleftrightarrow> (case m of Inl c \<Rightarrow> n = Inl c | Inr x \<Rightarrow> (case n of Inl c \<Rightarrow> False | Inr y \<Rightarrow> R x y))"

lemma relR_simps [simp]:
  "relR R (Inl c) n \<longleftrightarrow> n = Inl c" "relR R (Inr x) (Inr y) = R x y" "\<not> relR R (Inr x) (Inl c)"
  by (simp_all add: relR_def)

lemma relR_Inr: "relR R m n \<Longrightarrow> m = Inr x \<Longrightarrow> \<exists>y. n = Inr y \<and> R x y"
  by (cases n) auto

lemma relR_refl: "(\<And>x. R x x) \<Longrightarrow> relR R m m"
  by (cases m) auto

lemma relR_mono: "relR Q m n \<Longrightarrow> (\<And>x y. Q x y \<Longrightarrow> R x y) \<Longrightarrow> relR R m n"
  by (cases m; cases n) auto

lemma relR_holds: "relR Q m n \<Longrightarrow> holdsR m P \<Longrightarrow> (\<And>x y. Q x y \<Longrightarrow> P x \<Longrightarrow> R x y) \<Longrightarrow> relR R m n"
  by (cases m; cases n) auto

lemma relR_bind: "relR Q m n \<Longrightarrow> (\<And>x y. Q x y \<Longrightarrow> relR R (f x) (g y)) \<Longrightarrow> relR R (bindR m f) (bindR n g)"
  by (cases m; cases n) auto

lemma relR_same: "(\<And>x. m = Inr x \<Longrightarrow> relR R (f x) (g x)) \<Longrightarrow> relR R (bindR m f) (bindR m g)"
  by (cases m) auto

lemma relR_assert: "(p \<Longrightarrow> relR R m n) \<Longrightarrow> relR R (assertR p m) (assertR p n)"
  by (cases p) simp_all

lemma relR_if: "(p \<Longrightarrow> relR R m n) \<Longrightarrow> (\<not> p \<Longrightarrow> relR R m' n') \<Longrightarrow> relR R (if p then m else m') (if p then n else n')"
  by simp

lemma relR_option:
  "(v = None \<Longrightarrow> relR R m n) \<Longrightarrow> (\<And>x. v = Some x \<Longrightarrow> relR R (f x) (g x)) \<Longrightarrow>
   relR R (case v of None \<Rightarrow> m | Some x \<Rightarrow> f x) (case v of None \<Rightarrow> n | Some x \<Rightarrow> g x)"
  by (cases v) simp_all

lemmas relR_intros = relR_same relR_assert relR_if relR_option

text \<open>Results that differ in the bus alone, which comes last.\<close>

definition agree2 :: "('b \<Rightarrow> 'b \<Rightarrow> bool) \<Rightarrow> 'x \<times> 'b \<Rightarrow> 'x \<times> 'b \<Rightarrow> bool" where
  "agree2 R p q \<longleftrightarrow> fst q = fst p \<and> R (snd p) (snd q)"

definition agree3 :: "('b \<Rightarrow> 'b \<Rightarrow> bool) \<Rightarrow> 'x \<times> 'y \<times> 'b \<Rightarrow> 'x \<times> 'y \<times> 'b \<Rightarrow> bool" where
  "agree3 R p q \<longleftrightarrow> fst q = fst p \<and> agree2 R (snd p) (snd q)"

definition agree4 :: "('b \<Rightarrow> 'b \<Rightarrow> bool) \<Rightarrow> 'x \<times> 'y \<times> 'z \<times> 'b \<Rightarrow> 'x \<times> 'y \<times> 'z \<times> 'b \<Rightarrow> bool" where
  "agree4 R p q \<longleftrightarrow> fst q = fst p \<and> agree3 R (snd p) (snd q)"

lemma agree_simps [simp]:
  "agree2 R (x, b) (x', b') \<longleftrightarrow> x' = x \<and> R b b'"
  "agree3 R (x, y, b) (x', y', b') \<longleftrightarrow> x' = x \<and> y' = y \<and> R b b'"
  "agree4 R (x, y, z, b) (x', y', z', b') \<longleftrightarrow> x' = x \<and> y' = y \<and> z' = z \<and> R b b'"
  by (auto simp: agree2_def agree3_def agree4_def)

section \<open>Instructions that do not access memory\<close>

text \<open>Two states of an instruction that differ in the bus alone.\<close>

definition pair :: "('b \<Rightarrow> 'b \<Rightarrow> bool) \<Rightarrow> 'b xstate \<Rightarrow> 'b xstate \<Rightarrow> bool" where
  "pair R x y \<longleftrightarrow> xc y = xc x \<and> is_new_pc_set y = is_new_pc_set x \<and> is_instr_illegal y = is_instr_illegal x \<and>
     R (xb x) (xb y)"

lemma pair_upd:
  "pair R x y \<Longrightarrow> pair R (x\<lparr>xc := c\<rparr>) (y\<lparr>xc := c\<rparr>)" "pair R x y \<Longrightarrow> pair R (set_pc p x) (set_pc p y)"
  "pair R x y \<Longrightarrow> pair R (x\<lparr>is_new_pc_set := f\<rparr>) (y\<lparr>is_new_pc_set := f\<rparr>)"
  "pair R x y \<Longrightarrow> pair R (x\<lparr>is_instr_illegal := f\<rparr>) (y\<lparr>is_instr_illegal := f\<rparr>)"
  "pair R x y \<Longrightarrow> pair R x (y\<lparr>xc := xc x\<rparr>)"
  by (simp_all add: pair_def set_pc_def)

lemma set_rd_pair: "pair R x y \<Longrightarrow> relR (pair R) (set_rd i v x) (set_rd i v y)"
  by (auto simp: set_rd_def pair_def intro!: relR_same)

lemma raise_pair: "pair R x y \<Longrightarrow> relR (pair R) (raise_x cause v x) (raise_x cause v y)"
  by (auto simp: raise_x_def pair_def intro!: relR_same)

lemma trap_pair:
  "pair R x y \<Longrightarrow> relR (pair R) (bindR (raiseTrap cause v c) (\<lambda>c. Inr (x\<lparr>xc := c\<rparr>))) (bindR (raiseTrap cause v c) (\<lambda>c. Inr (y\<lparr>xc := c\<rparr>)))"
  by (auto simp: pair_upd intro!: relR_same)

lemma illegal_pair: "pair R x y \<Longrightarrow> relR (pair R) (illegal x) (illegal y)"
  by (simp add: illegal_def pair_upd)

lemma alu_to_pair: "pair R x y \<Longrightarrow> relR (pair R) (alu_to rd a b op w x) (alu_to rd a b op w y)"
  unfolding alu_to_def by (rule relR_same) (rule set_rd_pair)

lemma set_rd_pair_then:
  "pair R x y \<Longrightarrow> (\<And>x' y'. pair R x' y' \<Longrightarrow> relR Q (f x') (g y')) \<Longrightarrow> relR Q (bindR (set_rd i v x) f) (bindR (set_rd i v y) g)"
  by (rule relR_bind [OF set_rd_pair])

lemma raise_pair_then:
  "pair R x y \<Longrightarrow> (\<And>x' y'. pair R x' y' \<Longrightarrow> relR Q (f x') (g y')) \<Longrightarrow> relR Q (bindR (raise_x c v x) f) (bindR (raise_x c v y) g)"
  by (rule relR_bind [OF raise_pair])

lemma pair_core: "pair R x y \<Longrightarrow> xc y = xc x"
  by (simp add: pair_def)

lemmas pair_rules = set_rd_pair raise_pair trap_pair illegal_pair alu_to_pair set_rd_pair_then raise_pair_then pair_upd

lemma integer_pair:
  assumes "pair R x y"
  shows "relR (pair R) (exec_LUI inst x) (exec_LUI inst y)" "relR (pair R) (exec_AUIPC inst x) (exec_AUIPC inst y)"
    "relR (pair R) (exec_JAL inst x) (exec_JAL inst y)" "relR (pair R) (exec_JALR inst x) (exec_JALR inst y)"
    "relR (pair R) (exec_BRANCH inst x) (exec_BRANCH inst y)" "relR (pair R) (exec_OPIMM inst x) (exec_OPIMM inst y)"
    "relR (pair R) (exec_OPIMM32 inst x) (exec_OPIMM32 inst y)" "relR (pair R) (exec_OP inst x) (exec_OP inst y)"
    "relR (pair R) (exec_OP32 inst x) (exec_OP32 inst y)"
  using assms pair_core [OF assms]
  by (auto simp: exec_LUI_def exec_AUIPC_def exec_JAL_def exec_JALR_def exec_BRANCH_def exec_OPIMM_def exec_OPIMM32_def
      exec_OP_def exec_OP32_def Let_def split: bool.split intro!: pair_rules relR_intros)

lemma or_illegal_pair: "pair R x y \<Longrightarrow> relR (pair R) (or_illegal r x) (or_illegal r y)"
  by (auto simp: or_illegal_def intro!: pair_rules relR_option)

lemma exec_PRIV_pair: "pair R x y \<Longrightarrow> relR (pair R) (exec_PRIV inst x) (exec_PRIV inst y)"
  by (auto simp: exec_PRIV_def Let_def pair_core intro!: pair_rules or_illegal_pair relR_intros)

lemma exec_csr_pair: "pair R x y \<Longrightarrow> relR (pair R) (exec_csr inst w d new x) (exec_csr inst w d new y)"
  by (auto simp: exec_csr_def Let_def pair_core intro!: pair_rules relR_intros)

lemma exec_SYSTEM_pair: "pair R x y \<Longrightarrow> relR (pair R) (exec_SYSTEM inst x) (exec_SYSTEM inst y)"
  by (simp add: exec_SYSTEM_def Let_def exec_CSRRW_def exec_CSRRS_def exec_CSRRC_def exec_CSRRWI_def
      exec_CSRRSI_def exec_CSRRCI_def exec_csr_pair exec_PRIV_pair illegal_pair pair_core)

lemma c_jump_pair: "pair R x y \<Longrightarrow> relR (pair R) (c_jump link t x) (c_jump link t y)"
  by (auto simp: c_jump_def Let_def pair_core intro!: pair_rules relR_if)

lemma c_integer_pair:
  assumes "pair R x y"
  shows "relR (pair R) (exec_C_ADDI4SPN inst x) (exec_C_ADDI4SPN inst y)" "relR (pair R) (exec_C_ADDI inst x) (exec_C_ADDI inst y)"
    "relR (pair R) (exec_C_ADDIW inst x) (exec_C_ADDIW inst y)" "relR (pair R) (exec_C_LI inst x) (exec_C_LI inst y)"
    "relR (pair R) (exec_C_ADDI16SPN_LUI inst x) (exec_C_ADDI16SPN_LUI inst y)" "relR (pair R) (exec_C_ALU inst x) (exec_C_ALU inst y)"
    "relR (pair R) (exec_C_J inst x) (exec_C_J inst y)" "relR (pair R) (exec_C_BEQZ inst x) (exec_C_BEQZ inst y)"
    "relR (pair R) (exec_C_BNEZ inst x) (exec_C_BNEZ inst y)" "relR (pair R) (exec_C_SLLI inst x) (exec_C_SLLI inst y)"
    "relR (pair R) (exec_C_JR_MV_EB_JALR_ADD inst x) (exec_C_JR_MV_EB_JALR_ADD inst y)"
  using assms pair_core [OF assms]
  by (auto simp: exec_C_ADDI4SPN_def exec_C_ADDI_def exec_C_ADDIW_def exec_C_LI_def exec_C_ADDI16SPN_LUI_def
      exec_C_ALU_def exec_C_J_def exec_C_BEQZ_def exec_C_BNEZ_def exec_C_SLLI_def exec_C_JR_MV_EB_JALR_ADD_def ebreak_def Let_def intro!: pair_rules c_jump_pair)

lemma finish_pair:
  assumes "pair R x y"
  shows "relR (agree2 R) (step_finish inst cmp x) (step_finish inst cmp y)"
  using assms pair_core [OF assms]
  unfolding step_finish_def
  by (auto simp: pair_def Let_def intro!: relR_bind [of "pair R"] relR_if raise_pair relR_assert)

section \<open>What the user sees\<close>

text \<open>A run from U-mode up to the next trap, with the interrupt lines of every step.\<close>

fun user_run :: "'b bus_ops \<Rightarrow> IntStatus list \<Rightarrow> core \<times> 'b \<Rightarrow> (core \<times> 'b) res" where
  "user_run bus [] s = Inr s"
| "user_run bus (i # irqs) (c, b) =
     (if nextPrivMode c = U_MODE then bindR (Step_CoreAPI bus (c\<lparr>intStatus := i\<rparr>) b) (user_run bus irqs) else Inr (c, b))"

text \<open>The pages that the user can access in some way, and the page tables.\<close>

definition user_page :: "u64 \<Rightarrow> bool" where
  "user_page pte \<longleftrightarrow> bflag pte_A pte \<and> bflag pte_U pte"

definition observable :: "(u64 \<Rightarrow> u64) \<Rightarrow> mmu_env \<Rightarrow> u64 set" where
  "observable mem e = {sv39_paddr pte l va | va pte l. sv39 mem e va = Some (pte, l) \<and> user_page pte} \<union>
     {a + of_nat i | a i. i < 8 \<and> (\<exists>va. a \<in> set (walk_addrs mem 2 (sv39_root e) va))}"

text \<open>\<open>view S b b'\<close> says that two buses differ at most in the bytes of memory outside \<open>S\<close>.\<close>

locale observed_memory = memory_bus bus binv byte memory
  for bus :: "'b bus_ops" and binv and byte :: "'b \<Rightarrow> u64 \<Rightarrow> u8" and memory :: "u64 \<Rightarrow> nat \<Rightarrow> bool" +
  fixes view :: "u64 set \<Rightarrow> 'b \<Rightarrow> 'b \<Rightarrow> bool"
  assumes view_inv: "view S b b' \<Longrightarrow> binv b'"
    and view_sym: "view S b b' \<Longrightarrow> view S b' b"
    and view_byte: "view S b b' \<Longrightarrow> x \<in> S \<Longrightarrow> byte b' x = byte b x"
    and view_memory: "view S b b' \<Longrightarrow> memory a (unat n) \<Longrightarrow>
      PAddr_ReadBuffer_MMIOBus_API bus b a n = Inr (fb, r, b1) \<Longrightarrow> view S b1 b'"
    and view_read: "view S b b' \<Longrightarrow> (\<And>i. i < unat n \<Longrightarrow> a + of_nat i \<in> S) \<Longrightarrow>
      relR (agree3 (view S))
        (PAddr_ReadBuffer_MMIOBus_API bus b a n) (PAddr_ReadBuffer_MMIOBus_API bus b' a n)"
    and view_write: "view S b b' \<Longrightarrow>
      relR (agree2 (view S))
        (PAddr_WriteBuffer_MMIOBus_API bus b a bs) (PAddr_WriteBuffer_MMIOBus_API bus b' a bs)"
begin

abbreviation seen :: "mmu_env \<Rightarrow> 'b \<Rightarrow> u64 set" where
  "seen e b0 \<equiv> observable (words b0) e"

section \<open>Translation\<close>

lemma table_bytes_seen: "a \<in> table_entries e b0 \<Longrightarrow> i < 8 \<Longrightarrow> a + of_nat i \<in> seen e b0"
  by (auto simp: table_entries_def observable_def)

lemma view_tables:
  assumes "tables_protected memory (words b0) e"
  shows "pt_memory bus (\<lambda>b. intact e b0 b \<and> view (seen e b0) b b') (words b0) (table_entries e b0)"
  unfolding pt_memory_def
proof (intro allI impI, elim conjE)
  fix b a
  assume b: "intact e b0 b" "view (seen e b0) b b'" and a: "a \<in> table_entries e b0"
  have m: "memory a (unat (8 :: u64))" using assms a by (auto simp: tables_protected_def table_entries_def)
  have "returnsR (PAddr_ReadBuffer_MMIOBus_API bus b a 8)
      (\<lambda>(fb, r, b1). fb = MEMU_OK \<and> r = Some (to_bytes 8 (words b0 a)) \<and> intact e b0 b1)"
    using intact_tables [OF assms] b(1) a unfolding pt_memory_def by blast
  then show "returnsR (PAddr_ReadBuffer_MMIOBus_API bus b a 8)
      (\<lambda>(fb, r, b1). fb = MEMU_OK \<and> r = Some (to_bytes 8 (words b0 a)) \<and> intact e b0 b1 \<and> view (seen e b0) b1 b')"
    using view_memory [OF b(2) m] by (auto simp: returnsR_iff)
qed

lemma view_tables':
  assumes "tables_protected memory (words b0) e" and b: "intact e b0 b"
  shows "pt_memory bus (view (seen e b0) b) (words b0) (table_entries e b0)"
  unfolding pt_memory_def
proof (intro allI impI, elim conjE)
  fix b' a
  assume v: "view (seen e b0) b b'" and a: "a \<in> table_entries e b0"
  have m: "memory a (unat (8 :: u64))" "i < 8 \<Longrightarrow> byte b (a + of_nat i) = byte b0 (a + of_nat i)" for i
    using assms a by (auto simp: tables_protected_def table_entries_def intact_def)
  obtain b1 where r: "PAddr_ReadBuffer_MMIOBus_API bus b' a 8 = Inr (MEMU_OK, Some (load_bytes (byte b') a 8), b1)"
    using memory_read [OF view_inv [OF v] m(1)] by auto
  have "load_bytes (byte b') a 8 = to_bytes 8 (words b0 a)"
    unfolding to_bytes_word_at load_bytes_def
    by (rule map_cong) (use m(2) view_byte [OF v] table_bytes_seen [OF a] in auto)
  then show "returnsR (PAddr_ReadBuffer_MMIOBus_API bus b' a 8)
      (\<lambda>(fb, r, b1). fb = MEMU_OK \<and> r = Some (to_bytes 8 (words b0 a)) \<and> view (seen e b0) b b1)"
    using r view_sym [OF view_memory [OF view_sym [OF v] m(1) r]] by simp
qed

text \<open>The walks of both machines give the same entry.\<close>

lemma walk_pair:
  assumes "tables_protected memory (words b0) e" "intact e b0 b" "view (seen e b0) b b'" "mmu_wf m"
    "bget satp_mode (env_satp e) = 8"
  shows "relR (agree3 (view (seen e b0))) (walk_l2 bus e m b va) (walk_l2 bus e m b' va)"
proof -
  have A: "set (walk_addrs (words b0) 2 (sv39_root e) va) \<subseteq> table_entries e b0" by (auto simp: table_entries_def)
  obtain b1 where 1: "intact e b0 b1" "view (seen e b0) b1 b'"
    "walk_l2 bus e m b va = Inr (walk_outcome e m va (sv39 (words b0) e va) b1)"
    using walk_l2_memory [OF view_tables [OF assms(1)] assms(4) _ A assms(5)] assms(2,3) by blast
  obtain b1' where 2: "view (seen e b0) b1 b1'"
    "walk_l2 bus e m b' va = Inr (walk_outcome e m va (sv39 (words b0) e va) b1')"
    using walk_l2_memory [OF view_tables' [OF assms(1) 1(1)] assms(4) 1(2) A assms(5)] by blast
  show ?thesis using 1 2 by (simp add: walk_outcome_def split: option.split)
qed

lemma lookup_pair:
  assumes g: "guarded e b0 m b" and v: "view (seen e b0) b b'"
  shows "relR (agree3 (view (seen e b0))) (getTLBEntry bus e m b va) (getTLBEntry bus e m b' va)"
proof -
  have h: "tables_protected memory (words b0) e" "intact e b0 b" "mmu_wf m" "bget satp_mode (env_satp e) = 8"
    using g by (simp_all add: guarded_def tlb_ok_def)
  have "mmu_wf (m\<lparr>tlbGetCache := c\<rparr>)" if "tlb_scan e va 0 (tlb m) None (tlbGetCache m) = Inr (p, c)" for p c
    using tlb_scan_wf [OF h(3) that] by simp
  note w = walk_pair [OF h(1,2) v this h(4)]
  show ?thesis
    unfolding getTLBEntry_def Let_def
    by (auto simp: v intro!: relR_intros w)
qed

lemma pair_find:
  "guarded e b0 m b \<Longrightarrow> view (seen e b0) b b' \<Longrightarrow>
   (\<And>p m1 b1 b1'. guarded e b0 m1 b1 \<Longrightarrow> view (seen e b0) b1 b1' \<Longrightarrow>
      (\<And>i. p = Some i \<Longrightarrow> \<exists>pte l. sv39 (words b0) e va = Some (pte, l) \<and> l \<le> 2 \<and> entry_attrs (tlb m1 ! i) pte l) \<Longrightarrow>
      relR R (f (p, m1, b1)) (g (p, m1, b1'))) \<Longrightarrow>
   relR R (bindR (getTLBEntry bus e m b va) f) (bindR (getTLBEntry bus e m b' va) g)"
  by (rule relR_bind [OF relR_holds [OF lookup_pair guarded_lookup,
      where R = "\<lambda>x y. agree3 (view (seen e b0)) x y \<and> (case x of (p, m', b') \<Rightarrow> guarded e b0 m' b' \<and>
        (\<forall>i. p = Some i \<longrightarrow> (\<exists>pte l. sv39 (words b0) e va = Some (pte, l) \<and> l \<le> 2 \<and> entry_attrs (tlb m' ! i) pte l)))"]])
    auto

section \<open>Translated accesses\<close>

lemma page_seen:
  assumes "sv39 (words b0) e va = Some (pte, l)" "user_page pte" "\<not> crosses_page va n" "unat n \<le> 8" "i < unat n"
  shows "sv39_paddr pte l va + of_nat i \<in> seen e b0"
  using sv39_page_bytes [OF assms(1) _ assms(4,5)] assms(2,3) by (fastforce simp: observable_def)

lemma pair_read:
  assumes g: "guarded e b0 m b" and v: "view (seen e b0) b b'"
    and t: "\<exists>pte l. sv39 (words b0) e va = Some (pte, l) \<and> l \<le> 2 \<and> entry_attrs t pte l"
    and allowed: "te_A t" "te_U t" "\<not> crosses_page va n" "unat n \<le> 8"
    and f: "\<And>fb r b1 b1'. guarded e b0 m b1 \<Longrightarrow> view (seen e b0) b1 b1' \<Longrightarrow> relR R (f (fb, r, b1)) (g (fb, r, b1'))"
  shows "relR R (bindR (PAddr_ReadBuffer_MMIOBus_API bus b (te_ppa t + va mod page_size_of t) n) f)
    (bindR (PAddr_ReadBuffer_MMIOBus_API bus b' (te_ppa t + va mod page_size_of t) n) g)"
proof -
  obtain pte l where w: "sv39 (words b0) e va = Some (pte, l)" "l \<le> 2" "entry_attrs t pte l" using t by blast
  have pa: "te_ppa t + va mod page_size_of t = sv39_paddr pte l va" using attrs_page_size [OF w(3,2)] by simp
  have u: "user_page pte" using w(3) allowed(1,2) by (simp add: user_page_def entry_attrs_def)
  have i: "intact e b0 b" using g by (simp add: guarded_def)
  show ?thesis
    unfolding pa
    by (rule relR_bind [OF relR_holds [OF view_read [OF v page_seen [OF w(1) u allowed(3,4)]] intact_read [OF i],
        where R = "\<lambda>x y. agree3 (view (seen e b0)) x y \<and> (case x of (fb, r, b1) \<Rightarrow> intact e b0 b1)"]])
      (use g f in \<open>auto simp: guarded_def\<close>)
qed

lemma pair_write:
  assumes g: "guarded e b0 m b" and v: "view (seen e b0) b b'"
    and t: "\<exists>pte l. sv39 (words b0) e va = Some (pte, l) \<and> l \<le> 2 \<and> entry_attrs t pte l"
    and allowed: "te_A t \<and> te_D t \<and> te_W t \<and> te_U t" "\<not> crosses_page va (of_nat (length bs))" "length bs \<le> 8"
    and f: "\<And>fb b1 b1'. guarded e b0 m b1 \<Longrightarrow> view (seen e b0) b1 b1' \<Longrightarrow> relR R (f (fb, b1)) (g (fb, b1'))"
  shows "relR R (bindR (PAddr_WriteBuffer_MMIOBus_API bus b (te_ppa t + va mod page_size_of t) bs) f)
    (bindR (PAddr_WriteBuffer_MMIOBus_API bus b' (te_ppa t + va mod page_size_of t) bs) g)"
  using allowed
  by (intro relR_bind [OF relR_holds [OF view_write [OF v] guarded_write [OF g t],
        where R = "\<lambda>x y. agree2 (view (seen e b0)) x y \<and> (case x of (fb, b1) \<Rightarrow> guarded e b0 m b1)"]])
    (use f in auto)

lemma guarded_mode: "guarded e b0 m b \<Longrightarrow> env_priv e = U_MODE \<and> bget satp_mode (env_satp e) = 8"
  by (simp add: guarded_def)

lemmas pair_access = pair_find pair_read pair_write relR_intros

lemma read_pair:
  "guarded e b0 m b \<Longrightarrow> view (seen e b0) b b' \<Longrightarrow> unat n \<le> 8 \<Longrightarrow>
   relR (agree4 (view (seen e b0))) (VAddr_ReadBuffer_MMU_API bus e m b a n) (VAddr_ReadBuffer_MMU_API bus e m b' a n)"
  by (auto simp: VAddr_ReadBuffer_MMU_API_def Let_def guarded_env intro!: pair_access)

lemma write_pair:
  "guarded e b0 m b \<Longrightarrow> view (seen e b0) b b' \<Longrightarrow> length bs \<le> 8 \<Longrightarrow>
   relR (agree3 (view (seen e b0))) (VAddr_WriteBuffer_MMU_API bus e m b a bs) (VAddr_WriteBuffer_MMU_API bus e m b' a bs)"
  by (auto simp: VAddr_WriteBuffer_MMU_API_def Let_def guarded_env intro!: pair_access)

lemma fetch_part_pair:
  "guarded e b0 m b \<Longrightarrow> view (seen e b0) b b' \<Longrightarrow> unat n \<le> 8 \<Longrightarrow>
   relR (agree4 (view (seen e b0))) (inst_fetch_part bus e m b a n buf) (inst_fetch_part bus e m b' a n buf)"
  using guarded_mode [of e b0 m b] by (auto simp: inst_fetch_part_def Let_def intro!: pair_access)

lemma lr_pair:
  "guarded e b0 m b \<Longrightarrow> view (seen e b0) b b' \<Longrightarrow> unat n \<le> 8 \<Longrightarrow>
   relR (agree4 (view (seen e b0))) (vaddrLoadReserved bus e m b a n) (vaddrLoadReserved bus e m b' a n)"
  by (auto simp: vaddrLoadReserved_def Let_def guarded_env intro!: pair_access)

lemma sc_pair:
  "guarded e b0 m b \<Longrightarrow> view (seen e b0) b b' \<Longrightarrow> length bs \<le> 8 \<Longrightarrow>
   relR (agree4 (view (seen e b0))) (vaddrStoreConditional bus e m b a bs) (vaddrStoreConditional bus e m b' a bs)"
  by (auto simp: vaddrStoreConditional_def Let_def guarded_env intro!: pair_access)

lemma fetch_pair:
  assumes g: "guarded e b0 m b" and v: "view (seen e b0) b b'" and n: "unat n \<le> 8"
  shows "relR (agree4 (view (seen e b0))) (VAddr_InstFetch_MMU_API bus e m b a n buf) (VAddr_InstFetch_MMU_API bus e m b' a n buf)"
proof -
  have part: "relR (agree4 (view (seen e b0))) (bindR (inst_fetch_part bus e m1 b1 a' 2 buf1) (\<lambda>(fb, hi, m2, b2). Inr (k fb, h hi, m2, b2)))
      (bindR (inst_fetch_part bus e m1 b1' a' 2 buf1) (\<lambda>(fb, hi, m2, b2). Inr (k fb, h hi, m2, b2)))"
    if "guarded e b0 m1 b1" "view (seen e b0) b1 b1'"
    for m1 b1 b1' a' buf1 and k :: "VAddr_RW_Feedback \<Rightarrow> VAddr_RW_Feedback" and h :: "u8 list \<Rightarrow> u8 list"
    by (rule relR_bind [OF fetch_part_pair [OF that]]) auto
  show ?thesis
    unfolding VAddr_InstFetch_MMU_API_def
    by (intro relR_if fetch_part_pair g v n
        relR_bind [OF relR_holds [OF fetch_part_pair [OF g v, of 2] fetch_part_guarded [OF g],
          where R = "\<lambda>x y. agree4 (view (seen e b0)) x y \<and> (case x of (fb, buf', m1, b1) \<Rightarrow> guarded e b0 m1 b1)"]])
      (auto intro!: part)
qed

lemma pa_amo_pair:
  assumes "guarded e b0 m b" "view (seen e b0) b b'"
    "\<exists>pte l. sv39 (words b0) e va = Some (pte, l) \<and> l \<le> 2 \<and> entry_attrs t pte l"
    "te_A t \<and> te_D t \<and> te_W t \<and> te_U t" "\<not> crosses_page va n" "n = 4 \<or> n = 8"
  shows "relR (agree3 (view (seen e b0))) (pa_amo_op bus b (te_ppa t + va mod page_size_of t) n op src)
    (pa_amo_op bus b' (te_ppa t + va mod page_size_of t) n op src)"
proof -
  have n: "unat n \<le> 8" using assms(6) by auto
  show ?thesis
    unfolding pa_amo_op_def Let_def
    by (rule pair_read [OF assms(1-3)])
      (auto simp: n assms(4,5) intro!: pair_write [OF _ _ assms(3)] relR_intros)
qed

lemma amo_pair:
  assumes "guarded e b0 m b" "view (seen e b0) b b'"
  shows "relR (agree4 (view (seen e b0))) (vaddrAtomicMemOperation bus e m b a n op src) (vaddrAtomicMemOperation bus e m b' a n op src)"
  using assms
  by (auto simp: vaddrAtomicMemOperation_def Let_def guarded_env intro!: pair_find relR_intros relR_bind [OF pa_amo_pair])

section \<open>Memory instructions\<close>

definition user_pair :: "mmu_env \<Rightarrow> 'b \<Rightarrow> 'b xstate \<Rightarrow> 'b xstate \<Rightarrow> bool" where
  "user_pair e b0 x y \<longleftrightarrow> user_x e b0 x \<and> pair (view (seen e b0)) x y"

lemma user_pairD:
  assumes "user_pair e b0 x y"
  shows "guarded (core_env (xc x)) b0 (sv39MMU (xc x)) (xb x)" "view (seen (core_env (xc x)) b0) (xb x) (xb y)"
    "core_env (xc x) = e" "xc y = xc x" "pair (view (seen e b0)) x y"
  using assms by (simp_all add: user_pair_def user_x_def pair_def)

lemma access4_pair:
  "relR (agree4 (view (seen (core_env (xc x)) b0))) M N \<Longrightarrow> user_pair e b0 x y \<Longrightarrow>
   (\<And>fb r m b b'. pair (view (seen e b0)) (x\<lparr>xc := (xc x)\<lparr>sv39MMU := m\<rparr>, xb := b\<rparr>) (y\<lparr>xc := (xc x)\<lparr>sv39MMU := m\<rparr>, xb := b'\<rparr>) \<Longrightarrow>
      relR R (f (fb, r, m, b)) (g (fb, r, m, b'))) \<Longrightarrow>
   relR R (bindR M f) (bindR N g)"
  by (erule relR_bind) (auto simp: user_pair_def user_x_def pair_def)

lemma access3_pair:
  "relR (agree3 (view (seen (core_env (xc x)) b0))) M N \<Longrightarrow> user_pair e b0 x y \<Longrightarrow>
   (\<And>fb m b b'. pair (view (seen e b0)) (x\<lparr>xc := (xc x)\<lparr>sv39MMU := m\<rparr>, xb := b\<rparr>) (y\<lparr>xc := (xc x)\<lparr>sv39MMU := m\<rparr>, xb := b'\<rparr>) \<Longrightarrow>
      relR R (f (fb, m, b)) (g (fb, m, b'))) \<Longrightarrow>
   relR R (bindR M f) (bindR N g)"
  by (erule relR_bind) (auto simp: user_pair_def user_x_def pair_def)

lemma memRead_pair:
  assumes "user_pair e b0 x y" "unat n \<le> 8"
  shows "relR (agree3 (pair (view (seen e b0)))) (memRead bus a n x) (memRead bus a n y)"
  using user_pairD [OF assms(1)] assms
  by (auto simp: memRead_def Let_def
      intro!: raise_pair_then relR_assert relR_if access4_pair [OF read_pair [OF user_pairD(1,2)]])

lemma memWrite_pair:
  assumes "user_pair e b0 x y" "length bs \<le> 8"
  shows "relR (pair (view (seen e b0))) (memWrite bus a bs x) (memWrite bus a bs y)"
  using user_pairD [OF assms(1)] assms
  by (auto simp: memWrite_def Let_def
      intro!: raise_pair relR_assert relR_if access3_pair [OF write_pair [OF user_pairD(1,2)]])

lemma load_to_pair:
  assumes "user_pair e b0 x y" "unat n \<le> 8"
  shows "relR (pair (view (seen e b0))) (load_to bus a n conv rd x) (load_to bus a n conv rd y)"
  unfolding load_to_def
  by (rule relR_bind [OF memRead_pair [OF assms]]) (auto intro!: set_rd_pair relR_intros)

lemma exec_LOAD_pair: "user_pair e b0 x y \<Longrightarrow> relR (pair (view (seen e b0))) (exec_LOAD bus inst x) (exec_LOAD bus inst y)"
  using user_pairD [of e b0 x y] by (simp add: exec_LOAD_def Let_def load_to_pair illegal_pair)

lemma exec_STORE_pair: "user_pair e b0 x y \<Longrightarrow> relR (pair (view (seen e b0))) (exec_STORE bus inst x) (exec_STORE bus inst y)"
  using user_pairD [of e b0 x y] by (simp add: exec_STORE_def Let_def memWrite_pair illegal_pair)

lemma exec_AMO_pair:
  assumes "user_pair e b0 x y"
  shows "relR (pair (view (seen e b0))) (exec_AMO bus inst x) (exec_AMO bus inst y)"
  using user_pairD [OF assms] assms
  by (auto simp: exec_AMO_def Let_def split: AMO_Funct_enum.split
      intro!: pair_rules relR_intros access4_pair [OF lr_pair [OF user_pairD(1,2)]]
        access4_pair [OF sc_pair [OF user_pairD(1,2)]] access4_pair [OF amo_pair [OF user_pairD(1,2)]])

lemma exec_32_pair: "user_pair e b0 x y \<Longrightarrow> relR (pair (view (seen e b0))) (exec_32 bus inst x) (exec_32 bus inst y)"
  using user_pairD(5) [of e b0 x y]
  by (simp add: exec_32_def Let_def integer_pair exec_LOAD_pair exec_STORE_pair exec_AMO_pair exec_SYSTEM_pair illegal_pair)

lemma c_memory_pair:
  assumes "user_pair e b0 x y"
  shows "relR (pair (view (seen e b0))) (exec_C_LW bus inst x) (exec_C_LW bus inst y)"
    "relR (pair (view (seen e b0))) (exec_C_LD bus inst x) (exec_C_LD bus inst y)"
    "relR (pair (view (seen e b0))) (exec_C_SW bus inst x) (exec_C_SW bus inst y)"
    "relR (pair (view (seen e b0))) (exec_C_SD bus inst x) (exec_C_SD bus inst y)"
    "relR (pair (view (seen e b0))) (exec_C_LWSP bus inst x) (exec_C_LWSP bus inst y)"
    "relR (pair (view (seen e b0))) (exec_C_LDSP bus inst x) (exec_C_LDSP bus inst y)"
    "relR (pair (view (seen e b0))) (exec_C_SWSP bus inst x) (exec_C_SWSP bus inst y)"
    "relR (pair (view (seen e b0))) (exec_C_SDSP bus inst x) (exec_C_SDSP bus inst y)"
  by (simp_all add: c_defs Let_def load_to_pair memWrite_pair assms user_pairD(4) [OF assms])

lemma exec_C_pair: "user_pair e b0 x y \<Longrightarrow> relR (pair (view (seen e b0))) (exec_C bus inst x) (exec_C bus inst y)"
  using user_pairD(5) [of e b0 x y] by (simp add: exec_C_def Let_def c_memory_pair c_integer_pair illegal_pair)

section \<open>Steps\<close>

lemma Step_pair:
  assumes inv: "user_inv e b0 c b" and mode: "nextPrivMode c = U_MODE" and v: "view (seen e b0) b b'"
  shows "relR (agree2 (view (seen e b0))) (Step_CoreAPI bus c b) (Step_CoreAPI bus c b')"
proof (cases "preExec c")
  case (Inl reason)
  then show ?thesis by (simp add: Step_CoreAPI_def)
next
  case (Inr c1)
  let ?x = "\<lambda>m b. \<lparr>xc = c1\<lparr>sv39MMU := m\<rparr>, xb = b, is_new_pc_set = False, is_instr_illegal = False\<rparr>"
  have fin: "relR (agree2 (view (seen e b0))) (bindR m (step_finish inst cmp)) (bindR n (step_finish inst cmp))"
    if "relR (pair (view (seen e b0))) m n" for m n inst cmp
    using that by (rule relR_bind) (rule finish_pair)
  have x: "pair (view (seen e b0)) (?x m b1) (?x m b1')" if "view (seen e b0) b1 b1'" for m b1 b1'
    using that by (simp add: pair_def)
  consider "c1 = preExec_update c" | "needTrap c1" "nextPrivMode c1 \<noteq> U_MODE"
    using holdsR_D [OF preExec_user Inr] by blast
  then show ?thesis
  proof cases
    case 1
    then have e: "core_env c1 = e" and g: "guarded e b0 (sv39MMU c1) b" and t: "\<not> needTrap c1"
      using inv mode by (simp_all add: preExec_update_user user_inv_def) (simp add: user_env_def core_env_def)
    have u: "user_pair e b0 (?x m b1) (?x m b1')" if "guarded e b0 m b1" "view (seen e b0) b1 b1'" for m b1 b1'
      using that x e by (simp add: user_pair_def user_x_def core_env_def)
    note f = relR_bind [OF relR_holds [OF fetch_pair [OF g v] fetch_guarded [OF g],
        where R = "\<lambda>x y. agree4 (view (seen e b0)) x y \<and> (case x of (fb, buf', m1, b1) \<Rightarrow> guarded e b0 m1 b1)"]]
    show ?thesis
      using t v by (auto simp: Step_CoreAPI_def Inr Let_def e pair_def
          intro!: fin raise_pair exec_32_pair exec_C_pair relR_assert relR_if f u)
  next
    case 2
    then show ?thesis using v by (simp add: Step_CoreAPI_def Inr Let_def finish_pair pair_def)
  qed
qed

lemma user_run_pair:
  assumes "user_inv e b0 (fst s) (snd s)" "view (seen e b0) (snd s) b'"
  shows "relR (agree2 (view (seen e b0))) (user_run bus irqs s) (user_run bus irqs (fst s, b'))"
  using assms
proof (induction irqs arbitrary: s b')
  case Nil
  then show ?case by (cases s) simp
next
  case (Cons i irqs)
  obtain c b where s: "s = (c, b)" by (cases s)
  have u: "user_inv e b0 (c\<lparr>intStatus := i\<rparr>) b" using Cons.prems(1) s by (simp add: user_inv_irq)
  show ?case
  proof (cases "nextPrivMode c = U_MODE")
    case True
    then have "relR (\<lambda>x y. agree2 (view (seen e b0)) x y \<and> (case x of (c', b1) \<Rightarrow> user_inv e b0 c' b1))
        (Step_CoreAPI bus (c\<lparr>intStatus := i\<rparr>) b) (Step_CoreAPI bus (c\<lparr>intStatus := i\<rparr>) b')"
      using Cons.prems(2) s by (intro relR_holds [OF Step_pair [OF u] Step_user [OF u]]) auto
    then show ?thesis
      using True Cons.IH unfolding s by (auto elim!: relR_bind)
  next
    case False
    then show ?thesis using Cons.prems(2) s by simp
  qed
qed

end

end
