(* ===== verification/Board_Secrecy.thy ===== *)
theory Board_Secrecy
  imports Board_Memory Confidentiality
begin

unbundle bit_operations_syntax

text \<open>
  Boards that differ in their RAM alone, and what follows for a user program on them: its steps do
  not depend on RAM that its page tables do not let it access.
\<close>

section \<open>Boards with different RAM\<close>

definition board_view :: "u64 set \<Rightarrow> device mmio_bus \<Rightarrow> device mmio_bus \<Rightarrow> bool" where
  "board_view S b b' \<longleftrightarrow> board_wf b \<and> board_wf b' \<and> (\<forall>h \<in> {h_uart, h_clint, h_plic}. dev_of b' h = dev_of b h) \<and>
     (\<forall>x \<in> S. ram_byte b' x = ram_byte b x)"

lemma board_regions:
  "board_wf b \<Longrightarrow> board_wf b' \<Longrightarrow> h \<in> {h_ram, h_uart, h_clint, h_plic} \<Longrightarrow> isAddrInRange (dev_of b' h) a = isAddrInRange (dev_of b h) a"
  by (auto simp: board_wf_def wired_def isAddrInRange_def)

lemma board_misses:
  assumes "board_wf b" "\<forall>h \<in> {h_ram, h_uart, h_clint, h_plic}. \<not> isAddrInRange (dev_of b h) a"
  shows "\<exists>b1. devHeap b1 = devHeap b \<and> bus_read device_ops b a n = Inr (MEMU_NOT_ACCESSIBLE, None, b1) \<and>
    bus_write device_ops b a bs = Inr (MEMU_NOT_ACCESSIBLE, b1)"
proof -
  have w: "devs_wf b" "cache_sound b" using assms(1) by (simp_all add: board_wf_def bus_wf_def)
  show ?thesis
  proof (cases rule: find_cases [OF w, of a])
    case (1 b1)
    then show ?thesis by (intro exI [of _ b1]) (simp add: bus_read_def bus_write_def)
  next
    case (2 h b1)
    then show ?thesis using assms board_handles [OF assms(1)] by auto
  qed
qed

lemma board_hits:
  assumes "board_wf b" "h \<in> {h_ram, h_uart, h_clint, h_plic}" "isAddrInRange (dev_of b h) a"
  shows "\<exists>b1. devHeap b1 = devHeap b \<and>
    bus_read device_ops b a n = bindR (device_read (dev_of b h) (a - devBaseAddr (dev_of b h)) n) (\<lambda>(_, buf, d). Inr (MEMU_OK, buf, set_dev h d b1)) \<and>
    bus_write device_ops b a bs = bindR (device_write (dev_of b h) (a - devBaseAddr (dev_of b h)) bs) (\<lambda>(_, d). Inr (MEMU_OK, set_dev h d b1))"
  using bus_routes [of device_inv b h a device_ops n bs] assms board_handles [OF assms(1)]
  by (auto simp: board_wf_def device_ops_def)

lemma ram_device:
  assumes "devImpl d = Ram r"
  shows "device_read d a n = (if unat a + unat n \<le> unat (memorySize r)
      then Inr (MEMU_OK, Some (load_bytes (memData r) a (unat n)), d) else Inl OutOfBounds)"
    and "device_write d a bs = (if unat a + length bs \<le> unat (memorySize r)
      then Inr (MEMU_OK, d\<lparr>devImpl := Ram (r\<lparr>memData := store_bytes (memData r) a bs\<rparr>)\<rparr>) else Inl OutOfBounds)"
  using assms
  by (auto simp: device_read_def device_write_def dispatch_read_def dispatch_write_def ram_read_def ram_write_def in_block_def
      with_impl_def as_device_def)

text \<open>Either no device answers on either board, or the same other device on both, or the RAM.\<close>

lemma view_cases:
  assumes "board_view S b b'"
  obtains
    (miss) b1 b1' where "devHeap b1 = devHeap b" "devHeap b1' = devHeap b'"
      "bus_read device_ops b a n = Inr (MEMU_NOT_ACCESSIBLE, None, b1)" "bus_read device_ops b' a n = Inr (MEMU_NOT_ACCESSIBLE, None, b1')"
      "bus_write device_ops b a bs = Inr (MEMU_NOT_ACCESSIBLE, b1)" "bus_write device_ops b' a bs = Inr (MEMU_NOT_ACCESSIBLE, b1')"
  | (other) h b1 b1' where "devHeap b1 = devHeap b" "devHeap b1' = devHeap b'" "h \<in> {h_uart, h_clint, h_plic}"
      "bus_read device_ops b a n = bindR (device_read (dev_of b h) (a - devBaseAddr (dev_of b h)) n) (\<lambda>(_, buf, d). Inr (MEMU_OK, buf, set_dev h d b1))"
      "bus_read device_ops b' a n = bindR (device_read (dev_of b h) (a - devBaseAddr (dev_of b h)) n) (\<lambda>(_, buf, d). Inr (MEMU_OK, buf, set_dev h d b1'))"
      "bus_write device_ops b a bs = bindR (device_write (dev_of b h) (a - devBaseAddr (dev_of b h)) bs) (\<lambda>(_, d). Inr (MEMU_OK, set_dev h d b1))"
      "bus_write device_ops b' a bs = bindR (device_write (dev_of b h) (a - devBaseAddr (dev_of b h)) bs) (\<lambda>(_, d). Inr (MEMU_OK, set_dev h d b1'))"
  | (ram) b1 b1' where "devHeap b1 = devHeap b" "devHeap b1' = devHeap b'"
      "bus_read device_ops b a n = bindR (device_read (dev_of b h_ram) (a - RAM_BASE) n) (\<lambda>(_, buf, d). Inr (MEMU_OK, buf, set_dev h_ram d b1))"
      "bus_read device_ops b' a n = bindR (device_read (dev_of b' h_ram) (a - RAM_BASE) n) (\<lambda>(_, buf, d). Inr (MEMU_OK, buf, set_dev h_ram d b1'))"
      "bus_write device_ops b a bs = bindR (device_write (dev_of b h_ram) (a - RAM_BASE) bs) (\<lambda>(_, d). Inr (MEMU_OK, set_dev h_ram d b1))"
      "bus_write device_ops b' a bs = bindR (device_write (dev_of b' h_ram) (a - RAM_BASE) bs) (\<lambda>(_, d). Inr (MEMU_OK, set_dev h_ram d b1'))"
proof -
  have w: "board_wf b" "board_wf b'" using assms by (simp_all add: board_view_def)
  note r = board_regions [OF w]
  consider "\<forall>h \<in> {h_ram, h_uart, h_clint, h_plic}. \<not> isAddrInRange (dev_of b h) a"
    | h where "h \<in> {h_uart, h_clint, h_plic}" "isAddrInRange (dev_of b h) a" | "isAddrInRange (dev_of b h_ram) a" by auto
  then show thesis
  proof cases
    case 1
    then have "\<forall>h \<in> {h_ram, h_uart, h_clint, h_plic}. \<not> isAddrInRange (dev_of b' h) a" using r by blast
    from board_misses [OF w(1) 1, of n bs] board_misses [OF w(2) this, of n bs] show thesis using miss by blast
  next
    case 2
    have h: "h \<in> {h_ram, h_uart, h_clint, h_plic}" using 2(1) by simp
    have "isAddrInRange (dev_of b' h) a" using r [OF h] 2(2) by simp
    moreover have "dev_of b' h = dev_of b h" using assms 2(1) by (auto simp: board_view_def)
    ultimately show thesis
      using board_hits [OF w(1) h 2(2), of n bs] board_hits [OF w(2) h, of a n bs] other [OF _ _ 2(1)] by fastforce
  next
    case 3
    have h: "h_ram \<in> {h_ram, h_uart, h_clint, h_plic}" by simp
    have "isAddrInRange (dev_of b' h_ram) a" using r [OF h] 3 by simp
    moreover have "devBaseAddr (dev_of b h_ram) = RAM_BASE" "devBaseAddr (dev_of b' h_ram) = RAM_BASE"
      using w by (simp_all add: board_wf_def wired_def)
    ultimately show thesis
      using board_hits [OF w(1) h 3, of n bs] board_hits [OF w(2) h, of a n bs] ram by fastforce
  qed
qed

lemma bus_table_simps [simp]:
  "PAddr_ReadBuffer_MMIOBus_API bus_table = bus_read device_ops" "PAddr_WriteBuffer_MMIOBus_API bus_table = bus_write device_ops"
  by (simp_all add: MEmu_bus_ops_def)

text \<open>Accesses keep two boards alike if they keep the devices and the visible RAM alike.\<close>

lemma view_read_result:
  assumes "board_view S b b'"
    and "bus_read device_ops b a n = Inr (fb, r, b1)" "bus_read device_ops b' a n = Inr (fb', r', b1')"
    and "\<And>h. h \<in> {h_uart, h_clint, h_plic} \<Longrightarrow> dev_of b1' h = dev_of b1 h"
  shows "board_view S b1 b1'"
  using assms board.bus_read_inv [of b a n fb r b1] board.bus_read_inv [of b' a n fb' r' b1']
    ram_read_frame [OF _ assms(2)] ram_read_frame [OF _ assms(3)]
  by (simp add: board_view_def)

lemma board_view_devs: "board_view S b b' \<Longrightarrow> h \<in> {h_uart, h_clint, h_plic} \<Longrightarrow> dev_of b' h = dev_of b h"
  by (auto simp: board_view_def)

lemma board_heaps:
  "board_view S b b' \<Longrightarrow> length (devHeap b) = 4" "board_view S b b' \<Longrightarrow> length (devHeap b') = 4"
  by (simp_all add: board_view_def board_wf_def)

lemma not_ram: "h \<in> {h_uart, h_clint, h_plic} \<Longrightarrow> h \<noteq> h_ram"
  by (auto simp: handles)

lemma dev_of_heap: "devHeap b1 = devHeap b \<Longrightarrow> dev_of b1 h = dev_of b h"
  by (simp add: dev_of_def)

lemma board_view_read:
  assumes v: "board_view S b b'" and seen: "\<And>i. i < unat n \<Longrightarrow> a + of_nat i \<in> S"
  shows "relR (agree3 (board_view S)) (bus_read device_ops b a n) (bus_read device_ops b' a n)"
proof -
  note len = board_heaps [OF v] and dev = board_view_devs [OF v]
  from v show ?thesis
  proof (cases rule: view_cases [where a = a and n = n and bs = "[]"])
    case (miss b1 b1')
    have "board_view S b1 b1'"
      by (rule view_read_result [OF v miss(3,4)]) (simp add: dev dev_of_heap [OF miss(1)] dev_of_heap [OF miss(2)])
    with miss(3,4) show ?thesis by simp
  next
    case (other h b1 b1')
    show ?thesis
    proof (cases "device_read (dev_of b h) (a - devBaseAddr (dev_of b h)) n")
      case (Inl c)
      then show ?thesis using other(4,5) by simp
    next
      case (Inr x)
      obtain st buf d where x: "x = (st, buf, d)" by (metis prod_cases3)
      have r: "bus_read device_ops b a n = Inr (MEMU_OK, buf, set_dev h d b1)" "bus_read device_ops b' a n = Inr (MEMU_OK, buf, set_dev h d b1')"
        using other(4,5) Inr x by simp_all
      have h: "h < length (devHeap b1)" "h < length (devHeap b1')" using other(1-3) len by (auto simp: handles)
      have "board_view S (set_dev h d b1) (set_dev h d b1')"
        by (rule view_read_result [OF v r])
          (simp add: dev dev_of_set_dev h dev_of_heap [OF other(1)] dev_of_heap [OF other(2)])
      with r show ?thesis by simp
    qed
  next
    case (ram b1 b1')
    have w: "board_wf b" "board_wf b'" using v by (simp_all add: board_view_def)
    obtain r where r: "devImpl (dev_of b h_ram) = Ram r" "memorySize r = RAM_SIZE" "ram_byte b = (\<lambda>x. memData r (x - RAM_BASE))"
      by (rule board_ram [OF w(1)])
    obtain r' where r': "devImpl (dev_of b' h_ram) = Ram r'" "memorySize r' = RAM_SIZE" "ram_byte b' = (\<lambda>x. memData r' (x - RAM_BASE))"
      by (rule board_ram [OF w(2)])
    have same: "load_bytes (memData r') (a - RAM_BASE) (unat n) = load_bytes (memData r) (a - RAM_BASE) (unat n)"
      unfolding load_bytes_shift r(3) [symmetric] r'(3) [symmetric]
      by (rule load_bytes_cong) (use v seen in \<open>simp add: board_view_def\<close>)
    have h: "h_ram < length (devHeap b1)" "h_ram < length (devHeap b1')" using ram(1,2) len by (simp_all add: handles)
    show ?thesis
    proof (cases "unat (a - RAM_BASE) + unat n \<le> unat RAM_SIZE")
      case True
      let ?buf = "Some (load_bytes (memData r) (a - RAM_BASE) (unat n))"
      have rd: "bus_read device_ops b a n = Inr (MEMU_OK, ?buf, set_dev h_ram (dev_of b h_ram) b1)"
        "bus_read device_ops b' a n = Inr (MEMU_OK, ?buf, set_dev h_ram (dev_of b' h_ram) b1')"
        using ram(3,4) True r r' same by (simp_all add: ram_device)
      have "board_view S (set_dev h_ram (dev_of b h_ram) b1) (set_dev h_ram (dev_of b' h_ram) b1')"
        by (rule view_read_result [OF v rd])
          (simp add: dev not_ram dev_of_set_dev h dev_of_heap [OF ram(1)] dev_of_heap [OF ram(2)])
      with rd show ?thesis by simp
    next
      case False
      then show ?thesis using ram(3,4) r r' by (simp add: ram_device)
    qed
  qed
qed

lemma view_write_result:
  assumes "board_view S b b'"
    and "bus_write device_ops b a bs = Inr (fb, b1)" "bus_write device_ops b' a bs = Inr (fb', b1')"
    and "\<And>h. h \<in> {h_uart, h_clint, h_plic} \<Longrightarrow> dev_of b1' h = dev_of b1 h"
    and "\<And>x. x \<in> S \<Longrightarrow> ram_byte b1' x = ram_byte b1 x"
  shows "board_view S b1 b1'"
  using assms board.bus_write_inv [of b a bs fb b1] board.bus_write_inv [of b' a bs fb' b1']
  by (simp add: board_view_def)

lemma store_bytes_agree: "f x = g x \<Longrightarrow> store_bytes f a bs x = store_bytes g a bs x"
proof (induction bs arbitrary: f g a)
  case Nil
  then show ?case by simp
next
  case (Cons b bs)
  then have "(f(a := b)) x = (g(a := b)) x" by simp
  then show ?case unfolding store_bytes.simps by (rule Cons.IH)
qed

lemma board_view_ram: "board_view S b b' \<Longrightarrow> x \<in> S \<Longrightarrow> ram_byte b' x = ram_byte b x"
  by (simp add: board_view_def)

lemma ram_byte_heap: "dev_of b1 h_ram = dev_of b h_ram \<Longrightarrow> ram_byte b1 = ram_byte b"
  by (rule ram_byte_cong) simp

lemma board_view_write:
  assumes v: "board_view S b b'"
  shows "relR (agree2 (board_view S)) (bus_write device_ops b a bs) (bus_write device_ops b' a bs)"
proof -
  note len = board_heaps [OF v] and dev = board_view_devs [OF v] and mem = board_view_ram [OF v]
  from v show ?thesis
  proof (cases rule: view_cases [where a = a and n = 0 and bs = bs])
    case (miss b1 b1')
    have "board_view S b1 b1'"
      by (rule view_write_result [OF v miss(5,6)])
        (simp_all add: dev mem dev_of_heap [OF miss(1)] dev_of_heap [OF miss(2)] ram_byte_heap [of b1 b] ram_byte_heap [of b1' b'])
    with miss(5,6) show ?thesis by simp
  next
    case (other h b1 b1')
    show ?thesis
    proof (cases "device_write (dev_of b h) (a - devBaseAddr (dev_of b h)) bs")
      case (Inl c)
      then show ?thesis using other(6,7) by simp
    next
      case (Inr x)
      obtain st d where x: "x = (st, d)" by (cases x)
      have r: "bus_write device_ops b a bs = Inr (MEMU_OK, set_dev h d b1)" "bus_write device_ops b' a bs = Inr (MEMU_OK, set_dev h d b1')"
        using other(6,7) Inr x by simp_all
      have h: "h < length (devHeap b1)" "h < length (devHeap b1')" "h \<noteq> h_ram" using other(1-3) len by (auto simp: handles)
      have m: "ram_byte (set_dev h d b1) = ram_byte b" "ram_byte (set_dev h d b1') = ram_byte b'"
        by (rule ram_byte_heap, simp add: dev_of_set_dev h dev_of_heap [OF other(1)] dev_of_heap [OF other(2)] h(3) [symmetric])+
      have "board_view S (set_dev h d b1) (set_dev h d b1')"
        by (rule view_write_result [OF v r])
          (simp_all add: m mem dev dev_of_set_dev h dev_of_heap [OF other(1)] dev_of_heap [OF other(2)])
      with r show ?thesis by simp
    qed
  next
    case (ram b1 b1')
    have w: "board_wf b" "board_wf b'" using v by (simp_all add: board_view_def)
    obtain r where r: "devImpl (dev_of b h_ram) = Ram r" "memorySize r = RAM_SIZE" by (rule board_ram [OF w(1)])
    obtain r' where r': "devImpl (dev_of b' h_ram) = Ram r'" "memorySize r' = RAM_SIZE" by (rule board_ram [OF w(2)])
    have h: "h_ram < length (devHeap b1)" "h_ram < length (devHeap b1')" using ram(1,2) len by (simp_all add: handles)
    show ?thesis
    proof (cases "unat (a - RAM_BASE) + length bs \<le> unat RAM_SIZE")
      case True
      let ?d = "\<lambda>b r. (dev_of b h_ram)\<lparr>devImpl := Ram (r\<lparr>memData := store_bytes (memData r) (a - RAM_BASE) bs\<rparr>)\<rparr>"
      have rd: "bus_write device_ops b a bs = Inr (MEMU_OK, set_dev h_ram (?d b r) b1)"
        "bus_write device_ops b' a bs = Inr (MEMU_OK, set_dev h_ram (?d b' r') b1')"
        using ram(5,6) True r r' by (simp_all add: ram_device)
      have m: "ram_byte (set_dev h_ram (?d b r) b1) = (\<lambda>x. store_bytes (memData r) (a - RAM_BASE) bs (x - RAM_BASE))"
        "ram_byte (set_dev h_ram (?d b' r') b1') = (\<lambda>x. store_bytes (memData r') (a - RAM_BASE) bs (x - RAM_BASE))"
        by (simp_all add: ram_byte_def dev_of_set_dev h fun_eq_iff)
      have eq: "store_bytes (memData r') (a - RAM_BASE) bs (x - RAM_BASE) = store_bytes (memData r) (a - RAM_BASE) bs (x - RAM_BASE)" if "x \<in> S" for x
        using mem [OF that] r(1) r'(1) by (intro store_bytes_agree) (simp add: ram_byte_def)
      have "board_view S (set_dev h_ram (?d b r) b1) (set_dev h_ram (?d b' r') b1')"
        by (rule view_write_result [OF v rd])
          (simp_all add: m dev not_ram dev_of_set_dev h dev_of_heap [OF ram(1)] dev_of_heap [OF ram(2)]
             eq)
      with rd show ?thesis by simp
    next
      case False
      then show ?thesis using ram(5,6) r r' by (simp add: ram_device)
    qed
  qed
qed

lemma board_view_memory:
  assumes "board_view S b b'" "in_ram a (unat n)" "bus_read device_ops b a n = Inr (fb, r, b1)"
  shows "board_view S b1 b'"
proof -
  have w: "board_wf b" using assms(1) by (simp add: board_view_def)
  obtain r0 where r0: "devImpl (dev_of b h_ram) = Ram r0" "memorySize r0 = RAM_SIZE" by (rule board_ram [OF w])
  obtain b2 where b2: "devHeap b2 = devHeap b"
    "bus_read device_ops b a n = bindR (device_read (dev_of b h_ram) (a - RAM_BASE) n) (\<lambda>(_, buf, d). Inr (MEMU_OK, buf, set_dev h_ram d b2))"
    by (rule ram_routes [OF w assms(2)])
  have "b1 = set_dev h_ram (dev_of b h_ram) b2"
    using b2(2) assms(2,3) r0 by (auto simp: ram_device in_ram_def)
  then have "dev_of b1 h = dev_of b h" for h
    using b2(1) board_heaps(1) [OF assms(1)] by (simp add: dev_of_set_dev handles) (simp add: dev_of_def)
  then show ?thesis
    using assms(1) board.bus_read_inv [of b a n fb r b1] assms(3) ram_byte_heap [of b1 b]
    by (simp add: board_view_def)
qed

interpretation board_secrecy: observed_memory bus_table board_wf ram_byte in_ram board_view
proof unfold_locales
  show "board_view S b b' \<Longrightarrow> board_wf b'" for S b b' by (simp add: board_view_def)
  show "board_view S b b' \<Longrightarrow> board_view S b' b" for S b b' by (auto simp: board_view_def)
  show "board_view S b b' \<Longrightarrow> x \<in> S \<Longrightarrow> ram_byte b' x = ram_byte b x" for S b b' x by (rule board_view_ram)
qed (simp_all add: board_view_memory board_view_read board_view_write)

section \<open>Properties\<close>

text \<open>A secret of the machine outside everything the example program can access.\<close>

definition secret_ram :: "u64 \<Rightarrow> u8" where
  "secret_ram = user_ram(0 := 0x99)"

lemma user_observable: "x \<in> observable (ram_words user_board) (user_env user_core) \<Longrightarrow> 0x80001000 \<le> unat x"
proof -
  assume "x \<in> observable (ram_words user_board) (user_env user_core)"
  then consider va where "x = 0xc0000000 + take_bit 30 va" | va i where "i < 8" "x = 0x80001000 + vpn 2 va * 8 + of_nat i"
    by (auto simp: observable_def user_walk user_walk_addrs sv39_paddr_def user_leaf level_bits_def split: if_splits)
  then show ?thesis
  proof cases
    case 1
    have "unat (take_bit 30 va) < 2 ^ 30"
      using take_bit_nat_less_exp [of 30 "unat va"] by (simp add: unsigned_take_bit_eq)
    then show ?thesis by (simp add: 1 unat_word_ariths)
  next
    case 2
    have "unat (0x80001000 + vpn 2 va * 8) = 0x80001000 + unat (vpn 2 va) * 8"
      using vpn_bound [of va] by (simp add: unat_word_ariths)
    then show ?thesis using 2 vpn_bound [of va] by (simp add: unat_offset)
  qed
qed

lemma secret_view: "board_view (observable (ram_words user_board) (user_env user_core)) user_board (board_with secret_ram)"
proof -
  have "ram_byte (board_with secret_ram) x = ram_byte user_board x"
    if x: "x \<in> observable (ram_words user_board) (user_env user_core)" for x
  proof -
    have "x \<noteq> RAM_BASE" using user_observable [OF x] by (auto simp: board_addresses)
    then show ?thesis by (simp add: board_with_byte secret_ram_def)
  qed
  then show ?thesis
    by (auto simp: board_view_def board_with_wf board_with_devs handles)
qed

text \<open>C5: Noninterference on the board: take a core that starts in U-mode with Sv39 on, a coherent TLB
  and protected page tables, and two boards that differ only in RAM bytes outside the page tables
  and the pages mapped accessible to the user. Under the same interrupts, for any number of steps
  up to the next trap, both runs return with equal cores, that is registers, status and trap
  state, and boards that differ only there, or both end with the same failure.\<close>

theorem user_confidentiality:
  assumes "board_wf b" and "nextPrivMode c = U_MODE" and "bget satp_mode (satp c) = 8"
    and "tables_protected in_ram (ram_words b) (user_env c)" and "tlb_ok (ram_words b) (user_env c) (sv39MMU c)"
    and "board_view (observable (ram_words b) (user_env c)) b b'"
  shows "relR (\<lambda>(c1, b1) (c1', b1'). c1' = c1 \<and> board_view (observable (ram_words b) (user_env c)) b1 b1')
    (user_run bus_table irqs (c, b)) (user_run bus_table irqs (c, b'))"
proof -
  have e: "env_priv (user_env c) = U_MODE" "bget satp_mode (env_satp (user_env c)) = 8"
    using assms(3) by (simp_all add: user_env_def)
  have "board_memory.intact (user_env c) b b" using assms(1) by (simp add: board_memory.intact_def)
  then have "board_memory.user_inv (user_env c) b c b"
    using assms(4,5) e by (simp add: board_memory.user_inv_def board_memory.guarded_def)
  then show ?thesis
    using board_secrecy.user_run_pair [of "user_env c" b "(c, b)" b' irqs] assms(6)
    by (auto elim: relR_mono)
qed

text \<open>The first step of the user program is the same whatever the secret.\<close>

theorem user_confidentiality_witness:
  "returnsR (user_run bus_table [intStatus user_core] (user_core, user_board)) (\<lambda>(c1, b1).
     returnsR (user_run bus_table [intStatus user_core] (user_core, board_with secret_ram)) (\<lambda>(c1', b1').
       c1' = c1 \<and> ram_byte b1 0xc0000100 = 0x41))"
proof -
  have "user_core\<lparr>intStatus := intStatus user_core\<rparr> = user_core" by simp
  then have run: "user_run bus_table [intStatus user_core] (user_core, b) = Step_CoreAPI bus_table user_core b" for b
    using user_core_facts(1) by (cases "Step_CoreAPI bus_table user_core b") auto
  obtain c1 b1 where s: "Step_CoreAPI bus_table user_core user_board = Inr (c1, b1)" "ram_byte b1 0xc0000100 = 0x41"
    using user_first_step by (auto simp: returnsR_iff)
  from user_confidentiality [OF board_with_wf user_core_facts(1,2) user_tables user_core_facts(3) secret_view, of "[intStatus user_core]"]
  show ?thesis
    unfolding run using s by (cases "Step_CoreAPI bus_table user_core (board_with secret_ram)") auto
qed

end
