(* ===== verification/RV64_Rvc.thy ===== *)
theory RV64_Rvc
  imports RV64_Exec_C
begin

unbundle bit_operations_syntax

text \<open>
  The expansion of compressed instructions: the ISA manual defines each of them by a 32-bit
  instruction. Here are an assembler for the 32-bit formats, the immediates of the compressed
  formats in the notation of the manual, and the expansion itself.
\<close>

section \<open>Assembling 32-bit instructions\<close>

definition asm_I :: "RV64I_OpCode_enum \<Rightarrow> u32 \<Rightarrow> u32 \<Rightarrow> u32 \<Rightarrow> u64 \<Rightarrow> u32" where
  "asm_I op funct3 rd rs1 imm = bput (20, 12) (ucast (ucast imm :: 12 word))
     (bput f_rs1 rs1 (bput f_funct3 funct3 (bput f_rd rd (bput f_opcode (RV64I_OpCode_val op) 0))))"

definition asm_R :: "RV64I_OpCode_enum \<Rightarrow> u32 \<Rightarrow> u32 \<Rightarrow> u32 \<Rightarrow> u32 \<Rightarrow> u32 \<Rightarrow> u32" where
  "asm_R op funct3 funct7 rd rs1 rs2 = bput f_funct7 funct7 (bput f_rs2 rs2
     (bput f_rs1 rs1 (bput f_funct3 funct3 (bput f_rd rd (bput f_opcode (RV64I_OpCode_val op) 0)))))"

definition asm_S :: "u32 \<Rightarrow> u32 \<Rightarrow> u32 \<Rightarrow> u64 \<Rightarrow> u32" where
  "asm_S funct3 rs1 rs2 imm = (let k = ucast imm :: 12 word in
     bput (25, 7) (ucast (drop_bit 5 k)) (bput (7, 5) (ucast k)
       (bput f_rs2 rs2 (bput f_rs1 rs1 (bput f_funct3 funct3 (bput f_opcode (RV64I_OpCode_val OPCODE_STORE) 0))))))"

definition asm_B :: "u32 \<Rightarrow> u32 \<Rightarrow> u32 \<Rightarrow> u64 \<Rightarrow> u32" where
  "asm_B funct3 rs1 rs2 imm = enc_B (ucast imm)
     (bput f_rs2 rs2 (bput f_rs1 rs1 (bput f_funct3 funct3 (bput f_opcode (RV64I_OpCode_val OPCODE_BRANCH) 0))))"

definition asm_U :: "RV64I_OpCode_enum \<Rightarrow> u32 \<Rightarrow> u64 \<Rightarrow> u32" where
  "asm_U op rd imm = bput (12, 20) (ucast (ucast (drop_bit 12 imm) :: 20 word))
     (bput f_rd rd (bput f_opcode (RV64I_OpCode_val op) 0))"

definition asm_J :: "u32 \<Rightarrow> u64 \<Rightarrow> u32" where
  "asm_J rd imm = enc_J (ucast imm) (bput f_rd rd (bput f_opcode (RV64I_OpCode_val OPCODE_JAL) 0))"

lemmas asm_defs = asm_I_def asm_R_def asm_S_def asm_B_def asm_U_def asm_J_def enc_B_def enc_J_def Let_def

lemma opcode_bound: "take_bit 7 (RV64I_OpCode_val op) = RV64I_OpCode_val op"
  by (cases op) simp_all

lemmas field_rules = field_defs disjoint_fields_def bget_bput_same bget_bput_other opcode_bound

lemma asm_fields:
  "bget f_opcode (asm_I op funct3 rd rs1 imm) = RV64I_OpCode_val op"
  "bget f_funct3 (asm_I op funct3 rd rs1 imm) = take_bit 3 funct3"
  "bget f_rd (asm_I op funct3 rd rs1 imm) = take_bit 5 rd" "bget f_rs1 (asm_I op funct3 rd rs1 imm) = take_bit 5 rs1"
  "bget f_opcode (asm_R op funct3 funct7 rd rs1 rs2) = RV64I_OpCode_val op"
  "bget f_funct3 (asm_R op funct3 funct7 rd rs1 rs2) = take_bit 3 funct3"
  "bget f_funct7 (asm_R op funct3 funct7 rd rs1 rs2) = take_bit 7 funct7"
  "bget f_rd (asm_R op funct3 funct7 rd rs1 rs2) = take_bit 5 rd"
  "bget f_rs1 (asm_R op funct3 funct7 rd rs1 rs2) = take_bit 5 rs1"
  "bget f_rs2 (asm_R op funct3 funct7 rd rs1 rs2) = take_bit 5 rs2"
  "bget f_opcode (asm_S funct3 rs1 rs2 imm) = RV64I_OpCode_val OPCODE_STORE"
  "bget f_funct3 (asm_S funct3 rs1 rs2 imm) = take_bit 3 funct3"
  "bget f_rs1 (asm_S funct3 rs1 rs2 imm) = take_bit 5 rs1" "bget f_rs2 (asm_S funct3 rs1 rs2 imm) = take_bit 5 rs2"
  "bget f_opcode (asm_B funct3 rs1 rs2 imm) = RV64I_OpCode_val OPCODE_BRANCH"
  "bget f_funct3 (asm_B funct3 rs1 rs2 imm) = take_bit 3 funct3"
  "bget f_rs1 (asm_B funct3 rs1 rs2 imm) = take_bit 5 rs1" "bget f_rs2 (asm_B funct3 rs1 rs2 imm) = take_bit 5 rs2"
  "bget f_opcode (asm_U op rd imm) = RV64I_OpCode_val op" "bget f_rd (asm_U op rd imm) = take_bit 5 rd"
  "bget f_opcode (asm_J rd imm) = RV64I_OpCode_val OPCODE_JAL" "bget f_rd (asm_J rd imm) = take_bit 5 rd"
  by (simp_all add: asm_defs field_rules)

text \<open>Immediates that fit their format are read back.\<close>

definition fits :: "nat \<Rightarrow> u64 \<Rightarrow> bool" where
  "fits n imm \<longleftrightarrow> signed_take_bit n imm = imm"

lemma cast_signed:
  "scast (ucast (signed_take_bit 11 w) :: 12 word) = signed_take_bit 11 (w :: u64)"
  "scast (ucast (signed_take_bit 12 w) :: 13 word) = signed_take_bit 12 (w :: u64)"
  "scast (ucast (signed_take_bit 20 w) :: 21 word) = signed_take_bit 20 (w :: u64)"
  by (rule bit_word_eqI, auto simp: bit_simps min_def)+

lemma fits_cast:
  "fits 11 imm \<Longrightarrow> scast (ucast imm :: 12 word) = imm" "fits 12 imm \<Longrightarrow> scast (ucast imm :: 13 word) = imm"
  "fits 20 imm \<Longrightarrow> scast (ucast imm :: 21 word) = imm"
  using cast_signed [of imm] by (simp_all add: fits_def)

lemma even_and: "\<not> bit (w :: u64) 0 \<Longrightarrow> w AND NOT 1 = w"
proof (rule bit_word_eqI)
  fix k assume "\<not> bit w 0" "k < LENGTH(64)"
  then show "bit (w AND NOT 1) k = bit w k" by (cases k) (simp_all add: bit_and_iff bit_not_iff bit_1_iff)
qed

lemma clear_low: "take_bit n (w :: u64) = 0 \<Longrightarrow> bit w k \<Longrightarrow> n \<le> k"
  using bit_take_bit_iff [of n w k] by (cases "n \<le> k") auto

lemma push_drop_12:
  assumes "fits 31 imm" "take_bit 12 imm = 0"
  shows "push_bit 12 (scast (ucast (drop_bit 12 imm) :: 20 word)) = imm"
proof (rule bit_word_eqI)
  fix k assume k: "k < LENGTH(64)"
  have s: "bit imm k = bit (signed_take_bit 31 imm) k" for k using assms(1) by (simp add: fits_def)
  have l: "\<not> bit imm k" if "k < 12" for k using clear_low [OF assms(2)] that by (meson not_le)
  consider "k < 12" | "12 \<le> k" "k < 31" | "31 \<le> k" by linarith
  then show "bit (push_bit 12 (scast (ucast (drop_bit 12 imm) :: 20 word)) :: u64) k = bit imm k"
  proof cases
    case 1
    then show ?thesis by (simp add: l bit_push_bit_iff)
  next
    case 2
    then have "k - 12 < 19" by linarith
    then show ?thesis using 2 k by (simp add: bit_simps min_def)
  next
    case 3
    then have "bit imm k = bit imm 31" using k by (subst s) (simp add: bit_signed_take_bit_iff)
    moreover have "19 \<le> k - 12" "k - 12 < 64" using 3 k by simp_all
    ultimately show ?thesis using 3 k by (simp add: bit_simps min_def)
  qed
qed

lemma asm_imm:
  "fits 11 imm \<Longrightarrow> imm_i (asm_I op funct3 rd rs1 imm) = imm"
  "fits 11 imm \<Longrightarrow> imm_s (asm_S funct3 rs1 rs2 imm) = imm"
  "fits 12 imm \<Longrightarrow> \<not> bit imm 0 \<Longrightarrow> imm_b (asm_B funct3 rs1 rs2 imm) = imm"
  "fits 31 imm \<Longrightarrow> take_bit 12 imm = 0 \<Longrightarrow> imm_u (asm_U op rd imm) = imm"
  "fits 20 imm \<Longrightarrow> \<not> bit imm 0 \<Longrightarrow> imm_j (asm_J rd imm) = imm"
  by (simp_all only: asm_I_def asm_S_def asm_B_def asm_U_def asm_J_def Let_def imm_i_enc imm_s_enc imm_b_enc imm_u_enc imm_j_enc
      fits_cast even_and push_drop_12 not_False_eq_True)

text \<open>The shift instructions: the two upper parts of the immediate field.\<close>

lemma funct7_shift:
  "bget f_funct7 (asm_I op funct3 rd rs1 imm) = take_bit 7 (drop_bit 5 (ucast imm))"
  by (rule bit_word_eqI) (auto simp: asm_I_def f_funct7_def bit_simps bit_bget bit_bput)

section \<open>Immediates of the compressed formats\<close>

text \<open>The manual describes an immediate by the instruction bit that each of its bits comes from.\<close>

definition gather :: "(nat \<times> nat) list \<Rightarrow> u32 \<Rightarrow> 'a::len word" where
  "gather ps inst = foldr (\<lambda>(i, j) imm. push_bit i (of_bool (bit inst j)) OR imm) ps 0"

definition rvc_imm6 :: "(nat \<times> nat) list" where "rvc_imm6 = [(5,12), (4,6), (3,5), (2,4), (1,3), (0,2)]"
definition rvc_imm_lw :: "(nat \<times> nat) list" where "rvc_imm_lw = [(5,12), (4,11), (3,10), (2,6), (6,5)]"
definition rvc_imm_ld :: "(nat \<times> nat) list" where "rvc_imm_ld = [(5,12), (4,11), (3,10), (7,6), (6,5)]"
definition rvc_imm_lwsp :: "(nat \<times> nat) list" where "rvc_imm_lwsp = [(5,12), (4,6), (3,5), (2,4), (7,3), (6,2)]"
definition rvc_imm_ldsp :: "(nat \<times> nat) list" where "rvc_imm_ldsp = [(5,12), (4,6), (3,5), (8,4), (7,3), (6,2)]"
definition rvc_imm_swsp :: "(nat \<times> nat) list" where "rvc_imm_swsp = [(5,12), (4,11), (3,10), (2,9), (7,8), (6,7)]"
definition rvc_imm_sdsp :: "(nat \<times> nat) list" where "rvc_imm_sdsp = [(5,12), (4,11), (3,10), (8,9), (7,8), (6,7)]"
definition rvc_imm_4spn :: "(nat \<times> nat) list" where
  "rvc_imm_4spn = [(5,12), (4,11), (9,10), (8,9), (7,8), (6,7), (2,6), (3,5)]"
definition rvc_imm_16sp :: "(nat \<times> nat) list" where "rvc_imm_16sp = [(9,12), (4,6), (6,5), (8,4), (7,3), (5,2)]"
definition rvc_imm_lui :: "(nat \<times> nat) list" where
  "rvc_imm_lui = [(17,12), (16,6), (15,5), (14,4), (13,3), (12,2)]"
definition rvc_imm_b :: "(nat \<times> nat) list" where
  "rvc_imm_b = [(8,12), (4,11), (3,10), (7,6), (6,5), (2,4), (1,3), (5,2)]"
definition rvc_imm_j :: "(nat \<times> nat) list" where
  "rvc_imm_j = [(11,12), (4,11), (9,10), (8,9), (10,8), (6,7), (7,6), (3,5), (2,4), (1,3), (5,2)]"

lemmas rvc_imm_defs = rvc_imm6_def rvc_imm_lw_def rvc_imm_ld_def rvc_imm_lwsp_def rvc_imm_ldsp_def rvc_imm_swsp_def
  rvc_imm_sdsp_def rvc_imm_4spn_def rvc_imm_16sp_def rvc_imm_lui_def rvc_imm_b_def rvc_imm_j_def

lemma bit_gather:
  "bit (gather ps inst :: 'a::len word) k \<longleftrightarrow> k < LENGTH('a) \<and> (\<exists>j. (k, j) \<in> set ps \<and> bit inst j)"
  by (induction ps) (auto simp: gather_def bit_simps)

lemma ucast_gather:
  assumes "list_all (\<lambda>(i, j). i < 32) ps"
  shows "ucast (gather ps inst :: u32) = (gather ps inst :: u64)"
  by (rule bit_word_eqI) (use assms in \<open>auto simp: bit_gather bit_ucast_iff list_all_iff\<close>)

lemma bit_concat: "bit (binary_concat v r l s) k \<longleftrightarrow> k < 32 \<and> s \<le> k \<and> k - s \<le> r - l \<and> bit v (l + (k - s))"
  by (auto simp: binary_concat_def bit_simps less_Suc_eq_le add.commute dest: bit_imp_le_length)

lemma sext_from_signed:
  assumes "\<And>k. n < k \<Longrightarrow> \<not> bit imm k" "ext = NOT (mask (Suc n))" "n < 63"
  shows "sext_from n ext imm = signed_take_bit n imm"
proof -
  have b: "bit (signed_drop_bit n imm) k \<longleftrightarrow> k = 0 \<and> bit imm n" if "k < LENGTH(64)" for k
  proof (cases k)
    case 0
    then show ?thesis using assms(3) by (simp add: bit_signed_drop_bit_iff)
  next
    case (Suc j)
    then show ?thesis
      using that assms(1) [of "n + k"] assms(1) [of 63] assms(3) by (simp add: bit_signed_drop_bit_iff)
  qed
  have z: "signed_drop_bit n imm = 0 \<longleftrightarrow> \<not> bit imm n"
  proof
    assume "signed_drop_bit n imm = 0" then show "\<not> bit imm n" using b [of 0] by simp
  next
    assume "\<not> bit imm n" then show "signed_drop_bit n imm = 0" by (intro bit_word_eqI) (simp add: b)
  qed
  have "bit (if bit imm n then imm OR ext else imm) k = bit (signed_take_bit n imm) k" if "k < LENGTH(64)" for k
  proof (cases "n < k")
    case True
    then show ?thesis using assms(1) [of k] assms(2) that by (simp add: bit_simps)
  next
    case False
    then show ?thesis using assms(2) that by (cases "k = n") (simp_all add: bit_simps)
  qed
  then show ?thesis unfolding sext_from_def z by (intro bit_word_eqI) (simp del: if_split add: if_distrib)
qed

lemma concat_gather:
  "binary_concat inst 12 12 5 OR binary_concat inst 6 2 0 = gather rvc_imm6 inst"
  "binary_concat inst 6 6 2 OR binary_concat inst 5 5 6 OR binary_concat inst 12 10 3 = gather rvc_imm_lw inst"
  "binary_concat inst 6 5 6 OR binary_concat inst 12 10 3 = gather rvc_imm_ld inst"
  "binary_concat inst 6 4 2 OR binary_concat inst 3 2 6 OR binary_concat inst 12 12 5 = gather rvc_imm_lwsp inst"
  "binary_concat inst 6 5 3 OR binary_concat inst 4 2 6 OR binary_concat inst 12 12 5 = gather rvc_imm_ldsp inst"
  "binary_concat inst 12 9 2 OR binary_concat inst 8 7 6 = gather rvc_imm_swsp inst"
  "binary_concat inst 12 10 3 OR binary_concat inst 9 7 6 = gather rvc_imm_sdsp inst"
  "binary_concat inst 12 11 4 OR binary_concat inst 10 7 6 OR binary_concat inst 6 6 2 OR binary_concat inst 5 5 3 =
     gather rvc_imm_4spn inst"
  "binary_concat inst 12 12 9 OR binary_concat inst 6 6 4 OR binary_concat inst 5 5 6 OR binary_concat inst 4 3 7 OR
     binary_concat inst 2 2 5 = gather rvc_imm_16sp inst"
  "binary_concat inst 12 12 17 OR binary_concat inst 6 2 12 = gather rvc_imm_lui inst"
  "binary_concat inst 12 12 8 OR binary_concat inst 11 10 3 OR binary_concat inst 6 5 6 OR
     binary_concat inst 4 3 1 OR binary_concat inst 2 2 5 = gather rvc_imm_b inst"
  "binary_concat inst 12 12 11 OR binary_concat inst 11 11 4 OR binary_concat inst 10 9 8 OR
     binary_concat inst 8 8 10 OR binary_concat inst 7 7 6 OR binary_concat inst 6 6 7 OR
     binary_concat inst 5 3 1 OR binary_concat inst 2 2 5 = gather rvc_imm_j inst"
  by (rule u32_eq_bits, simp add: bit_or_iff bit_concat bit_gather rvc_imm_defs)+

lemma gather_high: "list_all (\<lambda>(i, j). i \<le> n) ps \<Longrightarrow> n < k \<Longrightarrow> \<not> bit (gather ps inst :: u64) k"
  by (auto simp: bit_gather list_all_iff)

lemma fits_gather: "list_all (\<lambda>(i, j). i < n) ps \<Longrightarrow> n < 63 \<Longrightarrow> fits n (gather ps inst)"
  unfolding fits_def by (rule bit_word_eqI) (auto simp: bit_gather bit_signed_take_bit_iff list_all_iff min_def)

lemma fits_signed: "m \<le> n \<Longrightarrow> fits n (signed_take_bit m w)"
  by (simp add: fits_def signed_take_bit_signed_take_bit)

lemma sext_gather:
  "list_all (\<lambda>(i, j). i \<le> n) ps \<Longrightarrow> ext = NOT (mask (Suc n)) \<Longrightarrow> n < 63 \<Longrightarrow>
   sext_from n ext (gather ps inst) = signed_take_bit n (gather ps inst)"
  by (rule sext_from_signed) (auto dest: gather_high)

lemma ext_masks:
  "(0xffffffffffffffc0 :: u64) = NOT (mask (Suc 5))" "(0xfffffffffffffe00 :: u64) = NOT (mask (Suc 8))"
  "(0xfffffffffffffc00 :: u64) = NOT (mask (Suc 9))" "(0xfffffffffffff000 :: u64) = NOT (mask (Suc 11))"
  "(0xfffffffffffc0000 :: u64) = NOT (mask (Suc 17))"
  by (simp_all add: mask_eq_exp_minus_1)

lemma ucast_imms:
  "ucast (gather rvc_imm6 inst :: u32) = (gather rvc_imm6 inst :: u64)"
  "ucast (gather rvc_imm_lw inst :: u32) = (gather rvc_imm_lw inst :: u64)"
  "ucast (gather rvc_imm_ld inst :: u32) = (gather rvc_imm_ld inst :: u64)"
  "ucast (gather rvc_imm_lwsp inst :: u32) = (gather rvc_imm_lwsp inst :: u64)"
  "ucast (gather rvc_imm_ldsp inst :: u32) = (gather rvc_imm_ldsp inst :: u64)"
  "ucast (gather rvc_imm_swsp inst :: u32) = (gather rvc_imm_swsp inst :: u64)"
  "ucast (gather rvc_imm_sdsp inst :: u32) = (gather rvc_imm_sdsp inst :: u64)"
  "ucast (gather rvc_imm_4spn inst :: u32) = (gather rvc_imm_4spn inst :: u64)"
  "ucast (gather rvc_imm_16sp inst :: u32) = (gather rvc_imm_16sp inst :: u64)"
  "ucast (gather rvc_imm_lui inst :: u32) = (gather rvc_imm_lui inst :: u64)"
  "ucast (gather rvc_imm_b inst :: u32) = (gather rvc_imm_b inst :: u64)"
  "ucast (gather rvc_imm_j inst :: u32) = (gather rvc_imm_j inst :: u64)"
  by (rule ucast_gather, simp add: rvc_imm_defs)+

lemma sext_imms:
  "sext_from 5 0xffffffffffffffc0 (gather rvc_imm6 inst) = signed_take_bit 5 (gather rvc_imm6 inst)"
  "sext_from 8 0xfffffffffffffe00 (gather rvc_imm_b inst) = signed_take_bit 8 (gather rvc_imm_b inst)"
  "sext_from 9 0xfffffffffffffc00 (gather rvc_imm_16sp inst) = signed_take_bit 9 (gather rvc_imm_16sp inst)"
  "sext_from 11 0xfffffffffffff000 (gather rvc_imm_j inst) = signed_take_bit 11 (gather rvc_imm_j inst)"
  "sext_from 17 0xfffffffffffc0000 (gather rvc_imm_lui inst) = signed_take_bit 17 (gather rvc_imm_lui inst)"
  by (rule sext_gather [OF _ ext_masks(1)] sext_gather [OF _ ext_masks(2)] sext_gather [OF _ ext_masks(3)]
      sext_gather [OF _ ext_masks(4)] sext_gather [OF _ ext_masks(5)], simp add: rvc_imm_defs, simp)+

lemma c_imm_eqs:
  "c_imm6 inst = gather rvc_imm6 inst" "c_simm6 inst = signed_take_bit 5 (gather rvc_imm6 inst)"
  "c_imm_lw inst = gather rvc_imm_lw inst" "c_imm_ld inst = gather rvc_imm_ld inst"
  "c_imm_b inst = signed_take_bit 8 (gather rvc_imm_b inst)"
  "c_imm_j inst = signed_take_bit 11 (gather rvc_imm_j inst)"
  by (simp_all only: c_simm6_def c_imm6_def c_imm_lw_def c_imm_ld_def c_imm_b_def c_imm_j_def
      concat_gather ucast_imms sext_imms)

lemmas c_imms = c_imm_eqs concat_gather ucast_imms sext_imms

section \<open>The expansion\<close>

definition rvc_rd :: "u32 \<Rightarrow> u32" where "rvc_rd inst = bget (7, 5) inst"
definition rvc_rs2 :: "u32 \<Rightarrow> u32" where "rvc_rs2 inst = bget (2, 5) inst"
definition rvc_rs1_short :: "u32 \<Rightarrow> u32" where "rvc_rs1_short inst = 8 + bget (7, 3) inst"
definition rvc_rs2_short :: "u32 \<Rightarrow> u32" where "rvc_rs2_short inst = 8 + bget (2, 3) inst"

definition expand_q0 :: "u32 \<Rightarrow> u32 option" where
  "expand_q0 inst =
     (let funct3 = bget (13, 3) inst; rd = rvc_rs2_short inst; rs1 = rvc_rs1_short inst in
      if funct3 = 0 then
        (if gather rvc_imm_4spn inst = (0 :: u64) then None
         else Some (asm_I OPCODE_OPIMM 0 rd 2 (gather rvc_imm_4spn inst)))
      else if funct3 = 2 then Some (asm_I OPCODE_LOAD 2 rd rs1 (gather rvc_imm_lw inst))
      else if funct3 = 3 then Some (asm_I OPCODE_LOAD 3 rd rs1 (gather rvc_imm_ld inst))
      else if funct3 = 6 then Some (asm_S 2 rs1 rd (gather rvc_imm_lw inst))
      else if funct3 = 7 then Some (asm_S 3 rs1 rd (gather rvc_imm_ld inst))
      else None)"

definition expand_alu :: "u32 \<Rightarrow> u32 option" where
  "expand_alu inst =
     (let rd = rvc_rs1_short inst; rs2 = rvc_rs2_short inst; funct2 = bget (10, 2) inst;
          code = (bget (12, 1) inst, bget (5, 2) inst); shamt = gather rvc_imm6 inst in
      if funct2 = 0 then Some (asm_I OPCODE_OPIMM 5 rd rd shamt)
      else if funct2 = 1 then Some (asm_I OPCODE_OPIMM 5 rd rd (shamt OR 0x400))
      else if funct2 = 2 then Some (asm_I OPCODE_OPIMM 7 rd rd (signed_take_bit 5 (gather rvc_imm6 inst)))
      else map_of
        [((0, 0), asm_R OPCODE_OP 0 0x20 rd rd rs2), ((0, 1), asm_R OPCODE_OP 4 0 rd rd rs2),
         ((0, 2), asm_R OPCODE_OP 6 0 rd rd rs2), ((0, 3), asm_R OPCODE_OP 7 0 rd rd rs2),
         ((1, 0), asm_R OPCODE_OP32 0 0x20 rd rd rs2), ((1, 1), asm_R OPCODE_OP32 0 0 rd rd rs2)] code)"

definition expand_q1 :: "u32 \<Rightarrow> u32 option" where
  "expand_q1 inst =
     (let funct3 = bget (13, 3) inst; rd = rvc_rd inst; rs1 = rvc_rs1_short inst;
          imm6 = signed_take_bit 5 (gather rvc_imm6 inst);
          sp_imm = signed_take_bit 9 (gather rvc_imm_16sp inst);
          lui_imm = signed_take_bit 17 (gather rvc_imm_lui inst) in
      if funct3 = 0 then Some (asm_I OPCODE_OPIMM 0 rd rd imm6)
      else if funct3 = 1 then Some (asm_I OPCODE_OPIMM32 0 rd rd imm6)
      else if funct3 = 2 then Some (asm_I OPCODE_OPIMM 0 rd 0 imm6)
      else if funct3 = 3 then
        (if rd = 2 then (if sp_imm = 0 then None else Some (asm_I OPCODE_OPIMM 0 2 2 sp_imm))
         else if lui_imm = 0 then None else Some (asm_U OPCODE_LUI rd lui_imm))
      else if funct3 = 4 then expand_alu inst
      else if funct3 = 5 then Some (asm_J 0 (signed_take_bit 11 (gather rvc_imm_j inst)))
      else if funct3 = 6 then Some (asm_B 0 rs1 0 (signed_take_bit 8 (gather rvc_imm_b inst)))
      else Some (asm_B 1 rs1 0 (signed_take_bit 8 (gather rvc_imm_b inst))))"

text \<open>\<open>c.jalr\<close> has no expansion: it links to the instruction after it, two bytes further.\<close>

definition expand_q2 :: "u32 \<Rightarrow> u32 option" where
  "expand_q2 inst =
     (let funct3 = bget (13, 3) inst; rd = rvc_rd inst; rs2 = rvc_rs2 inst in
      if funct3 = 0 then Some (asm_I OPCODE_OPIMM 1 rd rd (gather rvc_imm6 inst))
      else if funct3 = 2 then Some (asm_I OPCODE_LOAD 2 rd 2 (gather rvc_imm_lwsp inst))
      else if funct3 = 3 then Some (asm_I OPCODE_LOAD 3 rd 2 (gather rvc_imm_ldsp inst))
      else if funct3 = 4 then
        (if bget (12, 1) inst = 0 then
           (if rs2 \<noteq> 0 then Some (asm_R OPCODE_OP 0 0 rd 0 rs2)
            else if rd \<noteq> 0 then Some (asm_I OPCODE_JALR 0 0 rd 0) else None)
         else
           (if rs2 \<noteq> 0 then Some (asm_R OPCODE_OP 0 0 rd rd rs2)
            else if rd = 0 then Some (asm_I OPCODE_SYSTEM 0 0 0 1) else None))
      else if funct3 = 6 then Some (asm_S 2 2 rs2 (gather rvc_imm_swsp inst))
      else if funct3 = 7 then Some (asm_S 3 2 rs2 (gather rvc_imm_sdsp inst))
      else None)"

definition rvc_expand :: "u32 \<Rightarrow> u32 option" where
  "rvc_expand inst =
     (if bget (0, 2) inst = 0 then expand_q0 inst else if bget (0, 2) inst = 1 then expand_q1 inst
      else if bget (0, 2) inst = 2 then expand_q2 inst else None)"

end
