(* ===== verification/RV64_Expand.thy ===== *)
theory RV64_Expand
  imports RV64_Rvc
begin

unbundle bit_operations_syntax

text \<open>
  Executing a compressed instruction (\<open>RV64_Exec_C\<close>) is executing its expansion (\<open>RV64_Exec\<close>): two
  independent parts of the instruction switch of \<open>modules/core/rv64/src/rv64_exec.cpp\<close> agree.
\<close>

section \<open>Registers\<close>

lemma short_bound: "unat (bget (s, 3) (w :: u32)) < 8"
  using take_bit_nat_less_exp [of 3 "unat (drop_bit s w)"] by (simp add: bget_def unsigned_take_bit_eq)

lemma short_val: "unat (8 + bget (s, 3) (w :: u32)) = 8 + unat (bget (s, 3) w)"
  using unat_add_lem [of 8 "bget (s, 3) w"] short_bound [of s w] by simp

lemma take_bit_5: "unat (v :: u32) < 32 \<Longrightarrow> take_bit 5 v = v"
  by (rule word_unat_eq_iff [THEN iffD2]) (simp add: unsigned_take_bit_eq take_bit_nat_eq_self)

lemma long_bound: "unat (bget (s, 5) (w :: u32)) < 32"
  using take_bit_nat_less_exp [of 5 "unat (drop_bit s w)"] by (simp add: bget_def unsigned_take_bit_eq)

lemma rvc_bounds [simp]:
  "unat (rvc_rd inst) < 32" "unat (rvc_rs2 inst) < 32" "unat (rvc_rs1_short inst) < 32" "unat (rvc_rs2_short inst) < 32"
  using short_bound [of 7 inst] short_bound [of 2 inst]
  by (simp_all add: rvc_rd_def rvc_rs2_def long_bound rvc_rs1_short_def rvc_rs2_short_def short_val)

lemma rvc_take_bit [simp]:
  "take_bit 5 (rvc_rd inst) = rvc_rd inst" "take_bit 5 (rvc_rs2 inst) = rvc_rs2 inst"
  "take_bit 5 (rvc_rs1_short inst) = rvc_rs1_short inst" "take_bit 5 (rvc_rs2_short inst) = rvc_rs2_short inst"
  by (simp_all add: take_bit_5)

lemma rvc_regs:
  "rreg inst 11 7 = unat (rvc_rd inst)" "rreg inst 6 2 = unat (rvc_rs2 inst)"
  "creg inst 9 7 = unat (rvc_rs1_short inst)" "creg inst 4 2 = unat (rvc_rs2_short inst)"
  unfolding rvc_rd_def rvc_rs2_def rvc_rs1_short_def rvc_rs2_short_def short_val
  by (simp_all add: rreg_def creg_def binary_concat_def bget_def take_bit_eq_mask)

lemma asm_regs:
  "reg f_rd (asm_I op funct3 rd rs1 imm) = unat (take_bit 5 rd)" "reg f_rs1 (asm_I op funct3 rd rs1 imm) = unat (take_bit 5 rs1)"
  "reg f_rd (asm_R op funct3 funct7 rd rs1 rs2) = unat (take_bit 5 rd)"
  "reg f_rs1 (asm_R op funct3 funct7 rd rs1 rs2) = unat (take_bit 5 rs1)"
  "reg f_rs2 (asm_R op funct3 funct7 rd rs1 rs2) = unat (take_bit 5 rs2)"
  "reg f_rs1 (asm_S funct3 rs1 rs2 imm) = unat (take_bit 5 rs1)" "reg f_rs2 (asm_S funct3 rs1 rs2 imm) = unat (take_bit 5 rs2)"
  "reg f_rs1 (asm_B funct3 rs1 rs2 imm) = unat (take_bit 5 rs1)" "reg f_rs2 (asm_B funct3 rs1 rs2 imm) = unat (take_bit 5 rs2)"
  "reg f_rd (asm_U op rd imm) = unat (take_bit 5 rd)" "reg f_rd (asm_J rd imm) = unat (take_bit 5 rd)"
  by (simp_all add: reg_def asm_fields)

lemma set_rd_same: "core_wf (xc x) \<Longrightarrow> i < 32 \<Longrightarrow> set_rd i (xgpr x i) x = Inr x"
  by (simp add: set_rd_def setGPR_def gpr_def)

lemma set_rd_0: "set_rd 0 v x = Inr x"
  by (simp add: set_rd_def setGPR_def)

lemma gpr_0: "core_wf (xc x) \<Longrightarrow> xgpr x 0 = 0"
  by (simp add: core_wf_def gpr_def)

lemma add_to: "alu_to rd a b ALU_ADD False x = set_rd rd (a + b) x"
  by (simp add: alu_to_def alu_exec_def)

section \<open>Executing assembled instructions\<close>

lemma exec_imm:
  "fits 11 imm \<Longrightarrow> exec_32 bus (asm_I OPCODE_OPIMM 0 rd rs1 imm) x =
     alu_to (unat (take_bit 5 rd)) (xgpr x (unat (take_bit 5 rs1))) imm ALU_ADD False x"
  "fits 11 imm \<Longrightarrow> exec_32 bus (asm_I OPCODE_OPIMM 7 rd rs1 imm) x =
     alu_to (unat (take_bit 5 rd)) (xgpr x (unat (take_bit 5 rs1))) imm ALU_AND False x"
  "fits 11 imm \<Longrightarrow> exec_32 bus (asm_I OPCODE_OPIMM32 0 rd rs1 imm) x =
     alu_to (unat (take_bit 5 rd)) (xgpr x (unat (take_bit 5 rs1))) imm ALU_ADD True x"
  by (simp_all add: exec_32_def asm_fields asm_imm asm_regs exec_OPIMM_def exec_OPIMM32_def opimm_decode_def opimm32_decode_def Let_def)

lemma exec_load:
  "fits 11 imm \<Longrightarrow> exec_32 bus (asm_I OPCODE_LOAD 2 rd rs1 imm) x =
     load_to bus (xgpr x (unat (take_bit 5 rs1)) + imm) 4 conv_s32 (unat (take_bit 5 rd)) x"
  "fits 11 imm \<Longrightarrow> exec_32 bus (asm_I OPCODE_LOAD 3 rd rs1 imm) x =
     load_to bus (xgpr x (unat (take_bit 5 rs1)) + imm) 8 conv_64 (unat (take_bit 5 rd)) x"
  by (simp_all add: exec_32_def asm_fields asm_imm asm_regs exec_LOAD_def Let_def)

lemma exec_store:
  "fits 11 imm \<Longrightarrow> exec_32 bus (asm_S 2 rs1 rs2 imm) x =
     memWrite bus (xgpr x (unat (take_bit 5 rs1)) + imm) (to_bytes 4 (xgpr x (unat (take_bit 5 rs2)))) x"
  "fits 11 imm \<Longrightarrow> exec_32 bus (asm_S 3 rs1 rs2 imm) x =
     memWrite bus (xgpr x (unat (take_bit 5 rs1)) + imm) (to_bytes 8 (xgpr x (unat (take_bit 5 rs2)))) x"
  by (simp_all add: exec_32_def asm_fields asm_imm asm_regs exec_STORE_def Let_def)

lemma exec_reg:
  assumes "alu = (\<lambda>op. alu_to (unat (take_bit 5 rd)) (xgpr x (unat (take_bit 5 rs1))) (xgpr x (unat (take_bit 5 rs2))) op)"
  shows
  "exec_32 bus (asm_R OPCODE_OP 0 0 rd rs1 rs2) x = alu ALU_ADD False x"
  "exec_32 bus (asm_R OPCODE_OP 0 0x20 rd rs1 rs2) x = alu ALU_SUB False x"
  "exec_32 bus (asm_R OPCODE_OP 4 0 rd rs1 rs2) x = alu ALU_XOR False x"
  "exec_32 bus (asm_R OPCODE_OP 6 0 rd rs1 rs2) x = alu ALU_OR False x"
  "exec_32 bus (asm_R OPCODE_OP 7 0 rd rs1 rs2) x = alu ALU_AND False x"
  "exec_32 bus (asm_R OPCODE_OP32 0 0 rd rs1 rs2) x = alu ALU_ADD True x"
  "exec_32 bus (asm_R OPCODE_OP32 0 0x20 rd rs1 rs2) x = alu ALU_SUB True x"
  using assms by (simp_all add: exec_32_def asm_fields asm_regs exec_OP_def exec_OP32_def op_decode_def op32_decode_def)

lemma shamt_bits: "take_bit 6 (gather rvc_imm6 inst :: u64) = gather rvc_imm6 inst"
  by (rule bit_word_eqI) (auto simp: bit_simps bit_gather rvc_imm_defs)

lemma bit_literals:
  "bit (0x400 :: int) k \<longleftrightarrow> k = 10" "bit (0x3f :: int) k \<longleftrightarrow> k < 6" "bit (0x20 :: int) k \<longleftrightarrow> k = 5"
  "bit (0x10 :: int) k \<longleftrightarrow> k = 4"
  using bit_exp_iff [of 10 k, where 'a = int] bit_mask_iff [of 6 k, where 'a = int] bit_exp_iff [of 5 k, where 'a = int]
    bit_exp_iff [of 4 k, where 'a = int]
  by (simp_all add: mask_eq_exp_minus_1)

lemma shamt_facts:
  assumes "take_bit 6 shamt = (shamt :: u64)"
  shows "fits 11 shamt" "fits 11 (shamt OR 0x400)" "shamt AND 0x3f = shamt" "(shamt OR 0x400) AND 0x3f = shamt" "sint shamt < 64"
proof -
  have b: "bit shamt k \<Longrightarrow> k < 6" for k using assms by (metis bit_take_bit_iff)
  show "fits 11 shamt" "fits 11 (shamt OR 0x400)"
    unfolding fits_def by (rule bit_word_eqI, auto simp: bit_simps min_def bit_literals dest: b)+
  show "shamt AND 0x3f = shamt" "(shamt OR 0x400) AND 0x3f = shamt"
    by (rule bit_word_eqI, auto simp: bit_simps bit_literals dest: b)+
  have "uint shamt = take_bit 6 (uint shamt)" using assms by (metis unsigned_take_bit_eq)
  then have "uint shamt < 64" using take_bit_int_less_exp [of 6 "uint shamt"] by simp
  moreover have "- (2 ^ 63) \<le> uint shamt" by (rule order_trans [OF _ uint_ge_0]) simp
  ultimately have "signed_take_bit 63 (uint shamt) = uint shamt" by (simp add: signed_take_bit_int_eq_self)
  with \<open>uint shamt < 64\<close> show "sint shamt < 64" by (simp add: sint_uint)
qed

lemma exec_shift:
  assumes "take_bit 6 shamt = (shamt :: u64)"
  shows "exec_32 bus (asm_I OPCODE_OPIMM 1 rd rs1 shamt) x =
      alu_to (unat (take_bit 5 rd)) (xgpr x (unat (take_bit 5 rs1))) shamt ALU_SLL False x"
    "exec_32 bus (asm_I OPCODE_OPIMM 5 rd rs1 shamt) x =
      alu_to (unat (take_bit 5 rd)) (xgpr x (unat (take_bit 5 rs1))) shamt ALU_SRL False x"
    "exec_32 bus (asm_I OPCODE_OPIMM 5 rd rs1 (shamt OR 0x400)) x =
      alu_to (unat (take_bit 5 rd)) (xgpr x (unat (take_bit 5 rs1))) shamt ALU_SRA False x"
proof -
  have b: "bit shamt k \<Longrightarrow> k < 6" for k using assms by (metis bit_take_bit_iff)
  have d: "drop_bit (Suc 0) (take_bit 7 (drop_bit 5 (ucast shamt :: u32))) = 0"
    "drop_bit (Suc 0) (take_bit 7 (drop_bit 5 (ucast (shamt OR 0x400) :: u32))) = 0x10"
    by (rule bit_word_eqI, auto simp: bit_simps bit_literals dest: b)+
  show "exec_32 bus (asm_I OPCODE_OPIMM 1 rd rs1 shamt) x =
      alu_to (unat (take_bit 5 rd)) (xgpr x (unat (take_bit 5 rs1))) shamt ALU_SLL False x"
    "exec_32 bus (asm_I OPCODE_OPIMM 5 rd rs1 shamt) x =
      alu_to (unat (take_bit 5 rd)) (xgpr x (unat (take_bit 5 rs1))) shamt ALU_SRL False x"
    "exec_32 bus (asm_I OPCODE_OPIMM 5 rd rs1 (shamt OR 0x400)) x =
      alu_to (unat (take_bit 5 rd)) (xgpr x (unat (take_bit 5 rs1))) shamt ALU_SRA False x"
    using shamt_facts [OF assms]
    by (simp_all add: exec_32_def asm_fields asm_imm asm_regs exec_OPIMM_def opimm_decode_def Let_def funct7_shift d)
qed

lemma exec_shift32:
  assumes "take_bit 5 shamt = (shamt :: u64)"
  shows "exec_32 bus (asm_I OPCODE_OPIMM32 1 rd rs1 shamt) x =
      alu_to (unat (take_bit 5 rd)) (xgpr x (unat (take_bit 5 rs1))) shamt ALU_SLL True x"
    "exec_32 bus (asm_I OPCODE_OPIMM32 5 rd rs1 shamt) x =
      alu_to (unat (take_bit 5 rd)) (xgpr x (unat (take_bit 5 rs1))) shamt ALU_SRL True x"
    "exec_32 bus (asm_I OPCODE_OPIMM32 5 rd rs1 (shamt OR 0x400)) x =
      alu_to (unat (take_bit 5 rd)) (xgpr x (unat (take_bit 5 rs1))) shamt ALU_SRA True x"
proof -
  have b: "bit shamt k \<Longrightarrow> k < 5" for k using assms by (metis bit_take_bit_iff)
  have d: "take_bit 7 (drop_bit 5 (ucast shamt :: u32)) = 0" "take_bit 7 (drop_bit 5 (ucast (shamt OR 0x400) :: u32)) = 0x20"
    by (rule bit_word_eqI, auto simp: bit_simps bit_literals dest: b)+
  have "take_bit 6 shamt = shamt" by (rule bit_word_eqI) (auto simp: bit_simps dest: b)
  then show "exec_32 bus (asm_I OPCODE_OPIMM32 1 rd rs1 shamt) x =
      alu_to (unat (take_bit 5 rd)) (xgpr x (unat (take_bit 5 rs1))) shamt ALU_SLL True x"
    "exec_32 bus (asm_I OPCODE_OPIMM32 5 rd rs1 shamt) x =
      alu_to (unat (take_bit 5 rd)) (xgpr x (unat (take_bit 5 rs1))) shamt ALU_SRL True x"
    "exec_32 bus (asm_I OPCODE_OPIMM32 5 rd rs1 (shamt OR 0x400)) x =
      alu_to (unat (take_bit 5 rd)) (xgpr x (unat (take_bit 5 rs1))) shamt ALU_SRA True x"
    using shamt_facts [of shamt]
    by (simp_all add: exec_32_def asm_fields asm_imm asm_regs exec_OPIMM32_def opimm32_decode_def Let_def funct7_shift d)
qed

lemma even_target: "\<not> bit (a :: u64) 0 \<Longrightarrow> \<not> bit b 0 \<Longrightarrow> (a + b) mod PC_ALIGN = 0"
  by (simp add: PC_ALIGN_def bit_0 mod_2_eq_odd even_add)

lemma exec_jal:
  assumes "fits 20 imm" "\<not> bit imm 0" "\<not> bit (xpc x) 0"
  shows "exec_32 bus (asm_J 0 imm) x = Inr (set_pc (xpc x + imm) x)"
  using assms by (simp add: exec_32_def asm_fields asm_imm asm_regs exec_JAL_def Let_def even_target set_rd_0)

lemma exec_branch:
  assumes "fits 12 imm" "\<not> bit imm 0" "\<not> bit (xpc x) 0" "core_wf (xc x)"
  shows "exec_32 bus (asm_B 0 rs1 0 imm) x = (if xgpr x (unat (take_bit 5 rs1)) = 0 then Inr (set_pc (xpc x + imm) x) else Inr x)"
    "exec_32 bus (asm_B 1 rs1 0 imm) x = (if xgpr x (unat (take_bit 5 rs1)) \<noteq> 0 then Inr (set_pc (xpc x + imm) x) else Inr x)"
  using assms
  by (simp_all add: exec_32_def asm_fields asm_imm asm_regs exec_BRANCH_def branch_cond_def Let_def even_target gpr_0 set_pc_def)

lemma exec_lui:
  "fits 31 imm \<Longrightarrow> take_bit 12 imm = 0 \<Longrightarrow> exec_32 bus (asm_U OPCODE_LUI rd imm) x = set_rd (unat (take_bit 5 rd)) imm x"
  by (simp add: exec_32_def asm_fields asm_imm asm_regs exec_LUI_def)

lemma exec_jr:
  "\<not> bit (xgpr x (unat (take_bit 5 rs1))) 0 \<Longrightarrow>
   exec_32 bus (asm_I OPCODE_JALR 0 0 rs1 0) x = c_jump False (xgpr x (unat (take_bit 5 rs1))) x"
  using asm_imm(1) [of 0 OPCODE_JALR 0 0 rs1]
  by (simp add: exec_32_def asm_fields asm_regs exec_JALR_def c_jump_def Let_def fits_def set_rd_0 even_target [of _ 0, simplified]
      bit_0 and_one_eq mod_2_eq_odd)

lemma exec_ebreak:
  "exec_32 bus (asm_I OPCODE_SYSTEM 0 0 0 1) x = bindR (ebreak (xc x)) (\<lambda>c. Inr (x\<lparr>xc := c\<rparr>))"
  using asm_imm(1) [of 1 OPCODE_SYSTEM 0 0 0]
  by (simp add: exec_32_def asm_fields asm_regs exec_SYSTEM_def exec_PRIV_def Let_def fits_def signed_take_bit_Suc)

section \<open>The compressed instructions against their expansions\<close>

lemma opcode_parts: "rvc_opcode inst = push_bit 3 (bget (0, 2) inst) OR bget (13, 3) inst"
proof -
  have "(3 :: u32) = mask 2" "(7 :: u32) = mask 3" by (simp_all add: mask_eq_exp_minus_1)
  then show ?thesis by (simp only: rvc_opcode_def bget_def take_bit_eq_mask fst_conv snd_conv drop_bit_0 id_apply)
qed

lemma code_parts:
  "binary_concat inst 11 11 0 = bget (11, 1) inst" "binary_concat inst 10 10 0 = bget (10, 1) inst"
  "binary_concat inst 12 12 0 = bget (12, 1) inst" "binary_concat inst 6 5 0 = bget (5, 2) inst"
  by (simp_all add: binary_concat_def bget_def take_bit_eq_mask numeral_2_eq_2)

lemma shift_0: "core_wf (xc x) \<Longrightarrow> i < 32 \<Longrightarrow> op \<in> {ALU_SLL, ALU_SRL, ALU_SRA} \<Longrightarrow> alu_to i (xgpr x i) 0 op False x = Inr x"
  by (auto simp: alu_to_def alu_exec_def Let_def set_rd_same)

lemma one_bit: "bget (s, Suc 0) (w :: u32) = of_bool (bit w s)"
  by (rule bit_word_eqI) (auto simp: bit_bget bit_simps)

lemma two_bits: "bget (s, 2) (w :: u32) = of_bool (bit w s) + 2 * of_bool (bit w (Suc s))"
proof -
  have "take_bit 2 v = of_bool (bit v 0) + 2 * of_bool (bit v 1)" for v :: u32
    by (simp add: numeral_2_eq_2 take_bit_Suc bit_0 bit_Suc mod_2_eq_odd)
  then show ?thesis by (simp add: bget_def bit_drop_bit_eq)
qed

lemma three_bits: "bget (s, 3) (w :: u32) \<in> set [0, 1, 2, 3, 4, 5, 6, 7]"
proof -
  have "unat (bget (s, 3) w) \<in> {..<8}" by (simp add: short_bound)
  then have "word_of_nat (unat (bget (s, 3) w)) \<in> (word_of_nat :: nat \<Rightarrow> u32) ` {..<8}" by (rule imageI)
  then show ?thesis by (auto simp: lessThan_nat_numeral lessThan_Suc)
qed

text \<open>The guards for the immediate zero make no difference.\<close>

lemma exec_C_SLLI_any:
  "core_wf (xc x) \<Longrightarrow> exec_C_SLLI inst x =
     alu_to (unat (rvc_rd inst)) (xgpr x (unat (rvc_rd inst))) (gather rvc_imm6 inst) ALU_SLL False x"
  by (simp add: exec_C_SLLI_def Let_def c_imms rvc_regs shift_0)

lemma exec_C_ADDI_any:
  "core_wf (xc x) \<Longrightarrow> exec_C_ADDI inst x =
     alu_to (unat (rvc_rd inst)) (xgpr x (unat (rvc_rd inst))) (signed_take_bit 5 (gather rvc_imm6 inst)) ALU_ADD False x"
  by (simp add: exec_C_ADDI_def Let_def c_imms rvc_regs add_to set_rd_same)

lemma expand_q0_exec:
  assumes "bget (0, 2) inst = 0" "expand_q0 inst = Some i32"
  shows "exec_C bus inst x = exec_32 bus i32 x"
proof -
  have f: "fits 11 (gather rvc_imm_4spn inst)" "fits 11 (gather rvc_imm_lw inst)" "fits 11 (gather rvc_imm_ld inst)"
    by (rule fits_gather, simp add: rvc_imm_defs, simp)+
  have t: "take_bit 5 (2 :: u32) = 2" by simp
  show ?thesis
    using assms
    by (auto simp: expand_q0_def Let_def exec_C_def opcode_parts exec_C_ADDI4SPN_def exec_C_LW_def exec_C_LD_def
        exec_C_SW_def exec_C_SD_def c_imms rvc_regs exec_imm exec_load exec_store f add_to split: if_splits)
qed

lemma expand_q2_exec:
  assumes "bget (0, 2) inst = 2" "expand_q2 inst = Some i32" "core_wf (xc x)"
    and "bget f_opcode i32 = RV64I_OpCode_val OPCODE_JALR \<Longrightarrow> \<not> bit (xgpr x (reg f_rs1 i32)) 0"
  shows "exec_C bus inst x = exec_32 bus i32 x"
proof -
  have f: "fits 11 (gather rvc_imm_lwsp inst)" "fits 11 (gather rvc_imm_ldsp inst)" "fits 11 (gather rvc_imm_swsp inst)"
    "fits 11 (gather rvc_imm_sdsp inst)"
    by (rule fits_gather, simp add: rvc_imm_defs, simp)+
  show ?thesis
    using assms
    by (auto simp: expand_q2_def Let_def exec_C_def opcode_parts exec_C_SLLI_any exec_C_LWSP_def exec_C_LDSP_def
        exec_C_SWSP_def exec_C_SDSP_def exec_C_JR_MV_EB_JALR_ADD_def c_imms rvc_regs code_parts exec_load exec_store f add_to
        exec_shift [OF shamt_bits] exec_reg [OF refl] gpr_0 exec_ebreak exec_jr asm_fields asm_regs
        unat_eq_0 split: if_splits)
qed

lemma exec_C_ALU_shift:
  assumes "core_wf (xc x)" "\<not> bit inst 11"
  shows "exec_C_ALU inst x = alu_to (unat (rvc_rs1_short inst)) (xgpr x (unat (rvc_rs1_short inst))) (gather rvc_imm6 inst)
     (if bit inst 10 then ALU_SRA else ALU_SRL) False x"
  using assms by (simp add: exec_C_ALU_def Let_def c_imms rvc_regs code_parts one_bit shift_0)

lemma expand_alu_exec:
  assumes "expand_alu inst = Some i32" "core_wf (xc x)"
  shows "exec_C_ALU inst x = exec_32 bus i32 x"
proof (cases "bit inst 11")
  case False
  then show ?thesis
    using assms
    by (cases "bit inst 10") (auto simp: expand_alu_def Let_def exec_C_ALU_shift two_bits exec_shift [OF shamt_bits])
next
  case True
  have f: "fits 11 (signed_take_bit 5 (gather rvc_imm6 inst))" by (rule fits_signed) simp
  show ?thesis
    using assms True
    by (cases "bit inst 10"; cases "bit inst 12"; cases "bit inst 5"; cases "bit inst 6")
      (auto simp: expand_alu_def Let_def exec_C_ALU_def c_imms rvc_regs code_parts one_bit two_bits
        exec_imm f exec_reg [OF refl])
qed

lemma lui_low: "take_bit 12 (signed_take_bit 17 (gather rvc_imm_lui inst :: u64)) = 0"
  by (rule bit_word_eqI) (auto simp: bit_simps bit_gather rvc_imm_defs)

lemma expand_q1_exec:
  assumes "bget (0, 2) inst = 1" "expand_q1 inst = Some i32" "core_wf (xc x)" "\<not> bit (xpc x) 0"
  shows "exec_C bus inst x = exec_32 bus i32 x"
proof -
  have e: "\<not> bit (signed_take_bit 11 (gather rvc_imm_j inst :: u64)) 0" "\<not> bit (signed_take_bit 8 (gather rvc_imm_b inst :: u64)) 0"
    by (simp_all add: bit_signed_take_bit_iff bit_gather rvc_imm_defs)
  have f: "fits 11 (signed_take_bit 5 (gather rvc_imm6 inst))" "fits 11 (signed_take_bit 9 (gather rvc_imm_16sp inst))"
    "fits 20 (signed_take_bit 11 (gather rvc_imm_j inst))" "fits 12 (signed_take_bit 8 (gather rvc_imm_b inst))"
    "fits 31 (signed_take_bit 17 (gather rvc_imm_lui inst))"
    by (rule fits_signed, simp)+
  have sp: "unat (rvc_rd inst) = 2 \<longleftrightarrow> rvc_rd inst = 2" by (auto simp: word_unat_eq_iff)
  note defs = expand_q1_def Let_def exec_C_def opcode_parts c_imms rvc_regs
  from three_bits [of 13 inst] show ?thesis
    unfolding list.set
  proof (elim insertE emptyE)
    assume "bget (13, 3) inst = 0"
    then show ?thesis using assms by (auto simp: defs exec_C_ADDI_any exec_imm f)
  next
    assume "bget (13, 3) inst = 1"
    then show ?thesis using assms by (auto simp: defs exec_C_ADDIW_def exec_imm f)
  next
    assume "bget (13, 3) inst = 2"
    then show ?thesis using assms by (auto simp: defs exec_C_LI_def exec_imm f add_to gpr_0)
  next
    assume "bget (13, 3) inst = 3"
    then show ?thesis
      using assms by (auto simp: defs exec_C_ADDI16SPN_LUI_def exec_imm exec_lui lui_low f add_to sp split: if_splits)
  next
    assume "bget (13, 3) inst = 4"
    then show ?thesis using assms by (auto simp: defs expand_alu_exec)
  next
    assume "bget (13, 3) inst = 5"
    then show ?thesis using assms by (auto simp: defs exec_C_J_def exec_jal e f)
  next
    assume "bget (13, 3) inst = 6"
    then show ?thesis using assms by (auto simp: defs exec_C_BEQZ_def exec_branch e f)
  next
    assume "bget (13, 3) inst = 7"
    then show ?thesis using assms by (auto simp: defs exec_C_BNEZ_def exec_branch e f)
  qed
qed

lemma exec_C_expands:
  assumes "core_wf (xc x)" and "\<not> bit (xpc x) 0" and "rvc_expand inst = Some i32"
    and "bget f_opcode i32 = RV64I_OpCode_val OPCODE_JALR \<Longrightarrow> \<not> bit (xgpr x (reg f_rs1 i32)) 0"
  shows "exec_C bus inst x = exec_32 bus i32 x"
proof -
  from assms(3) consider "bget (0, 2) inst = 0" "expand_q0 inst = Some i32" | "bget (0, 2) inst = 1" "expand_q1 inst = Some i32"
    | "bget (0, 2) inst = 2" "expand_q2 inst = Some i32"
    by (auto simp: rvc_expand_def split: if_splits)
  then show ?thesis
    by cases (simp_all only: expand_q0_exec expand_q1_exec [OF _ _ assms(1,2)] expand_q2_exec [OF _ _ assms(1,4)])
qed

text \<open>C32: On a well-formed core with an even program counter a compressed instruction has exactly the
  effect of the 32-bit instruction that the manual defines it by, registers, memory, faults and
  jumps included; for c.jr the target register must be even.\<close>

theorem compressed_is_expansion:
  assumes "core_wf (xc x)" and "\<not> bit (xpc x) 0" and "rvc_expand inst = Some i32"
    and "bget f_opcode i32 = RV64I_OpCode_val OPCODE_JALR \<Longrightarrow> \<not> bit (xgpr x (reg f_rs1 i32)) 0"
  shows "exec_C bus inst x = exec_32 bus i32 x"
  using exec_C_expands [OF assms] .

theorem compressed_is_expansion_witness:
  "let x = \<lparr>xc = example_core, xb = (), is_new_pc_set = False, is_instr_illegal = False\<rparr> in
   exec_C example_bus 0x0505 x = exec_32 example_bus 0x00150513 x \<and> exec_C example_bus 0x8082 x = exec_32 example_bus 0x00008067 x"
proof -
  have e: "rvc_expand 0x0505 = Some 0x00150513" "rvc_expand 0x8082 = Some 0x00008067"
    "bget f_opcode (0x00150513 :: u32) = 0x13" "reg f_rs1 0x00008067 = 1" by code_simp+
  have "core_wf example_core" "\<not> bit (currentProgramCounter example_core) 0" "gpr example_core 1 = 0"
    using core_wf_examples(1) by (simp_all add: example_core_def core_reset_def gpr_def)
  then show ?thesis
    unfolding Let_def
    by (intro conjI compressed_is_expansion [OF _ _ e(1)] compressed_is_expansion [OF _ _ e(2)]) (simp_all add: e(3,4))
qed

end
