(* ===== verification/RV64_Isa.thy ===== *)
theory RV64_Isa
  imports RV64_Expand RV64_Total Protection
begin

unbundle bit_operations_syntax

text \<open>
  The unprivileged instruction set of the manual (RV64IMA and the compressed forms, without CSR
  accesses) as an abstract machine of registers, a program counter, bytes of memory and a
  reservation, its encoding, and the proof that a step of the core in an untranslated mode refines a step
  of the machine. The machine knows neither the fields of an instruction word nor the ALU, the
  translation unit or the bus of the code.
\<close>

section \<open>The abstract machine\<close>

record rv_state =
  rv_x :: "5 word \<Rightarrow> u64"
  rv_pc :: u64
  rv_mem :: "u64 \<Rightarrow> u8"
  rv_resv :: "(u64 \<times> nat) option"

datatype rv_cond = BEQ | BNE | BLT | BGE | BLTU | BGEU

datatype rv_load = LB | LH | LW | LD | LBU | LHU | LWU

datatype rv_store = SB | SH | SW | SD

text \<open>Offsets of branches and jumps count units of two bytes, immediates of \<open>LUI\<close> and \<open>AUIPC\<close> units of
  4096. The operations are named as in \<open>Alu\<close> and \<open>Sv39_Amo\<close>; \<open>rv_valid\<close> says which exist. Atomics say
  whether they act on a doubleword and carry the ordering bits.\<close>

datatype rv_inst =
    LUI "5 word" "20 word"
  | AUIPC "5 word" "20 word"
  | JAL "5 word" "20 word"
  | JALR "5 word" "5 word" "12 word"
  | BRANCH rv_cond "5 word" "5 word" "12 word"
  | LOAD rv_load "5 word" "5 word" "12 word"
  | STORE rv_store "5 word" "5 word" "12 word"
  | OPIMM ALU_Op_enum "5 word" "5 word" "12 word"
  | SHIFT ALU_Op_enum "5 word" "5 word" "6 word"
  | ADDIW "5 word" "5 word" "12 word"
  | SHIFTW ALU_Op_enum "5 word" "5 word" "5 word"
  | OP ALU_Op_enum "5 word" "5 word" "5 word"
  | OPW ALU_Op_enum "5 word" "5 word" "5 word"
  | FENCE "12 word"
  | LR bool "2 word" "5 word" "5 word"
  | SC bool "2 word" "5 word" "5 word" "5 word"
  | AMO bool AMO_Funct_enum "2 word" "5 word" "5 word" "5 word"

definition rv_shift :: "ALU_Op_enum \<Rightarrow> bool" where
  "rv_shift op \<longleftrightarrow> op \<in> {ALU_SLL, ALU_SRL, ALU_SRA}"

fun rv_valid :: "rv_inst \<Rightarrow> bool" where
  "rv_valid (OPIMM op rd rs1 imm) \<longleftrightarrow> op \<in> {ALU_ADD, ALU_SLT, ALU_SLTU, ALU_XOR, ALU_OR, ALU_AND}"
| "rv_valid (SHIFT op rd rs1 shamt) \<longleftrightarrow> rv_shift op"
| "rv_valid (SHIFTW op rd rs1 shamt) \<longleftrightarrow> rv_shift op"
| "rv_valid (OP op rd rs1 rs2) \<longleftrightarrow> op \<noteq> ALU_NOP"
| "rv_valid (OPW op rd rs1 rs2) \<longleftrightarrow> op32_ok op"
| "rv_valid (AMO d op order rd rs1 rs2) \<longleftrightarrow> rmw_op op"
| "rv_valid i \<longleftrightarrow> True"

fun rv_holds :: "rv_cond \<Rightarrow> u64 \<Rightarrow> u64 \<Rightarrow> bool" where
  "rv_holds BEQ a b \<longleftrightarrow> a = b"
| "rv_holds BNE a b \<longleftrightarrow> a \<noteq> b"
| "rv_holds BLT a b \<longleftrightarrow> sint a < sint b"
| "rv_holds BGE a b \<longleftrightarrow> sint b \<le> sint a"
| "rv_holds BLTU a b \<longleftrightarrow> uint a < uint b"
| "rv_holds BGEU a b \<longleftrightarrow> uint b \<le> uint a"

fun load_size :: "rv_load \<Rightarrow> nat" where
  "load_size LB = 1" | "load_size LH = 2" | "load_size LW = 4" | "load_size LD = 8"
| "load_size LBU = 1" | "load_size LHU = 2" | "load_size LWU = 4"

fun load_value :: "rv_load \<Rightarrow> u8 list \<Rightarrow> u64" where
  "load_value LB bs = scast (of_bytes bs :: u8)" | "load_value LH bs = scast (of_bytes bs :: u16)"
| "load_value LW bs = scast (of_bytes bs :: u32)" | "load_value LD bs = of_bytes bs"
| "load_value LBU bs = ucast (of_bytes bs :: u8)" | "load_value LHU bs = ucast (of_bytes bs :: u16)"
| "load_value LWU bs = ucast (of_bytes bs :: u32)"

fun store_size :: "rv_store \<Rightarrow> nat" where
  "store_size SB = 1" | "store_size SH = 2" | "store_size SW = 4" | "store_size SD = 8"

text \<open>Results of the operations on whole registers and on their low words, from \<open>alu_spec\<close>.\<close>

definition op_value :: "ALU_Op_enum \<Rightarrow> u64 \<Rightarrow> u64 \<Rightarrow> u64" where
  "op_value op a b = word_of_int (alu_spec op a b)"

definition opw_value :: "ALU_Op_enum \<Rightarrow> u64 \<Rightarrow> u64 \<Rightarrow> u64" where
  "opw_value op a b = scast (word_of_int (alu_spec op (ucast a :: u32) (ucast b)) :: u32)"

text \<open>Register 0 reads as zero and is never written.\<close>

definition rv_put :: "5 word \<Rightarrow> u64 \<Rightarrow> rv_state \<Rightarrow> rv_state" where
  "rv_put rd v s = (if rd = 0 then s else s\<lparr>rv_x := (rv_x s)(rd := v)\<rparr>)"

definition rv_jump :: "u64 \<Rightarrow> rv_state \<Rightarrow> rv_state" where
  "rv_jump a s = s\<lparr>rv_pc := a\<rparr>"

definition jump_offset :: "'a::len word \<Rightarrow> u64" where
  "jump_offset off = word_of_int (2 * sint off)"

definition upper_imm :: "20 word \<Rightarrow> u64" where
  "upper_imm imm = word_of_int (2 ^ 12 * sint imm)"

definition atomic_size :: "bool \<Rightarrow> nat" where
  "atomic_size d = (if d then 8 else 4)"

definition atomic_value :: "bool \<Rightarrow> u8 list \<Rightarrow> u64" where
  "atomic_value d bs = (if d then of_bytes bs else scast (of_bytes bs :: u32))"

definition atomic_result :: "bool \<Rightarrow> AMO_Funct_enum \<Rightarrow> u64 \<Rightarrow> u8 list \<Rightarrow> u8 list" where
  "atomic_result d op src bs =
     (if d then to_bytes 8 (amo_spec op src (of_bytes bs)) else to_bytes 4 (amo_spec op (ucast src :: u32) (of_bytes bs)))"

definition rv_store :: "u64 \<Rightarrow> u8 list \<Rightarrow> rv_state \<Rightarrow> rv_state" where
  "rv_store a bs s = s\<lparr>rv_mem := store_bytes (rv_mem s) a bs\<rparr>"

text \<open>The effect of an instruction of \<open>n\<close> bytes.\<close>

fun rv_exec :: "u64 \<Rightarrow> rv_inst \<Rightarrow> rv_state \<Rightarrow> rv_state" where
  "rv_exec n (LUI rd imm) s = rv_jump (rv_pc s + n) (rv_put rd (upper_imm imm) s)"
| "rv_exec n (AUIPC rd imm) s = rv_jump (rv_pc s + n) (rv_put rd (rv_pc s + upper_imm imm) s)"
| "rv_exec n (JAL rd off) s = rv_jump (rv_pc s + jump_offset off) (rv_put rd (rv_pc s + n) s)"
| "rv_exec n (JALR rd rs1 imm) s = rv_jump ((rv_x s rs1 + scast imm) AND NOT 1) (rv_put rd (rv_pc s + n) s)"
| "rv_exec n (BRANCH cond rs1 rs2 off) s =
     rv_jump (rv_pc s + (if rv_holds cond (rv_x s rs1) (rv_x s rs2) then jump_offset off else n)) s"
| "rv_exec n (LOAD op rd rs1 imm) s = rv_jump (rv_pc s + n)
     (rv_put rd (load_value op (load_bytes (rv_mem s) (rv_x s rs1 + scast imm) (load_size op))) s)"
| "rv_exec n (STORE op rs1 rs2 imm) s = rv_jump (rv_pc s + n)
     (rv_store (rv_x s rs1 + scast imm) (to_bytes (store_size op) (rv_x s rs2)) s)"
| "rv_exec n (OPIMM op rd rs1 imm) s = rv_jump (rv_pc s + n) (rv_put rd (op_value op (rv_x s rs1) (scast imm)) s)"
| "rv_exec n (SHIFT op rd rs1 shamt) s = rv_jump (rv_pc s + n) (rv_put rd (op_value op (rv_x s rs1) (ucast shamt)) s)"
| "rv_exec n (ADDIW rd rs1 imm) s = rv_jump (rv_pc s + n) (rv_put rd (opw_value ALU_ADD (rv_x s rs1) (scast imm)) s)"
| "rv_exec n (SHIFTW op rd rs1 shamt) s = rv_jump (rv_pc s + n) (rv_put rd (opw_value op (rv_x s rs1) (ucast shamt)) s)"
| "rv_exec n (OP op rd rs1 rs2) s = rv_jump (rv_pc s + n) (rv_put rd (op_value op (rv_x s rs1) (rv_x s rs2)) s)"
| "rv_exec n (OPW op rd rs1 rs2) s = rv_jump (rv_pc s + n) (rv_put rd (opw_value op (rv_x s rs1) (rv_x s rs2)) s)"
| "rv_exec n (FENCE imm) s = rv_jump (rv_pc s + n) s"
| "rv_exec n (LR d order rd rs1) s = rv_jump (rv_pc s + n)
     (rv_put rd (atomic_value d (load_bytes (rv_mem s) (rv_x s rs1) (atomic_size d)))
       (s\<lparr>rv_resv := Some (rv_x s rs1, atomic_size d)\<rparr>))"
| "rv_exec n (SC d order rd rs1 rs2) s = rv_jump (rv_pc s + n)
     (if rv_resv s = Some (rv_x s rs1, atomic_size d)
      then rv_put rd 0 (rv_store (rv_x s rs1) (to_bytes (atomic_size d) (rv_x s rs2)) s\<lparr>rv_resv := None\<rparr>)
      else rv_put rd 1 (s\<lparr>rv_resv := None\<rparr>))"
| "rv_exec n (AMO d op order rd rs1 rs2) s =
     (let old = load_bytes (rv_mem s) (rv_x s rs1) (atomic_size d) in
      rv_jump (rv_pc s + n) (rv_put rd (atomic_value d old)
        (rv_store (rv_x s rs1) (atomic_result d op (rv_x s rs2) old) s)))"

text \<open>Where the machine is defined: aligned accesses to memory, indirect jumps from an even base, and
  minima and maxima of words from a sign-extended source.\<close>

definition order_op :: "AMO_Funct_enum \<Rightarrow> bool" where
  "order_op op \<longleftrightarrow> op \<in> {AMOMIN, AMOMAX, AMOMINU, AMOMAXU}"

definition rv_aligned :: "(u64 \<Rightarrow> nat \<Rightarrow> bool) \<Rightarrow> u64 \<Rightarrow> nat \<Rightarrow> bool" where
  "rv_aligned memory a n \<longleftrightarrow> a mod of_nat n = 0 \<and> memory a n"

fun rv_allowed :: "(u64 \<Rightarrow> nat \<Rightarrow> bool) \<Rightarrow> rv_inst \<Rightarrow> rv_state \<Rightarrow> bool" where
  "rv_allowed memory (LOAD op rd rs1 imm) s \<longleftrightarrow> rv_aligned memory (rv_x s rs1 + scast imm) (load_size op)"
| "rv_allowed memory (STORE op rs1 rs2 imm) s \<longleftrightarrow> rv_aligned memory (rv_x s rs1 + scast imm) (store_size op)"
| "rv_allowed memory (LR d order rd rs1) s \<longleftrightarrow> rv_aligned memory (rv_x s rs1) (atomic_size d)"
| "rv_allowed memory (SC d order rd rs1 rs2) s \<longleftrightarrow> rv_aligned memory (rv_x s rs1) (atomic_size d)"
| "rv_allowed memory (AMO d op order rd rs1 rs2) s \<longleftrightarrow> rv_aligned memory (rv_x s rs1) (atomic_size d) \<and>
     (d \<or> \<not> order_op op \<or> scast (ucast (rv_x s rs2) :: u32) = rv_x s rs2)"
| "rv_allowed memory (JALR rd rs1 imm) s \<longleftrightarrow> \<not> bit (rv_x s rs1) 0"
| "rv_allowed memory i s \<longleftrightarrow> True"

section \<open>The encoding\<close>

fun cond_code :: "rv_cond \<Rightarrow> u32" where
  "cond_code BEQ = 0" | "cond_code BNE = 1" | "cond_code BLT = 4" | "cond_code BGE = 5"
| "cond_code BLTU = 6" | "cond_code BGEU = 7"

fun load_code :: "rv_load \<Rightarrow> u32" where
  "load_code LB = 0" | "load_code LH = 1" | "load_code LW = 2" | "load_code LD = 3"
| "load_code LBU = 4" | "load_code LHU = 5" | "load_code LWU = 6"

fun store_code :: "rv_store \<Rightarrow> u32" where
  "store_code SB = 0" | "store_code SH = 1" | "store_code SW = 2" | "store_code SD = 3"

text \<open>\<open>funct3\<close> and \<open>funct7\<close> of an operation.\<close>

fun op_code :: "ALU_Op_enum \<Rightarrow> u32 \<times> u32" where
  "op_code ALU_ADD = (0, 0)" | "op_code ALU_SUB = (0, 0x20)" | "op_code ALU_SLL = (1, 0)"
| "op_code ALU_SLT = (2, 0)" | "op_code ALU_SLTU = (3, 0)" | "op_code ALU_XOR = (4, 0)"
| "op_code ALU_SRL = (5, 0)" | "op_code ALU_SRA = (5, 0x20)" | "op_code ALU_OR = (6, 0)"
| "op_code ALU_AND = (7, 0)" | "op_code ALU_MUL = (0, 1)" | "op_code ALU_MULH = (1, 1)"
| "op_code ALU_MULHSU = (2, 1)" | "op_code ALU_MULHU = (3, 1)" | "op_code ALU_DIV = (4, 1)"
| "op_code ALU_DIVU = (5, 1)" | "op_code ALU_REM = (6, 1)" | "op_code ALU_REMU = (7, 1)"
| "op_code ALU_NOP = (0, 0)"

definition atomic_code :: "AMO_Funct_enum \<Rightarrow> 2 word \<Rightarrow> u32" where
  "atomic_code op order = push_bit 2 (amo_code op) OR ucast order"

text \<open>An arithmetic shift to the right is marked in the immediate.\<close>

definition shift_imm :: "ALU_Op_enum \<Rightarrow> 'a::len word \<Rightarrow> u64" where
  "shift_imm op shamt = (if op = ALU_SRA then ucast shamt OR 0x400 else ucast shamt)"

fun rv_encode :: "rv_inst \<Rightarrow> u32" where
  "rv_encode (LUI rd imm) = asm_U OPCODE_LUI (ucast rd) (upper_imm imm)"
| "rv_encode (AUIPC rd imm) = asm_U OPCODE_AUIPC (ucast rd) (upper_imm imm)"
| "rv_encode (JAL rd off) = asm_J (ucast rd) (jump_offset off)"
| "rv_encode (JALR rd rs1 imm) = asm_I OPCODE_JALR 0 (ucast rd) (ucast rs1) (scast imm)"
| "rv_encode (BRANCH cond rs1 rs2 off) = asm_B (cond_code cond) (ucast rs1) (ucast rs2) (jump_offset off)"
| "rv_encode (LOAD op rd rs1 imm) = asm_I OPCODE_LOAD (load_code op) (ucast rd) (ucast rs1) (scast imm)"
| "rv_encode (STORE op rs1 rs2 imm) = asm_S (store_code op) (ucast rs1) (ucast rs2) (scast imm)"
| "rv_encode (OPIMM op rd rs1 imm) = asm_I OPCODE_OPIMM (fst (op_code op)) (ucast rd) (ucast rs1) (scast imm)"
| "rv_encode (SHIFT op rd rs1 shamt) =
     asm_I OPCODE_OPIMM (fst (op_code op)) (ucast rd) (ucast rs1) (shift_imm op shamt)"
| "rv_encode (ADDIW rd rs1 imm) = asm_I OPCODE_OPIMM32 0 (ucast rd) (ucast rs1) (scast imm)"
| "rv_encode (SHIFTW op rd rs1 shamt) =
     asm_I OPCODE_OPIMM32 (fst (op_code op)) (ucast rd) (ucast rs1) (shift_imm op shamt)"
| "rv_encode (OP op rd rs1 rs2) =
     asm_R OPCODE_OP (fst (op_code op)) (snd (op_code op)) (ucast rd) (ucast rs1) (ucast rs2)"
| "rv_encode (OPW op rd rs1 rs2) =
     asm_R OPCODE_OP32 (fst (op_code op)) (snd (op_code op)) (ucast rd) (ucast rs1) (ucast rs2)"
| "rv_encode (FENCE imm) = asm_I OPCODE_FENCE 0 0 0 (scast imm)"
| "rv_encode (LR d order rd rs1) =
     asm_R OPCODE_AMO (if d then 3 else 2) (atomic_code AMOLR order) (ucast rd) (ucast rs1) 0"
| "rv_encode (SC d order rd rs1 rs2) =
     asm_R OPCODE_AMO (if d then 3 else 2) (atomic_code AMOSC order) (ucast rd) (ucast rs1) (ucast rs2)"
| "rv_encode (AMO d op order rd rs1 rs2) =
     asm_R OPCODE_AMO (if d then 3 else 2) (atomic_code op order) (ucast rd) (ucast rs1) (ucast rs2)"

section \<open>Steps of the machine\<close>

definition rv_fetch :: "rv_state \<Rightarrow> u32" where
  "rv_fetch s = of_bytes (load_bytes (rv_mem s) (rv_pc s) 4)"

text \<open>The word at the program counter encodes \<open>i\<close>, or its low half is a compressed form of \<open>i\<close>.\<close>

inductive rv_decodes :: "u32 \<Rightarrow> rv_inst \<Rightarrow> u64 \<Rightarrow> bool" where
  full: "w = rv_encode i \<Longrightarrow> rv_valid i \<Longrightarrow> rv_decodes w i 4"
| compressed: "rvc_expand w = Some (rv_encode i) \<Longrightarrow> rv_valid i \<Longrightarrow> rv_decodes w i 2"

inductive rv_step :: "(u64 \<Rightarrow> nat \<Rightarrow> bool) \<Rightarrow> rv_state \<Rightarrow> rv_state \<Rightarrow> bool" for memory where
  "memory (rv_pc s) 4 \<Longrightarrow> \<not> bit (rv_pc s) 0 \<Longrightarrow> rv_decodes (rv_fetch s) i n \<Longrightarrow> rv_allowed memory i s \<Longrightarrow>
   rv_step memory s (rv_exec n i s)"

inductive_cases rv_stepE: "rv_step memory s s'"
inductive_cases rv_decodesE: "rv_decodes w i n"
section \<open>The code on encoded instructions\<close>

lemma reg_zero: "unat (r :: 5 word) = 0 \<longleftrightarrow> r = 0" "unat (r :: 5 word) < 32"
  using unsigned_less [of r, where 'a = nat] by (simp_all add: unsigned_eq_0_iff)

lemma reg_code [simp]: "take_bit 5 (ucast (r :: 5 word) :: u32) = ucast r" "unat (ucast (r :: 5 word) :: u32) = unat r"
proof -
  show u: "unat (ucast r :: u32) = unat r"
    using reg_zero(2) [of r] by (simp add: unsigned_ucast_eq take_bit_nat_eq_self)
  show "take_bit 5 (ucast r :: u32) = ucast r" by (rule take_bit_5) (simp add: u reg_zero)
qed

lemma jump_offset_shift: "jump_offset off = push_bit 1 (scast off)"
  by (simp add: jump_offset_def push_bit_eq_mult)

lemma upper_imm_shift: "upper_imm imm = push_bit 12 (scast imm)"
  by (simp add: upper_imm_def push_bit_eq_mult)

lemma imm_fits [simp]:
  "fits 11 (scast (imm :: 12 word))" "fits 12 (jump_offset (boff :: 12 word))" "fits 20 (jump_offset (joff :: 20 word))"
  "fits 31 (upper_imm uimm)" "take_bit 12 (upper_imm uimm) = 0"
  "\<not> bit (jump_offset boff) 0" "\<not> bit (jump_offset joff) 0"
  unfolding fits_def
  by (rule bit_word_eqI, simp only: jump_offset_shift upper_imm_shift bit_simps, auto simp: min_def)+
    (simp_all only: jump_offset_shift bit_simps, simp_all)

lemma shift_bits: "take_bit 6 (ucast (shamt :: 6 word) :: u64) = ucast shamt" "take_bit 5 (ucast (shamtw :: 5 word) :: u64) = ucast shamtw"
  by (rule bit_word_eqI, auto simp: bit_simps dest: bit_imp_le_length)+

text \<open>One rule per kind of instruction; the sources are read before the destination is written.\<close>

lemma encoded_upper:
  "exec_32 bus (rv_encode (LUI rd imm)) x = set_rd (unat rd) (upper_imm imm) x"
  "exec_32 bus (rv_encode (AUIPC rd imm)) x = set_rd (unat rd) (upper_imm imm + xpc x) x"
  by (simp_all add: exec_32_def asm_fields asm_imm asm_regs exec_LUI_def exec_AUIPC_def)

lemma encoded_jump:
  "\<not> bit (xpc x) 0 \<Longrightarrow> exec_32 bus (rv_encode (JAL rd off)) x =
     bindR (set_rd (unat rd) (xpc x + 4) x) (\<lambda>x1. Inr (set_pc (xpc x + jump_offset off) x1))"
  by (simp add: exec_32_def asm_fields asm_imm asm_regs exec_JAL_def Let_def even_target)

lemma encoded_branch:
  "\<not> bit (xpc x) 0 \<Longrightarrow> exec_32 bus (rv_encode (BRANCH cond rs1 rs2 off)) x =
     Inr (if rv_holds cond (xgpr x (unat rs1)) (xgpr x (unat rs2)) then set_pc (xpc x + jump_offset off) x else x)"
  by (cases cond)
    (simp_all add: exec_32_def asm_fields asm_imm asm_regs exec_BRANCH_def branch_cond_def Let_def even_target set_pc_def
      word_less_def word_le_def)

lemma load_value_conv:
  "load_value LB = conv_s8" "load_value LH = conv_s16" "load_value LW = conv_s32" "load_value LD = conv_64"
  "load_value LBU = conv_u8" "load_value LHU = conv_u16" "load_value LWU = conv_u32"
  by (simp_all add: fun_eq_iff conv_s8_def conv_s16_def conv_s32_def conv_64_def conv_u8_def conv_u16_def conv_u32_def)

lemma encoded_load:
  "exec_32 bus (rv_encode (LOAD op rd rs1 imm)) x =
     load_to bus (xgpr x (unat rs1) + scast imm) (of_nat (load_size op)) (load_value op) (unat rd) x"
  by (cases op)
    (simp_all add: exec_32_def asm_fields asm_imm asm_regs exec_LOAD_def Let_def load_value_conv
      del: load_value.simps)

lemma encoded_store:
  "exec_32 bus (rv_encode (STORE op rs1 rs2 imm)) x =
     memWrite bus (xgpr x (unat rs1) + scast imm) (to_bytes (store_size op) (xgpr x (unat rs2))) x"
  by (cases op) (simp_all add: exec_32_def asm_fields asm_imm asm_regs exec_STORE_def Let_def)

lemma encoded_op:
  "op \<noteq> ALU_NOP \<Longrightarrow> exec_32 bus (rv_encode (OP op rd rs1 rs2)) x =
     alu_to (unat rd) (xgpr x (unat rs1)) (xgpr x (unat rs2)) op False x"
  by (cases op) (simp_all add: exec_32_def asm_fields asm_regs exec_OP_def op_decode_def)

lemma encoded_opw:
  "op32_ok op \<Longrightarrow> exec_32 bus (rv_encode (OPW op rd rs1 rs2)) x =
     alu_to (unat rd) (xgpr x (unat rs1)) (xgpr x (unat rs2)) op True x"
  by (cases op) (simp_all add: op32_ok_def exec_32_def asm_fields asm_regs exec_OP32_def op32_decode_def)

lemma encoded_imm:
  "rv_valid (OPIMM op rd rs1 imm) \<Longrightarrow> exec_32 bus (rv_encode (OPIMM op rd rs1 imm)) x =
     alu_to (unat rd) (xgpr x (unat rs1)) (scast imm) op False x"
  "exec_32 bus (rv_encode (ADDIW rd rs1 imm)) x = alu_to (unat rd) (xgpr x (unat rs1)) (scast imm) ALU_ADD True x"
  by (auto simp: exec_32_def asm_fields asm_imm asm_regs exec_OPIMM_def exec_OPIMM32_def opimm_decode_def opimm32_decode_def Let_def)

lemma encoded_shift:
  "rv_shift op \<Longrightarrow> exec_32 bus (rv_encode (SHIFT op rd rs1 shamt)) x =
     alu_to (unat rd) (xgpr x (unat rs1)) (ucast shamt) op False x"
  by (auto simp: rv_shift_def shift_imm_def exec_shift [OF shift_bits(1)])

lemma encoded_fence: "exec_32 bus (rv_encode (FENCE imm)) x = Inr x"
  by (simp add: exec_32_def asm_fields)

lemma encoded_shiftw:
  "rv_shift op \<Longrightarrow> exec_32 bus (rv_encode (SHIFTW op rd rs1 shamt)) x =
     alu_to (unat rd) (xgpr x (unat rs1)) (ucast shamt) op True x"
  by (auto simp: rv_shift_def shift_imm_def exec_shift32 [OF shift_bits(2)])
text \<open>Atomics: the function code of the operation is above the ordering bits.\<close>

lemma atomic_fields [simp]:
  "drop_bit 2 (take_bit 7 (atomic_code op order)) = amo_code op"
  "take_bit 3 (if d then 3 else 2 :: u32) = (if d then 3 else 2)"
proof -
  have n: "bit order k \<Longrightarrow> k < 2" for k using bit_imp_le_length [of order k] by simp
  then have n7: "bit order k \<Longrightarrow> k < 7" for k by fastforce
  have "take_bit 7 (atomic_code op order) = atomic_code op order"
    by (rule bit_word_eqI) (cases op; auto simp: atomic_code_def bit_simps dest: n7)
  moreover have "drop_bit 2 (atomic_code op order) = amo_code op"
    by (rule bit_word_eqI) (cases op; auto simp: atomic_code_def bit_simps dest: n)
  ultimately show "drop_bit 2 (take_bit 7 (atomic_code op order)) = amo_code op" by simp
qed simp

definition amo_size :: "bool \<Rightarrow> u64" where
  "amo_size d = (if d then 8 else 4)"

lemma encoded_lr:
  "exec_32 bus (rv_encode (LR d order rd rs1)) x =
     (let c = xc x; a = xgpr x (unat rs1) in
      bindR (vaddrLoadReserved bus (core_env c) (sv39MMU c) (xb x) a (amo_size d)) (\<lambda>(exc, result, m1, b1).
      let x1 = x\<lparr>xc := c\<lparr>sv39MMU := m1\<rparr>, xb := b1\<rparr> in
      if exc = exec_ok then bindR (initialised result) (\<lambda>bs. set_rd (unat rd) (atomic_value d bs) x1)
      else raise_x (cause_of exc) a x1))"
  by (cases d)
    (simp_all add: exec_32_def asm_fields asm_regs exec_AMO_def Let_def amo_size_def atomic_value_def conv_64_def conv_s32_def
      del: amo_code.simps cong: if_cong)

lemma encoded_sc:
  "exec_32 bus (rv_encode (SC d order rd rs1 rs2)) x =
     (let c = xc x; a = xgpr x (unat rs1) in
      bindR (vaddrStoreConditional bus (core_env c) (sv39MMU c) (xb x) a (to_bytes (atomic_size d) (xgpr x (unat rs2))))
        (\<lambda>(exc, result, m1, b1).
      let x1 = x\<lparr>xc := c\<lparr>sv39MMU := m1\<rparr>, xb := b1\<rparr> in
      if exc = exec_ok then bindR (initialised result) (\<lambda>r. set_rd (unat rd) (of_bool r) x1)
      else raise_x (cause_of exc) a x1))"
  by (cases d)
    (simp_all add: exec_32_def asm_fields asm_regs exec_AMO_def Let_def atomic_size_def del: amo_code.simps)

lemma encoded_amo:
  "rmw_op op \<Longrightarrow> exec_32 bus (rv_encode (AMO d op order rd rs1 rs2)) x =
     (let c = xc x; a = xgpr x (unat rs1) in
      bindR (vaddrAtomicMemOperation bus (core_env c) (sv39MMU c) (xb x) a (amo_size d) op (xgpr x (unat rs2)))
        (\<lambda>(exc, result, m1, b1).
      let x1 = x\<lparr>xc := c\<lparr>sv39MMU := m1\<rparr>, xb := b1\<rparr> in
      if exc = exec_ok then bindR (initialised result) (\<lambda>r. set_rd (unat rd) r x1)
      else raise_x (cause_of exc) a x1))"
  by (cases d; cases op)
    (simp_all add: rmw_op_def exec_32_def asm_fields asm_regs exec_AMO_def Let_def amo_size_def del: amo_code.simps)

section \<open>The core as the machine\<close>

definition rv_abs :: "('b \<Rightarrow> u64 \<Rightarrow> u8) \<Rightarrow> core \<Rightarrow> 'b \<Rightarrow> rv_state" where
  "rv_abs byte c b = \<lparr>rv_x = (\<lambda>r. gpr c (unat r)), rv_pc = currentProgramCounter c, rv_mem = byte b,
     rv_resv = (if lr_valid (sv39MMU c) then Some (lr_pa (sv39MMU c), unat (lr_size (sv39MMU c))) else None)\<rparr>"

text \<open>Neither fetches nor data accesses are translated, and no interrupt is taken.\<close>

definition untranslated :: "core \<Rightarrow> bool" where
  "untranslated c \<longleftrightarrow> bget satp_mode (satp c) = 0 \<or> nextPrivMode c = M_MODE \<and> \<not> bflag ms_mprv (status c)"

definition masked :: "core \<Rightarrow> bool" where
  "masked c \<longleftrightarrow> csrIntEnable c = 0 \<or> nextPrivMode c = M_MODE \<and> \<not> bflag ms_mie (status c)"

text \<open>What unprivileged instructions leave alone.\<close>

definition same_control :: "core \<Rightarrow> core \<Rightarrow> bool" where
  "same_control c c' \<longleftrightarrow> status c' = status c \<and> satp c' = satp c \<and> csrIntEnable c' = csrIntEnable c \<and>
     nextPrivMode c' = nextPrivMode c"

lemma same_control_keeps: "same_control c c' \<Longrightarrow> untranslated c' = untranslated c \<and> masked c' = masked c"
  by (simp add: same_control_def untranslated_def masked_def)

lemma masked_quiet: "masked c \<Longrightarrow> \<not> takes_interrupt (preExec_update c)"
  by (auto simp: masked_def takes_interrupt_def preExec_update_def Let_def)

text \<open>An instruction completes: the state after it, with the program counter that the step will set.\<close>

definition rv_after :: "('b \<Rightarrow> u64 \<Rightarrow> u8) \<Rightarrow> u64 \<Rightarrow> 'b xstate \<Rightarrow> rv_state" where
  "rv_after byte n x = rv_jump (if is_new_pc_set x then xpc x else xpc x + n) (rv_abs byte (xc x) (xb x))"

definition completes :: "('b \<Rightarrow> u64 \<Rightarrow> u8) \<Rightarrow> u64 \<Rightarrow> core \<Rightarrow> rv_state \<Rightarrow> 'b xstate \<Rightarrow> bool" where
  "completes byte n c s x \<longleftrightarrow> rv_after byte n x = s \<and> \<not> is_instr_illegal x \<and> \<not> needTrap (xc x) \<and>
     same_control c (xc x) \<and> minstret (xc x) = minstret c"

definition started :: "'b xstate \<Rightarrow> bool" where
  "started x \<longleftrightarrow> core_wf (xc x) \<and> bare_access (core_env (xc x)) \<and> \<not> bit (xpc x) 0 \<and> \<not> is_new_pc_set x \<and>
     \<not> is_instr_illegal x \<and> \<not> needTrap (xc x)"

definition put_gpr :: "5 word \<Rightarrow> u64 \<Rightarrow> core \<Rightarrow> core" where
  "put_gpr rd v c = (if rd = 0 then c else c\<lparr>GPR := (GPR c)[unat rd := v]\<rparr>)"

lemma set_rd_reg: "set_rd (unat rd) v x = Inr (x\<lparr>xc := put_gpr rd v (xc x)\<rparr>)"
  by (simp add: set_rd_def setGPR_def put_gpr_def reg_zero)

lemma rv_abs_put:
  assumes "core_wf c"
  shows "rv_abs byte (put_gpr rd v c) b = rv_put rd v (rv_abs byte c b)"
proof -
  have "length (GPR c) = 32" using assms by (simp add: core_wf_def)
  then have "(\<lambda>r :: 5 word. (GPR c)[unat rd := v] ! unat r) = (\<lambda>r. GPR c ! unat r)(rd := v)"
    by (intro ext) (simp add: nth_list_update reg_zero word_unat_eq_iff)
  then show ?thesis by (simp add: rv_abs_def rv_put_def put_gpr_def gpr_def)
qed

lemma put_gpr_fields [simp]:
  "currentProgramCounter (put_gpr rd v c) = currentProgramCounter c" "needTrap (put_gpr rd v c) = needTrap c"
  "minstret (put_gpr rd v c) = minstret c" "same_control c0 (put_gpr rd v c) = same_control c0 c"
  by (simp_all add: put_gpr_def same_control_def)

lemma rv_put_jump [simp]:
  "rv_jump a (rv_jump a' s) = rv_jump a s" "rv_put rd v (rv_jump a s) = rv_jump a (rv_put rd v s)"
  "rv_pc (rv_jump a s) = a" "rv_x (rv_jump a s) = rv_x s" "rv_mem (rv_jump a s) = rv_mem s"
  by (simp_all add: rv_jump_def rv_put_def)

lemma alu_value:
  "op \<noteq> ALU_NOP \<Longrightarrow> alu_to rd a b op False x = set_rd rd (op_value op a b) x"
  "op32_ok op \<Longrightarrow> alu_to rd a b op True x = set_rd rd (opw_value op a b) x"
  by (simp_all add: alu_to_def alu_exec_64 alu_exec_op32 op_value_def opw_value_def)

text \<open>Writing the result and falling through to the next instruction.\<close>

lemma completes_put:
  assumes "started x"
  shows "returnsR (set_rd (unat rd) v x)
    (completes byte n (xc x) (rv_jump (xpc x + n) (rv_put rd v (rv_abs byte (xc x) (xb x)))))"
  using assms by (simp add: set_rd_reg completes_def rv_after_def rv_abs_put started_def) (simp add: same_control_def)
lemma clear_odd: "\<not> bit (a :: u64) 0 \<Longrightarrow> (a + b) AND NOT 1 = a + (b AND NOT 1)"
proof -
  assume a: "\<not> bit a 0"
  have c: "w AND NOT 1 = w - (w AND 1)" for w :: u64
  proof -
    have z: "NOT w AND (w AND 1) = 0" by (rule bit_word_eqI) (auto simp: bit_simps)
    have "w AND NOT (w AND 1) = w AND NOT 1" by (rule bit_word_eqI) (auto simp: bit_simps)
    then show ?thesis using disjunctive_diff_eq_and_not [OF z] by simp
  qed
  have "(a + b) AND 1 = b AND 1" using a by (simp add: and_one_eq bit_0 mod2_eq_if even_add)
  then show "(a + b) AND NOT 1 = a + (b AND NOT 1)" unfolding c by (simp add: algebra_simps)
qed

lemma even_result: "(w AND NOT 1 :: u64) mod PC_ALIGN = 0"
proof -
  have "\<not> bit (w AND NOT 1) 0" by (simp add: bit_simps)
  then show ?thesis using even_target [of "w AND NOT 1" 0] by simp
qed

lemma encoded_jalr:
  assumes "\<not> bit (xgpr x (unat rs1)) 0"
  shows "exec_32 bus (rv_encode (JALR rd rs1 imm)) x =
     bindR (set_rd (unat rd) (xpc x + 4) x) (\<lambda>x1. Inr (set_pc ((xgpr x (unat rs1) + scast imm) AND NOT 1) x1))"
  unfolding exec_32_def exec_JALR_def Let_def clear_bit_0 rv_encode.simps asm_fields asm_regs asm_imm(1) [OF imm_fits(1)] reg_code
    clear_odd [OF assms, symmetric] even_result
  by simp

text \<open>Jumps with a link register link to the instruction four bytes further.\<close>

lemma jump_completes:
  assumes "started x" "rd \<noteq> 0 \<Longrightarrow> n = 4"
  shows "returnsR (bindR (set_rd (unat rd) (xpc x + 4) x) (\<lambda>x1. Inr (set_pc t x1)))
    (completes byte n (xc x) (rv_jump t (rv_put rd (xpc x + n) (rv_abs byte (xc x) (xb x)))))"
proof -
  have e: "rv_put rd (xpc x + n) s = rv_put rd (xpc x + 4) s" for s using assms(2) by (auto simp: rv_put_def)
  have j: "rv_jump t (rv_abs byte (c\<lparr>currentProgramCounter := t\<rparr>) b) = rv_jump t (rv_abs byte c b)" for c b
    by (simp add: rv_jump_def rv_abs_def gpr_def)
  show ?thesis
    using assms(1) unfolding e
    by (simp add: set_rd_reg set_pc_def completes_def rv_after_def j rv_abs_put started_def)
      (simp add: same_control_def put_gpr_def)
qed

lemma fall_completes: "started x \<Longrightarrow> completes byte n (xc x) (rv_jump (xpc x + n) (rv_abs byte (xc x) (xb x))) x"
  by (simp add: completes_def rv_after_def started_def same_control_def)

lemma taken_completes: "started x \<Longrightarrow> completes byte n (xc x) (rv_jump t (rv_abs byte (xc x) (xb x))) (set_pc t x)"
  by (simp add: completes_def rv_after_def started_def same_control_def set_pc_def rv_jump_def rv_abs_def gpr_def)

fun rv_links :: "rv_inst \<Rightarrow> bool" where
  "rv_links (JAL rd off) \<longleftrightarrow> rd \<noteq> 0"
| "rv_links (JALR rd rs1 imm) \<longleftrightarrow> rd \<noteq> 0"
| "rv_links i \<longleftrightarrow> False"

lemma started_mmu:
  assumes "started x" "mmu_ok (core_env (xc x)) m"
  shows "started (x\<lparr>xc := (xc x)\<lparr>sv39MMU := m\<rparr>, xb := b\<rparr>)"
  using assms core_wf_mmu(2) [of "xc x" m] by (simp add: started_def core_env_def)

lemma rv_abs_mmu:
  "rv_abs byte (c\<lparr>sv39MMU := m\<rparr>) b = (rv_abs byte c b)
     \<lparr>rv_resv := (if lr_valid m then Some (lr_pa m, unat (lr_size m)) else None)\<rparr>"
  by (simp add: rv_abs_def gpr_def)

lemma started_ok: "started x \<Longrightarrow> mmu_ok (core_env (xc x)) (sv39MMU (xc x))"
  by (simp add: started_def core_wf_mmu)

text \<open>The result of an atomic is written after the translation unit and the bus have changed.\<close>

lemma completes_atomic:
  assumes "started x" "mmu_ok (core_env (xc x)) m"
  shows "returnsR (set_rd (unat rd) v (x\<lparr>xc := (xc x)\<lparr>sv39MMU := m\<rparr>, xb := b\<rparr>))
    (completes byte n (xc x) (rv_jump (xpc x + n) (rv_put rd v (rv_abs byte ((xc x)\<lparr>sv39MMU := m\<rparr>) b))))"
proof -
  have "completes byte n ((xc x)\<lparr>sv39MMU := m\<rparr>) = completes byte n (xc x)"
    by (simp add: fun_eq_iff completes_def same_control_def)
  then show ?thesis using completes_put [OF started_mmu [OF assms], of rd v b byte n] by simp
qed

lemma amo_low:
  assumes "rmw_op op" "order_op op \<Longrightarrow> scast (ucast src :: u32) = src"
  shows "\<exists>w. amo_to_write op src (scast y) = Inr w \<and> ucast w = amo_spec op (ucast src :: u32) y"
proof (cases "order_op op")
  case True
  then show ?thesis using amo_to_write_32 [OF assms(1), of "ucast src" y] assms(2) by simp
next
  case False
  then show ?thesis
    using assms(1)
    by (cases op) (auto simp: order_op_def rmw_op_def amo_to_write_def amo_spec_def ucast_hom bit_simps intro!: bit_word_eqI)
qed

context memory_bus
begin

lemma load_completes:
  assumes "started x" "binv (xb x)" "a mod of_nat k = 0" "memory a k" "k < 2 ^ 64"
  shows "returnsR (load_to bus a (of_nat k) conv (unat rd) x) (completes byte n (xc x)
    (rv_jump (xpc x + n) (rv_put rd (conv (load_bytes (byte (xb x)) a k)) (rv_abs byte (xc x) (xb x)))))"
proof -
  have k: "unat (of_nat k :: u64) = k" using assms(5) by (simp add: unsigned_of_nat take_bit_nat_eq_self)
  obtain b1 where r: "PAddr_ReadBuffer_MMIOBus_API bus (xb x) a (of_nat k) = Inr (MEMU_OK, Some (load_bytes (byte (xb x)) a k), b1)"
    using memory_read [of "xb x" a "of_nat k"] assms(2,4) by (auto simp: k)
  have f: "byte b1 = byte (xb x)" by (rule read_frame [OF assms(2) r])
  let ?x = "x\<lparr>xb := b1\<rparr>"
  have "started ?x" using assms(1) by (simp add: started_def)
  have "load_to bus a (of_nat k) conv (unat rd) x = set_rd (unat rd) (conv (load_bytes (byte (xb x)) a k)) ?x"
    using assms(1,3) by (simp add: load_to_def memRead_def VAddr_ReadBuffer_MMU_API_def r started_def initialised_def)
  then show ?thesis
    using completes_put [OF \<open>started ?x\<close>, of rd "conv (load_bytes (byte (xb x)) a k)" byte n] f
    by (simp add: rv_abs_def)
qed

lemma store_completes:
  assumes "started x" "binv (xb x)" "a mod of_nat (length bs) = 0" "memory a (length bs)"
  shows "returnsR (memWrite bus a bs x) (completes byte n (xc x)
    (rv_jump (xpc x + n) (rv_store a bs (rv_abs byte (xc x) (xb x)))))"
proof -
  obtain b1 where w: "PAddr_WriteBuffer_MMIOBus_API bus (xb x) a bs = Inr (MEMU_OK, b1)" "byte b1 = store_bytes (byte (xb x)) a bs"
    using memory_write [OF assms(2,4)] by blast
  then have "memWrite bus a bs x = Inr (x\<lparr>xb := b1\<rparr>)"
    using assms(1,3) by (simp add: memWrite_def VAddr_WriteBuffer_MMU_API_def started_def)
  then show ?thesis
    using assms(1) w(2) by (simp add: completes_def rv_after_def rv_abs_def rv_jump_def rv_store_def started_def same_control_def)
qed

lemma lr_completes:
  assumes "started x" "binv (xb x)" "rv_aligned memory (xgpr x (unat rs1)) (atomic_size d)"
  shows "returnsR (exec_32 bus (rv_encode (LR d order rd rs1)) x)
    (completes byte n (xc x) (rv_exec n (LR d order rd rs1) (rv_abs byte (xc x) (xb x))))"
proof -
  let ?a = "xgpr x (unat rs1)"
  have sz: "unat (amo_size d) = atomic_size d" by (simp add: amo_size_def atomic_size_def)
  obtain b1 where r: "PAddr_ReadBuffer_MMIOBus_API bus (xb x) ?a (amo_size d) =
      Inr (MEMU_OK, Some (load_bytes (byte (xb x)) ?a (atomic_size d)), b1)"
    using memory_read [of "xb x" ?a "amo_size d"] assms(2,3) by (auto simp: sz rv_aligned_def)
  have f: "byte b1 = byte (xb x)" by (rule read_frame [OF assms(2) r])
  let ?m = "reserve (core_env (xc x)) ?a (amo_size d) (sv39MMU (xc x))"
  have ok: "mmu_ok (core_env (xc x)) ?m" using started_ok [OF assms(1)] by (simp add: mmu_ok_def reserve_def mmu_wf_def)
  have "exec_32 bus (rv_encode (LR d order rd rs1)) x =
      set_rd (unat rd) (atomic_value d (load_bytes (byte (xb x)) ?a (atomic_size d))) (x\<lparr>xc := (xc x)\<lparr>sv39MMU := ?m\<rparr>, xb := b1\<rparr>)"
    using assms(1) by (simp add: encoded_lr vaddrLoadReserved_def r started_def Let_def initialised_def del: rv_encode.simps)
  then show ?thesis
    using completes_atomic [OF assms(1) ok, of rd _ b1 byte n] f sz
    by (simp add: rv_abs_mmu del: rv_encode.simps) (simp add: rv_abs_def reserve_def)
qed

lemma reserved_abs:
  assumes "started x"
  shows "reserved (core_env (xc x)) a (amo_size d) (sv39MMU (xc x)) \<longleftrightarrow>
    rv_resv (rv_abs byte (xc x) b) = Some (a, atomic_size d)"
proof -
  have "lr_valid (sv39MMU (xc x)) \<Longrightarrow> lr_hart (sv39MMU (xc x)) = env_hart (core_env (xc x))"
    using started_ok [OF assms] by (simp add: mmu_ok_def)
  then show ?thesis
    by (auto simp: reserved_def rv_abs_def amo_size_def atomic_size_def word_unat_eq_iff)
qed

lemma sc_completes:
  assumes "started x" "binv (xb x)" "rv_aligned memory (xgpr x (unat rs1)) (atomic_size d)"
  shows "returnsR (exec_32 bus (rv_encode (SC d order rd rs1 rs2)) x)
    (completes byte n (xc x) (rv_exec n (SC d order rd rs1 rs2) (rv_abs byte (xc x) (xb x))))"
proof -
  let ?a = "xgpr x (unat rs1)" and ?bs = "to_bytes (atomic_size d) (xgpr x (unat rs2))" and ?m = "sv39MMU (xc x)"
  have sz: "word_of_nat (atomic_size d) = amo_size d" by (simp add: amo_size_def atomic_size_def)
  have bare: "bare_access (core_env (xc x))" using assms(1) by (simp add: started_def)
  note ok = started_ok [OF assms(1)]
  show ?thesis
  proof (cases "reserved (core_env (xc x)) ?a (amo_size d) ?m")
    case True
    obtain b1 where w: "PAddr_WriteBuffer_MMIOBus_API bus (xb x) ?a ?bs = Inr (MEMU_OK, b1)"
      "byte b1 = store_bytes (byte (xb x)) ?a ?bs"
      using memory_write [of "xb x" ?a ?bs] assms(2,3) by (auto simp: rv_aligned_def)
    have ok1: "mmu_ok (core_env (xc x)) (?m\<lparr>lr_valid := False\<rparr>)" using ok by (simp add: mmu_ok_def)
    have "exec_32 bus (rv_encode (SC d order rd rs1 rs2)) x =
        set_rd (unat rd) 0 (x\<lparr>xc := (xc x)\<lparr>sv39MMU := ?m\<lparr>lr_valid := False\<rparr>\<rparr>, xb := b1\<rparr>)"
      using bare True w(1) by (simp add: encoded_sc vaddrStoreConditional_def sz Let_def initialised_def del: rv_encode.simps)
    then show ?thesis
      using completes_atomic [OF assms(1) ok1, of rd 0 b1 byte n] True w(2)
      by (simp add: rv_abs_mmu reserved_abs [OF assms(1), of _ _ "xb x"] del: rv_encode.simps)
        (simp add: rv_abs_def rv_store_def)
  next
    case False
    let ?d = "drop_reservation (core_env (xc x)) ?m"
    have ok1: "mmu_ok (core_env (xc x)) ?d" "\<not> lr_valid ?d" using ok by (auto simp: mmu_ok_def drop_reservation_def)
    have "exec_32 bus (rv_encode (SC d order rd rs1 rs2)) x =
        set_rd (unat rd) 1 (x\<lparr>xc := (xc x)\<lparr>sv39MMU := ?d\<rparr>, xb := xb x\<rparr>)"
      using bare False by (simp add: encoded_sc vaddrStoreConditional_def sz Let_def initialised_def del: rv_encode.simps)
    then show ?thesis
      using completes_atomic [OF assms(1) ok1(1), of rd 1 "xb x" byte n] False ok1(2)
      by (simp add: rv_abs_mmu reserved_abs [OF assms(1), of _ _ "xb x"] del: rv_encode.simps)
        (simp add: rv_abs_def)
  qed
qed

lemma amo_completes:
  assumes "started x" "binv (xb x)" "rmw_op op" "rv_aligned memory (xgpr x (unat rs1)) (atomic_size d)"
    and "d \<or> \<not> order_op op \<or> scast (ucast (xgpr x (unat rs2)) :: u32) = xgpr x (unat rs2)"
  shows "returnsR (exec_32 bus (rv_encode (AMO d op order rd rs1 rs2)) x)
    (completes byte n (xc x) (rv_exec n (AMO d op order rd rs1 rs2) (rv_abs byte (xc x) (xb x))))"
proof -
  let ?a = "xgpr x (unat rs1)" and ?src = "xgpr x (unat rs2)" and ?m = "sv39MMU (xc x)"
  let ?old = "load_bytes (byte (xb x)) ?a (atomic_size d)"
  have sz: "unat (amo_size d) = atomic_size d" by (simp add: amo_size_def atomic_size_def)
  have bare: "bare_access (core_env (xc x))" using assms(1) by (simp add: started_def)
  obtain b1 where r: "PAddr_ReadBuffer_MMIOBus_API bus (xb x) ?a (amo_size d) = Inr (MEMU_OK, Some ?old, b1)"
    using memory_read [of "xb x" ?a "amo_size d"] assms(2,4) by (auto simp: sz rv_aligned_def)
  have b1: "byte b1 = byte (xb x)" "binv b1" by (rule read_frame [OF assms(2) r], rule bus_read_inv [OF assms(2) r])
  have res: "length (atomic_result d op ?src ?old) = atomic_size d" by (simp add: atomic_result_def atomic_size_def)
  obtain b2 where w: "PAddr_WriteBuffer_MMIOBus_API bus b1 ?a (atomic_result d op ?src ?old) = Inr (MEMU_OK, b2)"
    "byte b2 = store_bytes (byte (xb x)) ?a (atomic_result d op ?src ?old)"
    using memory_write [OF b1(2), of ?a "atomic_result d op ?src ?old"] assms(4) by (auto simp: res b1(1) rv_aligned_def)
  have tw: "\<exists>v. amo_to_write op ?src (atomic_value d ?old) = Inr v \<and> to_bytes (atomic_size d) v = atomic_result d op ?src ?old"
  proof (cases d)
    case True
    then show ?thesis
      using amo_to_write_64 [OF assms(3), of ?src] by (simp add: atomic_value_def atomic_size_def atomic_result_def)
  next
    case False
    then show ?thesis
      using amo_low [OF assms(3), of ?src "of_bytes ?old"] assms(5)
      by (auto simp: atomic_value_def atomic_size_def atomic_result_def to_bytes_ucast)
  qed
  have "vaddrAtomicMemOperation bus (core_env (xc x)) ?m (xb x) ?a (amo_size d) op ?src =
      Inr (exec_ok, Some (atomic_value d ?old), ?m, b2)"
    using tw w(1) bare r
    by (cases d) (auto simp: vaddrAtomicMemOperation_def pa_amo_op_def initialised_def amo_size_def atomic_value_def atomic_size_def Let_def)
  then have "exec_32 bus (rv_encode (AMO d op order rd rs1 rs2)) x =
      set_rd (unat rd) (atomic_value d ?old) (x\<lparr>xc := (xc x)\<lparr>sv39MMU := ?m\<rparr>, xb := b2\<rparr>)"
    using assms(3) by (simp add: encoded_amo Let_def initialised_def del: rv_encode.simps)
  then show ?thesis
    using completes_atomic [OF assms(1) started_ok [OF assms(1)], of rd "atomic_value d ?old" b2 byte n] w(2)
    by (simp add: Let_def rv_abs_def rv_store_def gpr_def del: rv_encode.simps)
qed

lemma exec_completes:
  assumes "started x" "binv (xb x)" "rv_valid i" "rv_allowed memory i (rv_abs byte (xc x) (xb x))" "rv_links i \<Longrightarrow> n = 4"
  shows "returnsR (exec_32 bus (rv_encode i) x) (completes byte n (xc x) (rv_exec n i (rv_abs byte (xc x) (xb x))))"
proof -
  note put = completes_put [OF assms(1), of _ _ byte n]
  have abs: "rv_x (rv_abs byte (xc x) (xb x)) r = xgpr x (unat r)" "rv_pc (rv_abs byte (xc x) (xb x)) = xpc x"
    "rv_mem (rv_abs byte (xc x) (xb x)) = byte (xb x)" for r
    by (simp_all add: rv_abs_def)
  have pc: "\<not> bit (xpc x) 0" using assms(1) by (simp add: started_def)
  show ?thesis
  proof (cases i)
    case (LUI rd imm)
    then show ?thesis using put by (simp add: encoded_upper abs del: rv_encode.simps)
  next
    case (AUIPC rd imm)
    then show ?thesis using put by (simp add: encoded_upper abs add.commute del: rv_encode.simps)
  next
    case (JAL rd off)
    then show ?thesis using jump_completes [OF assms(1), of rd n] assms(5) pc
      by (simp add: encoded_jump abs del: rv_encode.simps)
  next
    case (JALR rd rs1 imm)
    then show ?thesis using jump_completes [OF assms(1), of rd n] assms(4,5)
      by (simp add: encoded_jalr abs del: rv_encode.simps)
  next
    case (BRANCH cond rs1 rs2 off)
    then show ?thesis using fall_completes [OF assms(1), of byte n] taken_completes [OF assms(1), of byte n] pc
      by (simp add: encoded_branch abs del: rv_encode.simps)
  next
    case (LOAD op rd rs1 imm)
    moreover have "load_size op < 2 ^ 64" by (cases op) simp_all
    ultimately show ?thesis
      using load_completes [OF assms(1,2)] assms(4) by (simp add: encoded_load abs rv_aligned_def del: rv_encode.simps)
  next
    case (STORE op rs1 rs2 imm)
    then show ?thesis
      using store_completes [OF assms(1,2)] assms(4) by (simp add: encoded_store abs rv_aligned_def del: rv_encode.simps)
  next
    case (OPIMM op rd rs1 imm)
    then show ?thesis using put assms(3) by (subst OPIMM, subst encoded_imm) (auto simp: alu_value abs)
  next
    case (SHIFT op rd rs1 shamt)
    then show ?thesis
      using put assms(3) by (auto simp: encoded_shift alu_value abs rv_shift_def simp del: rv_encode.simps)
  next
    case (ADDIW rd rs1 imm)
    then show ?thesis using put by (simp add: encoded_imm alu_value abs op32_ok_def del: rv_encode.simps)
  next
    case (SHIFTW op rd rs1 shamt)
    then show ?thesis
      using put assms(3) by (auto simp: encoded_shiftw alu_value abs rv_shift_def op32_ok_def simp del: rv_encode.simps)
  next
    case (OP op rd rs1 rs2)
    then show ?thesis using put assms(3) by (simp add: encoded_op alu_value abs del: rv_encode.simps)
  next
    case (OPW op rd rs1 rs2)
    then show ?thesis using put assms(3) by (simp add: encoded_opw alu_value abs del: rv_encode.simps)
  next
    case (FENCE imm)
    then show ?thesis using fall_completes [OF assms(1), of byte n] by (simp add: encoded_fence abs del: rv_encode.simps)
  next
    case (LR d order rd rs1)
    then show ?thesis using lr_completes [OF assms(1,2), of rs1 d order rd n] assms(4) by (simp add: abs del: rv_encode.simps rv_exec.simps)
  next
    case (SC d order rd rs1 rs2)
    then show ?thesis using sc_completes [OF assms(1,2), of rs1 d order rd rs2 n] assms(4) by (simp add: abs del: rv_encode.simps rv_exec.simps)
  next
    case (AMO d op order rd rs1 rs2)
    then show ?thesis
      using amo_completes [OF assms(1,2), of op rs1 d rs2 order rd n] assms(3,4) by (simp add: abs del: rv_encode.simps rv_exec.simps)
  qed
qed

end

section \<open>Steps\<close>

lemma encode_opcode:
  "bget f_opcode (rv_encode i) AND 3 = 3"
  "bget f_opcode (rv_encode i) = RV64I_OpCode_val OPCODE_JALR \<Longrightarrow> \<exists>rd rs1 imm. i = JALR rd rs1 imm"
  by (cases i; simp add: asm_fields)+

lemma links_field:
  "rv_links i \<Longrightarrow> bget f_opcode (rv_encode i) \<in> {RV64I_OpCode_val OPCODE_JAL, RV64I_OpCode_val OPCODE_JALR} \<and>
     reg f_rd (rv_encode i) \<noteq> 0"
  by (cases i) (simp_all add: asm_fields asm_regs reg_zero)

lemma expand_links:
  "rvc_expand w = Some i32 \<Longrightarrow> bget f_opcode i32 \<in> {RV64I_OpCode_val OPCODE_JAL, RV64I_OpCode_val OPCODE_JALR} \<Longrightarrow>
   reg f_rd i32 = 0"
  by (auto simp: rvc_expand_def expand_q0_def expand_q1_def expand_q2_def expand_alu_def Let_def asm_fields asm_regs
      split: if_splits dest!: map_of_SomeD)

lemma decodes_form: "rv_decodes w i n \<Longrightarrow> is_compressed w \<longleftrightarrow> n = 2"
proof (erule rv_decodesE)
  assume "n = 4" "w = rv_encode i"
  then show ?thesis by (simp add: is_compressed_def encode_opcode)
next
  have three: "(3 :: u32) = mask 2" by (simp add: mask_eq_exp_minus_1)
  have low: "bget f_opcode w AND 3 = bget (0, 2) w"
    unfolding three by (rule bit_word_eqI) (auto simp: bit_simps bit_bget f_opcode_def)
  assume "n = 2" "rvc_expand w = Some (rv_encode i)"
  then show ?thesis by (auto simp: is_compressed_def rvc_expand_def low split: if_splits)
qed

lemma finish_completes:
  assumes "completes byte n c s x" "core_wf c" "n = (if cmp then 2 else 4)"
  shows "returnsR (step_finish inst cmp x) (\<lambda>(c', b'). rv_abs byte c' b' = s \<and> same_control c c' \<and> minstret c' = minstret c + 1)"
  using assms blank_fields [OF assms(2)]
  by (auto simp: step_finish_def completes_def rv_after_def rv_jump_def rv_abs_def gpr_def same_control_def Let_def)

text \<open>A run of the core on a bus; before every step the interrupt lines take arbitrary values.\<close>

fun core_run :: "'b bus_ops \<Rightarrow> IntStatus list \<Rightarrow> core \<times> 'b \<Rightarrow> (core \<times> 'b) res" where
  "core_run bus [] s = Inr s"
| "core_run bus (i # irqs) (c, b) = bindR (Step_CoreAPI bus (c\<lparr>intStatus := i\<rparr>) b) (core_run bus irqs)"

text \<open>Memory is divisible: the fetch of a misaligned instruction reads it in halves.\<close>

locale program_memory = memory_bus bus binv byte memory
  for bus :: "'b bus_ops" and binv and byte :: "'b \<Rightarrow> u64 \<Rightarrow> u8" and memory +
  assumes memory_part: "memory a n \<Longrightarrow> j + k \<le> n \<Longrightarrow> memory (a + of_nat j) k"
begin

lemma part_fetched:
  assumes "binv b" "memory a (unat n)" "env_priv e = M_MODE \<or> bget satp_mode (env_satp e) = 0" "\<not> bit a 0"
  obtains b1 where "inst_fetch_part bus e m b a n buf = Inr (INST_ACCESS_OK, load_bytes (byte b) a (unat n), m, b1)"
    "binv b1" "byte b1 = byte b"
proof -
  obtain b1 where r: "PAddr_ReadBuffer_MMIOBus_API bus b a n = Inr (MEMU_OK, Some (load_bytes (byte b) a (unat n)), b1)"
    using memory_read [OF assms(1,2)] by blast
  have "a mod 2 = 0" using assms(4) by (simp add: bit_0 mod_2_eq_odd)
  then have "inst_fetch_part bus e m b a n buf = Inr (INST_ACCESS_OK, load_bytes (byte b) a (unat n), m, b1)"
    using assms(3) by (auto simp: inst_fetch_part_def r)
  moreover have "binv b1" by (rule bus_read_inv [OF assms(1) r])
  moreover have "byte b1 = byte b" by (rule read_frame [OF assms(1) r])
  ultimately show thesis by (rule that)
qed

lemma instruction_fetched:
  assumes "binv b" "memory a 4" "env_priv e = M_MODE \<or> bget satp_mode (env_satp e) = 0" "\<not> bit a 0" "length buf = 4"
  obtains b1 where "VAddr_InstFetch_MMU_API bus e m b a 4 buf = Inr (INST_ACCESS_OK, load_bytes (byte b) a 4, m, b1)"
    "binv b1" "byte b1 = byte b"
proof (cases "a mod 4 = 2")
  case True
  have h: "memory a (unat (2 :: u64))" "memory (a + 2) (unat (2 :: u64))"
    using memory_part [OF assms(2), of 0 2] memory_part [OF assms(2), of 2 2] by simp_all
  obtain b1 where b1: "inst_fetch_part bus e m b a 2 (take 2 buf) = Inr (INST_ACCESS_OK, load_bytes (byte b) a 2, m, b1)"
    "binv b1" "byte b1 = byte b"
    using part_fetched [OF assms(1) h(1) assms(3,4)] by auto
  have "\<not> bit (a + 2) 0" using assms(4) by (simp add: bit_0)
  then obtain b2 where b2: "inst_fetch_part bus e m b1 (a + 2) 2 (drop 2 buf) = Inr (INST_ACCESS_OK, load_bytes (byte b) (a + 2) 2, m, b2)"
    "binv b2" "byte b2 = byte b"
    using part_fetched [OF b1(2) h(2) assms(3)] b1(3) by auto
  have "load_bytes (byte b) a 2 @ load_bytes (byte b) (a + 2) 2 = load_bytes (byte b) a 4"
    by (simp add: load_bytes_def upt_rec numeral_eq_Suc add.assoc)
  then have "VAddr_InstFetch_MMU_API bus e m b a 4 buf = Inr (INST_ACCESS_OK, load_bytes (byte b) a 4, m, b2)"
    using True b1(1) b2(1) by (simp add: VAddr_InstFetch_MMU_API_def)
  then show thesis using that b2(2,3) by blast
next
  case False
  have "memory a (unat (4 :: u64))" using assms(2) by simp
  then show thesis
    using part_fetched [OF assms(1) _ assms(3,4), of 4 m buf] that False by (auto simp: VAddr_InstFetch_MMU_API_def)
qed

lemma decoded_executes:
  assumes "rv_decodes w i n" "started x" "binv (xb x)" "rv_allowed memory i (rv_abs byte (xc x) (xb x))"
  shows "returnsR (if is_compressed w then exec_C bus w x else exec_32 bus w x)
    (completes byte n (xc x) (rv_exec n i (rv_abs byte (xc x) (xb x))))"
  using assms(1)
proof cases
  case full
  then show ?thesis
    using exec_completes [OF assms(2,3) _ assms(4), of n] decodes_form [OF assms(1)] by simp
next
  case compressed
  have "\<not> bit (xgpr x (reg f_rs1 (rv_encode i))) 0" if "bget f_opcode (rv_encode i) = RV64I_OpCode_val OPCODE_JALR"
    using encode_opcode(2) [OF that] assms(4) by (auto simp: asm_regs rv_abs_def)
  then have "exec_C bus w x = exec_32 bus (rv_encode i) x"
    using compressed(2) assms(2) by (intro exec_C_expands) (simp_all add: started_def)
  moreover have "\<not> rv_links i" using links_field expand_links [OF compressed(2)] by blast
  ultimately show ?thesis
    using exec_completes [OF assms(2,3) compressed(3) assms(4), of n] decodes_form [OF assms(1)] compressed(1) by simp
qed

lemma step_refines:
  assumes "core_wf c" "binv b" "untranslated c" "masked c" "rv_step memory (rv_abs byte c b) s'"
  shows "returnsR (Step_CoreAPI bus c b) (\<lambda>(c', b'). rv_abs byte c' b' = s' \<and> same_control c c' \<and>
    minstret c' = minstret c + 1 \<and> core_wf c' \<and> binv b')"
proof -
  let ?c = "preExec_update c" and ?s = "rv_abs byte c b"
  obtain i n where m: "memory (rv_pc ?s) 4" "\<not> bit (rv_pc ?s) 0" "rv_decodes (rv_fetch ?s) i n" "rv_allowed memory i ?s"
    "s' = rv_exec n i ?s"
    using rv_stepE [OF assms(5)] by metis
  have quiet: "\<not> takes_interrupt ?c" by (rule masked_quiet [OF assms(4)])
  have pre: "preExec c = Inr ?c" using preExec_spec [OF assms(1)] quiet by (cases "preExec c") auto
  have f: "currentPrivMode ?c = nextPrivMode c" "satp ?c = satp c" "status ?c = status c" "\<not> needTrap ?c"
    "currentProgramCounter ?c = rv_pc ?s" "minstret ?c = minstret c" "same_control c0 ?c = same_control c0 c"
    "same_control ?c c1 = same_control c c1" "rv_abs byte ?c b1 = rv_abs byte c b1" for b1 c0 c1
    by (simp_all add: preExec_update_def rv_abs_def same_control_def gpr_def)
  have e: "env_priv (core_env ?c) = M_MODE \<or> bget satp_mode (env_satp (core_env ?c)) = 0"
    using assms(3) by (auto simp: untranslated_def core_env_def f)
  have wf: "core_wf ?c" using core_wf_preExec [OF assms(1)] by (simp add: pre)
  obtain b1 where b1: "VAddr_InstFetch_MMU_API bus (core_env ?c) (sv39MMU ?c) b (rv_pc ?s) 4 [0, 0, 0, 0] =
      Inr (INST_ACCESS_OK, load_bytes (byte b) (rv_pc ?s) 4, sv39MMU ?c, b1)" "binv b1" "byte b1 = byte b"
    using instruction_fetched [OF assms(2) m(1) e m(2), of "[0, 0, 0, 0]" "sv39MMU ?c"] by auto
  let ?x = "\<lparr>xc = ?c, xb = b1, is_new_pc_set = False, is_instr_illegal = False\<rparr>" and ?w = "rv_fetch ?s"
  have s: "rv_abs byte ?c b1 = ?s" using b1(3) f(9) by (simp add: rv_abs_def)
  have st: "started ?x"
    using wf assms(3) m(2) f by (auto simp: started_def bare_access_def untranslated_def core_env_def)
  have ex: "returnsR (if is_compressed ?w then exec_C bus ?w ?x else exec_32 bus ?w ?x) (completes byte n ?c s')"
    using decoded_executes [OF m(3) st] b1(2) m(4,5) s by simp
  have pc: "rv_pc ?s mod PC_ALIGN = 0" using m(2) by (simp add: PC_ALIGN_def bit_0 mod_2_eq_odd)
  have w: "of_bytes (load_bytes (byte b) (rv_pc ?s) 4) = ?w" by (simp add: rv_fetch_def rv_abs_def)
  have step: "Step_CoreAPI bus c b = bindR (if is_compressed ?w then exec_C bus ?w ?x else exec_32 bus ?w ?x)
      (step_finish ?w (is_compressed ?w))"
    by (simp add: Step_CoreAPI_def pre f pc b1(1) w Let_def)
  have "n = (if is_compressed ?w then 2 else 4)"
    using m(3) decodes_form [OF m(3)] by (auto elim: rv_decodes.cases)
  then have "returnsR (Step_CoreAPI bus c b) (\<lambda>(c', b'). rv_abs byte c' b' = s' \<and> same_control ?c c' \<and> minstret c' = minstret ?c + 1)"
    unfolding step by (intro returns_then [OF ex] finish_completes wf) assumption
  then show ?thesis
    using Step_inv [OF assms(1,2)] f by (cases "Step_CoreAPI bus c b") auto
qed

lemma run_refines:
  assumes "core_wf c" "binv b" "untranslated c" "masked c" "(rv_step memory ^^ length irqs) (rv_abs byte c b) s'"
  shows "returnsR (core_run bus irqs (c, b)) (\<lambda>(c', b'). rv_abs byte c' b' = s' \<and> same_control c c' \<and>
    minstret c' = minstret c + of_nat (length irqs) \<and> core_wf c' \<and> binv b')"
  using assms
proof (induction irqs arbitrary: c b)
  case Nil
  then show ?case by (simp add: same_control_def)
next
  case (Cons i irqs)
  let ?c = "c\<lparr>intStatus := i\<rparr>"
  have f: "core_wf ?c" "untranslated ?c" "masked ?c" "rv_abs byte ?c b = rv_abs byte c b" "minstret ?c = minstret c"
    "same_control ?c c' = same_control c c'" for c'
    using Cons.prems(1,3,4)
    by (simp_all add: core_wf_def untranslated_def masked_def rv_abs_def gpr_def same_control_def fun_eq_iff)
  obtain s1 where s1: "rv_step memory (rv_abs byte ?c b) s1" "(rv_step memory ^^ length irqs) s1 s'"
    using relpowp_Suc_D2 [of "length irqs"] Cons.prems(5) f(4) by fastforce
  obtain c1 b1 where st: "Step_CoreAPI bus ?c b = Inr (c1, b1)" and c1: "rv_abs byte c1 b1 = s1" "same_control c c1"
    "minstret c1 = minstret c + 1" "core_wf c1" "binv b1"
    using step_refines [OF f(1) Cons.prems(2) f(2,3) s1(1)] by (auto simp: returnsR_iff f)
  have "untranslated c1" "masked c1" using same_control_keeps [OF c1(2)] Cons.prems(3,4) by simp_all
  then have "returnsR (core_run bus irqs (c1, b1)) (\<lambda>(c', b'). rv_abs byte c' b' = s' \<and> same_control c1 c' \<and>
      minstret c' = minstret c1 + of_nat (length irqs) \<and> core_wf c' \<and> binv b')"
    using Cons.IH [OF c1(4,5)] s1(2) c1(1) by simp
  then show ?case
    using c1(2,3) by (auto simp: st same_control_def elim!: returnsR_mono)
qed

end

section \<open>Replaying a run\<close>

text \<open>A run given by its instructions and their lengths, as a computation.\<close>

fun rv_replay :: "(u64 \<Rightarrow> nat \<Rightarrow> bool) \<Rightarrow> (rv_inst \<times> u64) list \<Rightarrow> rv_state \<Rightarrow> rv_state option" where
  "rv_replay memory [] s = Some s"
| "rv_replay memory ((i, n) # run) s =
     (if memory (rv_pc s) 4 \<and> \<not> bit (rv_pc s) 0 \<and> rv_valid i \<and> rv_allowed memory i s \<and>
         (if n = 4 then rv_fetch s = rv_encode i else n = 2 \<and> rvc_expand (rv_fetch s) = Some (rv_encode i))
      then rv_replay memory run (rv_exec n i s) else None)"

lemma replay_steps:
  assumes "\<And>a k. part a k \<Longrightarrow> memory a k"
  shows "rv_replay part run s = Some s' \<Longrightarrow> (rv_step memory ^^ length run) s s'"
proof (induction run arbitrary: s)
  case (Cons r run)
  obtain i n where r: "r = (i, n)" by (cases r)
  have "rv_allowed part i s \<Longrightarrow> rv_allowed memory i s" by (cases i) (auto simp: assms rv_aligned_def)
  then have m: "memory (rv_pc s) 4" "rv_allowed memory i s"
    using Cons.prems assms by (auto simp: r split: if_splits)
  have "rv_decodes (rv_fetch s) i n" using Cons.prems by (auto simp: r intro: rv_decodes.intros split: if_splits)
  then have "rv_step memory s (rv_exec n i s)" using Cons.prems m by (intro rv_step.intros) (auto simp: r split: if_splits)
  moreover have "(rv_step memory ^^ length run) (rv_exec n i s) s'" using Cons by (auto simp: r split: if_splits)
  ultimately have "(rv_step memory ^^ Suc (length run)) s s'" by (rule relpowp_Suc_I2)
  then show ?case by simp
qed simp

end
