(* ===== verification/Board_Isa.thy ===== *)
theory Board_Isa
  imports Board_Memory RV64_Isa
begin

unbundle bit_operations_syntax

text \<open>
  Programs in the RAM of the board run as the abstract machine of \<open>RV64_Isa\<close>.
\<close>

lemma ram_part: "in_ram a n \<Longrightarrow> j + k \<le> n \<Longrightarrow> in_ram (a + of_nat j) k"
proof -
  assume a: "in_ram a n" and n: "j + k \<le> n"
  then have r: "RAM_BASE \<le> a" "unat (a - RAM_BASE) + n \<le> unat RAM_SIZE" by (simp_all add: in_ram_def)
  have "unat RAM_SIZE < 2 ^ 63" by (simp add: RAM_SIZE_def)
  moreover have "unat RAM_BASE < 2 ^ 63" by (simp add: RAM_BASE_def)
  moreover have "unat a \<le> unat RAM_BASE + unat (a - RAM_BASE)" using r(1) by (simp add: unat_sub word_le_nat_alt)
  ultimately have "unat (a - RAM_BASE + of_nat j) = unat (a - RAM_BASE) + j" "unat (a + of_nat j) = unat a + j"
    using r(2) n by (auto intro!: unat_offset)
  then show ?thesis using r n by (simp add: in_ram_def word_le_nat_alt algebra_simps)
qed

interpretation board_program: program_memory bus_table board_wf ram_byte in_ram
  by unfold_locales (rule ram_part)

section \<open>A program\<close>

text \<open>
  A loop at the start of the RAM: \<open>addi x5, x0, 42\<close>, \<open>auipc x10, 1\<close>, \<open>sd x5, 252(x10)\<close>, the compressed
  \<open>c.addi x5, 1\<close>, then, misaligned, \<open>amoadd.w x6, x5, (x10)\<close> and \<open>bne x5, x0, -18\<close>.
\<close>

definition demo_run :: "(rv_inst \<times> u64) list" where
  "demo_run = [(OPIMM ALU_ADD 5 0 42, 4), (AUIPC 10 1, 4), (STORE SD 10 5 252, 4), (OPIMM ALU_ADD 5 5 1, 2),
     (AMO False AMOADD 0 6 10 5, 4), (BRANCH BNE 5 0 (- 9), 4)]"

definition demo_ram :: "u64 \<Rightarrow> u8" where
  "demo_ram = store_bytes (\<lambda>_. 0) 0
     [0x93, 0x02, 0xa0, 0x02, 0x17, 0x15, 0, 0, 0x23, 0x3e, 0x55, 0x0e, 0x85, 0x02, 0x2f, 0x23, 0x55, 0,
      0xe3, 0x97, 0x02, 0xfe]"

definition demo_start :: rv_state where
  "demo_start = \<lparr>rv_x = (\<lambda>_. 0), rv_pc = 0x80000000, rv_mem = (\<lambda>x. demo_ram (x - RAM_BASE)), rv_resv = None\<rparr>"

definition low_ram :: "u64 \<Rightarrow> nat \<Rightarrow> bool" where
  "low_ram a n \<longleftrightarrow> RAM_BASE \<le> a \<and> a \<le> RAM_BASE + 0x2000 \<and> n \<le> 8"

lemma low_ram_in_ram: "low_ram a n \<Longrightarrow> in_ram a n"
proof -
  assume a: "low_ram a n"
  then have "unat (a - RAM_BASE) \<le> 0x2000" by (auto simp: low_ram_def RAM_BASE_def unat_sub word_le_nat_alt)
  then show ?thesis using a by (simp add: low_ram_def in_ram_def RAM_SIZE_def)
qed

lemma demo_replay:
  "case rv_replay low_ram demo_run demo_start of None \<Rightarrow> False
   | Some s \<Rightarrow> rv_x s 5 = 43 \<and> rv_pc s = 0x80000000 \<and> rv_mem s 0x80001100 = 42 \<and> rv_mem s 0x80001004 = 43"
  by code_simp

text \<open>The core starts in M-mode with no interrupt enabled.\<close>

lemma demo_core: "untranslated example_core" "masked example_core" "rv_abs ram_byte example_core (board_with demo_ram) = demo_start"
  by (simp_all add: untranslated_def masked_def rv_abs_def demo_start_def gpr_def fun_eq_iff board_with_byte reg_zero
      example_core_def core_reset_def bget_def example_mmu_def new_mmu_def)

section \<open>Property\<close>



end
