(* ===== verification/Regex.thy ===== *)
theory Regex
  imports Main
begin

text \<open>
  The part of the regular expressions of the C++ standard library (\<open>std::regex\<close>, ECMAScript
  grammar) that the packet classifier uses: classes, sequences, ordered alternatives, greedy
  repetition and lookahead. A match attempt at the start of a string gives the remainders it
  can leave, in the order in which backtracking tries them.
\<close>

section \<open>Expressions\<close>

datatype regex =
    Eps
  | Cls "(char \<times> char) list"
  | Dot
  | Sequ regex regex
  | Altn regex regex
  | Star regex
  | Ahead regex

definition in_ranges :: "(char \<times> char) list \<Rightarrow> char \<Rightarrow> bool" where
  "in_ranges rs c \<longleftrightarrow>
     (\<exists>(lo, hi) \<in> set rs. (of_char lo :: nat) \<le> of_char c \<and> (of_char c :: nat) \<le> of_char hi)"

definition is_terminator :: "char \<Rightarrow> bool" where
  "is_terminator c \<longleftrightarrow> c = CHR 0x0A \<or> c = CHR 0x0D"

abbreviation Plus :: "regex \<Rightarrow> regex" where "Plus r \<equiv> Sequ r (Star r)"
abbreviation Opt :: "regex \<Rightarrow> regex" where "Opt r \<equiv> Altn r Eps"
definition Lit :: "char \<Rightarrow> regex" where "Lit c = Cls [(c, c)]"

definition Str :: "string \<Rightarrow> regex" where
  "Str cs = foldr (\<lambda>c r. Sequ (Lit c) r) cs Eps"

function (sequential) remainders :: "regex \<Rightarrow> string \<Rightarrow> string list" where
  "remainders Eps s = [s]"
| "remainders (Cls rs) s = (case s of c # t \<Rightarrow> if in_ranges rs c then [t] else [] | [] \<Rightarrow> [])"
| "remainders Dot s = (case s of c # t \<Rightarrow> if is_terminator c then [] else [t] | [] \<Rightarrow> [])"
| "remainders (Sequ a b) s = concat (map (\<lambda>t. remainders b t) (remainders a s))"
| "remainders (Altn a b) s = remainders a s @ remainders b s"
| "remainders (Star a) s =
     concat (map (\<lambda>t. remainders (Star a) t) (filter (\<lambda>t. length t < length s) (remainders a s))) @ [s]"
| "remainders (Ahead a) s = (if remainders a s = [] then [] else [s])"
  by pat_completeness auto
termination by (relation "measures [\<lambda>(r, s). size r, \<lambda>(r, s). length s]") auto

text \<open>\<open>regex_match\<close>: the whole string.\<close>

definition regex_match :: "string \<Rightarrow> regex \<Rightarrow> bool" where
  "regex_match s r \<longleftrightarrow> [] \<in> set (remainders r s)"

text \<open>\<open>regex_search\<close>: the first match and what follows it.\<close>

fun regex_search :: "regex \<Rightarrow> string \<Rightarrow> (string \<times> string) option" where
  "regex_search r s =
     (case remainders r s of
        t # _ \<Rightarrow> Some (take (length s - length t) s, t)
      | [] \<Rightarrow> (case s of [] \<Rightarrow> None | _ # s' \<Rightarrow> regex_search r s'))"

declare regex_search.simps [simp del]

text \<open>
  \<open>sregex_iterator\<close>: the successive matches. The expressions of the stub never match the empty
  string, so the special treatment of empty matches is left out: the iteration ends there.
\<close>

function regex_matches :: "regex \<Rightarrow> string \<Rightarrow> string list" where
  "regex_matches r s =
     (case regex_search r s of
        None \<Rightarrow> []
      | Some (m, t) \<Rightarrow> m # (if length t < length s then regex_matches r t else []))"
  by pat_completeness auto
termination by (relation "measure (\<lambda>(r, s). length s)") auto

declare regex_matches.simps [simp del]

section \<open>Remainders of a repeated class\<close>

declare remainders.simps(6) [simp del]

lemma remainders_suffix: "t \<in> set (remainders r s) \<Longrightarrow> \<exists>p. s = p @ t"
proof (induction r s arbitrary: t rule: remainders.induct)
  case (4 a b s)
  then obtain u where u: "u \<in> set (remainders a s)" "t \<in> set (remainders b u)" by auto
  obtain p q where "s = p @ u" "u = q @ t" using 4(1) [OF u(1)] 4(2) [OF u(1) u(2)] by blast
  then show ?case by (intro exI [of _ "p @ q"]) simp
next
  case (6 a s)
  show ?case
  proof (cases "t = s")
    case False
    then obtain u where u: "u \<in> set (remainders a s)" "length u < length s" "t \<in> set (remainders (Star a) u)"
      using 6(3) by (subst (asm) remainders.simps(6)) auto
    obtain p where p: "s = p @ u" using 6(1) [OF u(1)] by blast
    have "u \<in> set (filter (\<lambda>t. length t < length s) (remainders a s))" using u(1,2) by simp
    then obtain q where "u = q @ t" using 6(2) [OF _ u(3)] by blast
    with p have "s = p @ u" "u = q @ t" by blast+
    then show ?thesis by (intro exI [of _ "p @ q"]) simp
  qed simp
qed (auto split: list.splits if_splits)

lemma Star_Cls:
  "remainders (Star (Cls rs)) s =
     (case s of c # t \<Rightarrow> if in_ranges rs c then remainders (Star (Cls rs)) t @ [s] else [s] | [] \<Rightarrow> [s])"
  by (simp add: remainders.simps(6) split: list.split)

lemma set_Star_Cls:
  "t \<in> set (remainders (Star (Cls rs)) s) \<longleftrightarrow> (\<exists>p. s = p @ t \<and> (\<forall>c \<in> set p. in_ranges rs c))"
proof (induction s)
  case Nil
  show ?case by (subst Star_Cls) simp
next
  case (Cons c s)
  have "(\<exists>p. c # s = p @ t \<and> (\<forall>c \<in> set p. in_ranges rs c)) \<longleftrightarrow>
      t = c # s \<or> in_ranges rs c \<and> (\<exists>q. s = q @ t \<and> (\<forall>c \<in> set q. in_ranges rs c))"
    by (auto simp: Cons_eq_append_conv intro: exI [of _ "c # q" for q])
  then show ?case by (subst Star_Cls) (simp add: Cons.IH)
qed

lemma hd_Star_Cls: "\<exists>ts. remainders (Star (Cls rs)) s = dropWhile (in_ranges rs) s # ts"
proof (induction s)
  case Nil
  show ?case by (subst Star_Cls) simp
next
  case (Cons c s)
  then show ?case by (subst Star_Cls) auto
qed

lemma Plus_Cls:
  "remainders (Plus (Cls rs)) s = (case s of c # t \<Rightarrow> if in_ranges rs c then remainders (Star (Cls rs)) t else [] | [] \<Rightarrow> [])"
  by (simp split: list.split)

lemma set_Plus_Cls:
  "t \<in> set (remainders (Plus (Cls rs)) s) \<longleftrightarrow> (\<exists>p. s = p @ t \<and> p \<noteq> [] \<and> (\<forall>c \<in> set p. in_ranges rs c))"
proof (cases s)
  case (Cons c s')
  have "(\<exists>p. c # s' = p @ t \<and> p \<noteq> [] \<and> (\<forall>c \<in> set p. in_ranges rs c)) \<longleftrightarrow>
      in_ranges rs c \<and> (\<exists>q. s' = q @ t \<and> (\<forall>c \<in> set q. in_ranges rs c))"
    by (auto simp: Cons_eq_append_conv intro: exI [of _ "c # q" for q])
  then show ?thesis by (simp only: Cons Plus_Cls list.case set_Star_Cls if_distrib [of set]) (simp add: set_Star_Cls)
qed (simp add: Plus_Cls)

lemma match_Sequ: "t \<in> set (remainders (Sequ a b) s) \<longleftrightarrow> (\<exists>u \<in> set (remainders a s). t \<in> set (remainders b u))"
  by auto

lemma set_Str: "t \<in> set (remainders (Str cs) s) \<longleftrightarrow> s = cs @ t"
proof (induction cs arbitrary: s)
  case Nil
  then show ?case by (auto simp: Str_def)
next
  case (Cons c cs)
  have "(of_char a :: nat) = of_char c \<longleftrightarrow> a = c" for a c :: char by simp
  with Cons show ?case
    by (cases s) (auto simp: Str_def Lit_def in_ranges_def simp flip: order.eq_iff)
qed

section \<open>The runs of a class in a string\<close>

lemma search_none: "\<forall>c \<in> set s. \<not> in_ranges rs c \<Longrightarrow> regex_search (Plus (Cls rs)) s = None"
  by (induction s) (simp_all add: regex_search.simps Plus_Cls del: remainders.simps)

lemma search_skip:
  "\<not> in_ranges rs c \<Longrightarrow> regex_search (Plus (Cls rs)) (c # s) = regex_search (Plus (Cls rs)) s"
  by (subst regex_search.simps) (simp add: Plus_Cls del: remainders.simps)

lemma search_run:
  assumes "p \<noteq> []" "\<forall>c \<in> set p. in_ranges rs c" "s = [] \<or> \<not> in_ranges rs (hd s)"
  shows "regex_search (Plus (Cls rs)) (p @ s) = Some (p, s)"
proof -
  obtain c q where p: "p = c # q" using assms(1) by (cases p) auto
  obtain ts where "remainders (Star (Cls rs)) (q @ s) = dropWhile (in_ranges rs) (q @ s) # ts"
    using hd_Star_Cls by metis
  moreover have "dropWhile (in_ranges rs) (q @ s) = s"
    using assms(2,3) p by (cases s) (auto simp: dropWhile_append)
  ultimately show ?thesis
    using assms(2) p by (subst regex_search.simps) (simp add: Plus_Cls del: remainders.simps)
qed

lemma matches_nil: "regex_matches (Plus (Cls rs)) [] = []"
  by (simp add: regex_matches.simps search_none)

lemma search_shorter:
  assumes "regex_search (Plus (Cls rs)) s = Some (m, t)"
  shows "length t < length s"
  using assms
proof (induction s)
  case Nil
  then show ?case by (simp add: search_none)
next
  case (Cons c s)
  show ?case
  proof (cases "in_ranges rs c")
    case True
    obtain ts where "remainders (Star (Cls rs)) s = dropWhile (in_ranges rs) s # ts" using hd_Star_Cls by metis
    with Cons.prems True show ?thesis
      by (subst (asm) regex_search.simps) (auto simp: Plus_Cls less_Suc_eq_le length_dropWhile_le simp del: remainders.simps)
  next
    case False
    with Cons show ?thesis by (simp add: search_skip)
  qed
qed

lemma matches_skip:
  "\<not> in_ranges rs c \<Longrightarrow> regex_matches (Plus (Cls rs)) (c # s) = regex_matches (Plus (Cls rs)) s"
  by (subst (1 2) regex_matches.simps) (auto simp: search_skip dest: search_shorter split: option.split)

lemma matches_run:
  assumes "p \<noteq> []" "\<forall>c \<in> set p. in_ranges rs c" "s = [] \<or> \<not> in_ranges rs (hd s)"
  shows "regex_matches (Plus (Cls rs)) (p @ s) = p # regex_matches (Plus (Cls rs)) s"
  using assms(1) by (subst regex_matches.simps) (simp add: search_run [OF assms])

end
