(* ===== verification/Gdb_Rsp.thy ===== *)
theory Gdb_Rsp
  imports Prelude Regex
begin

text \<open>
  The packets of the GDB remote serial protocol: \<open>src/gdb_stub/gdb_rsp.cpp\<close> and
  \<open>include/sdk/gdb_stub/gdb_rsp.h\<close>. Characters are eight-bit \<open>char\<close> values.
\<close>

section \<open>Packet types\<close>

datatype GDB_RSP_PacketType_e =
    CMD_UNKNOWN
  | CMD_MEM_READ
  | CMD_MEM_WRITE
  | CMD_REG_READ_INDEX
  | CMD_REG_WRITE_INDEX
  | CMD_REG_READ_ALL
  | CMD_REG_WRITE_ALL
  | CMD_Q_TRACE_STATUS
  | CMD_QUERY_HALT_REASON
  | CMD_SINGLE_STEP
  | CMD_INSERT_BREAKPOINT
  | CMD_REMOVE_BREAKPOINT
  | CMD_CONTINUE
  | CMD_SPECIFY_THREAD_FOR_G
  | CMD_SPECIFY_THREAD_FOR_C
  | CMD_Q_ATTACHED
  | CMD_Q_SUPPORTED
  | CMD_Q_THREAD_INFO
  | EMPTY_PACKET

record GDB_RSP_Packet =
  packetType :: GDB_RSP_PacketType_e
  cmd :: string
  paramList :: "string list"

definition PACKET_BEGIN_CHAR :: char where "PACKET_BEGIN_CHAR = CHR ''$''"
definition PACKET_END_CHAR :: char where "PACKET_END_CHAR = CHR ''#''"
definition ACK_PACKET_DATA :: string where "ACK_PACKET_DATA = ''+''"
definition NAK_PACKET_DATA :: string where "NAK_PACKET_DATA = ''-''"

section \<open>The table of expressions\<close>

definition hex_ranges :: "(char \<times> char) list" where
  "hex_ranges = [(CHR ''0'', CHR ''9''), (CHR ''A'', CHR ''F''), (CHR ''a'', CHR ''f'')]"

definition word_ranges :: "(char \<times> char) list" where
  "word_ranges = [(CHR ''a'', CHR ''z''), (CHR ''A'', CHR ''Z''), (CHR ''0'', CHR ''9''), (CHR ''_'', CHR ''_'')]"

definition re_hex :: regex where "re_hex = Plus (Cls hex_ranges)"

text \<open>A command letter followed by hexadecimal arguments with a separator before each but the first.\<close>

definition re_args1 :: "char \<Rightarrow> regex" where
  "re_args1 k = Sequ (Lit k) re_hex"

definition re_args2 :: "char \<Rightarrow> char \<Rightarrow> regex" where
  "re_args2 k s1 = Sequ (Lit k) (Sequ re_hex (Sequ (Lit s1) re_hex))"

definition re_args3 :: "char \<Rightarrow> char \<Rightarrow> char \<Rightarrow> regex" where
  "re_args3 k s1 s2 = Sequ (Lit k) (Sequ re_hex (Sequ (Lit s1) (Sequ re_hex (Sequ (Lit s2) re_hex))))"

definition re_qSupported :: regex where
  "re_qSupported = Sequ (Str ''qSupported'') (Sequ (Lit CHR '':'')
     (Plus (Sequ (Plus (Cls [(CHR ''a'', CHR ''z''), (CHR ''A'', CHR ''Z''), (CHR ''-'', CHR ''-'')]))
       (Sequ (Opt (Lit CHR ''+'')) (Opt (Lit CHR '';''))))))"

definition re_feature :: regex where
  "re_feature = Sequ (Plus (Altn (Lit CHR ''-'') (Cls word_ranges))) (Ahead (Lit CHR ''+''))"

definition re_continue :: regex where
  "re_continue = Altn (Sequ (Lit CHR ''c'') re_hex) (Lit CHR ''c'')"

text \<open>
  \<open>PacketTypeRegexStr_GV\<close>: a \<open>std::map\<close>, so the loop over it runs in the order of the enumeration.
\<close>

definition PacketTypeRegexStr_GV :: "(GDB_RSP_PacketType_e \<times> regex list) list" where
  "PacketTypeRegexStr_GV =
    [(CMD_MEM_READ, [re_args2 CHR ''m'' CHR '','', re_hex]),
     (CMD_MEM_WRITE, [re_args3 CHR ''M'' CHR '','' CHR '':'', re_hex]),
     (CMD_REG_READ_INDEX, [re_args1 CHR ''p'', re_hex]),
     (CMD_REG_READ_ALL, [Lit CHR ''g'']),
     (CMD_REG_WRITE_ALL, [re_args1 CHR ''G'', re_hex]),
     (CMD_QUERY_HALT_REASON, [Lit CHR ''?'']),
     (CMD_INSERT_BREAKPOINT, [re_args3 CHR ''Z'' CHR '','' CHR '','', re_hex]),
     (CMD_REMOVE_BREAKPOINT, [re_args3 CHR ''z'' CHR '','' CHR '','', re_hex]),
     (CMD_CONTINUE, [re_continue, Sequ Dot re_hex]),
     (CMD_Q_SUPPORTED, [re_qSupported, re_feature])]"

section \<open>Operations\<close>

text \<open>\<open>data[i]\<close> is a signed \<open>char\<close>, sign-extended when it is added to the 64-bit sum.\<close>

definition CalCheckSum_GDB_RSP_Utils :: "string \<Rightarrow> u8" where
  "CalCheckSum_GDB_RSP_Utils data =
     ucast ((\<Sum>c \<leftarrow> data. scast (of_char c :: u8) :: u64) mod 256)"

text \<open>
  The expressions see the data as a C string, up to the first NUL. The empty packet is not
  returned at once: its type is overwritten below like that of any other packet.
\<close>

definition ParsePacket_GDB_RSP_Utils :: "string \<Rightarrow> GDB_RSP_Packet" where
  "ParsePacket_GDB_RSP_Utils data =
     (let ret = \<lparr>packetType = EMPTY_PACKET, cmd = '''', paramList = []\<rparr>;
          data_str = takeWhile (\<lambda>c. c \<noteq> CHR 0x00) data
      in
      case find (\<lambda>(type, res). regex_match data_str (hd res)) PacketTypeRegexStr_GV of
        Some (type, res) \<Rightarrow>
          ret\<lparr>packetType := type,
              paramList := (if length res > 1 then regex_matches (res ! 1) data_str else [])\<rparr>
      | None \<Rightarrow> ret\<lparr>packetType := CMD_UNKNOWN, cmd := data_str\<rparr>)"

text \<open>
  \<open>strtoll\<close>, \<open>strtol\<close> and \<open>strtoul\<close> in base 16, on strings of hexadecimal digits: the value of the
  digits up to the first other character, saturated at the largest value of the type.
\<close>

definition is_hex :: "char \<Rightarrow> bool" where
  "is_hex = in_ranges hex_ranges"

definition digit_value :: "char \<Rightarrow> nat" where
  "digit_value c = (let n = of_char c in if n \<le> 57 then n - 48 else if n \<le> 70 then n - 55 else n - 87)"

definition hex_value :: "string \<Rightarrow> nat" where
  "hex_value s = foldl (\<lambda>v c. 16 * v + digit_value c) 0 (takeWhile is_hex s)"

definition strtoll16 :: "string \<Rightarrow> u64" where
  "strtoll16 s = of_nat (min (hex_value s) (2 ^ 63 - 1))"

definition strtol16_int :: "string \<Rightarrow> u32" where
  "strtol16_int s = ucast (strtoll16 s)"

definition strtoul16 :: "string \<Rightarrow> u64" where
  "strtoul16 s = of_nat (min (hex_value s) (2 ^ 64 - 1))"

fun byte_pairs :: "string \<Rightarrow> u8 list" where
  "byte_pairs (a # b # s) = ucast (strtoul16 [a, b]) # byte_pairs s"
| "byte_pairs _ = []"

definition ParseByteStreamStr :: "string \<Rightarrow> u8 list res" where
  "ParseByteStreamStr byte_stream = assertR (even (length byte_stream)) (Inr (byte_pairs byte_stream))"

text \<open>The conversion \<open>%02x\<close> of \<open>sprintf\<close>, and of \<open>std::hex\<close> with width 2 and fill \<open>0\<close>.\<close>

definition hex_digit :: "nat \<Rightarrow> char" where
  "hex_digit n = char_of (if n < 10 then 48 + n else 87 + n)"

definition hex_byte :: "u8 \<Rightarrow> string" where
  "hex_byte b = [hex_digit (unat b div 16), hex_digit (unat b mod 16)]"

definition hex_bytes :: "u8 list \<Rightarrow> string" where
  "hex_bytes bs = concat (map hex_byte bs)"

section \<open>Hexadecimal numbers\<close>

lemma is_hex_code:
  "is_hex c \<longleftrightarrow> (let n = of_char c :: nat in 48 \<le> n \<and> n \<le> 57 \<or> 65 \<le> n \<and> n \<le> 70 \<or> 97 \<le> n \<and> n \<le> 102)"
  by (simp add: is_hex_def in_ranges_def hex_ranges_def Let_def)

lemma hex_digits: "n < 16 \<Longrightarrow> is_hex (hex_digit n) \<and> digit_value (hex_digit n) = n"
  by (simp add: is_hex_code digit_value_def hex_digit_def Let_def of_char_of)

lemma not_hex: "\<not> is_hex CHR '',''" "\<not> is_hex CHR '':''" "\<not> is_hex CHR ''m''" "\<not> is_hex CHR ''M''"
  "\<not> is_hex CHR ''p''" "\<not> is_hex CHR ''G''" "\<not> is_hex CHR ''Z''" "\<not> is_hex CHR ''z''"
  "\<not> is_hex CHR 0x00" "\<not> is_hex CHR ''#''" "\<not> is_hex CHR ''$''"
  by (simp_all add: is_hex_code Let_def)

definition hex_string :: "string \<Rightarrow> bool" where
  "hex_string s \<longleftrightarrow> s \<noteq> [] \<and> (\<forall>c \<in> set s. is_hex c)"

lemma hex_value_all: "\<forall>c \<in> set s. is_hex c \<Longrightarrow> hex_value s = foldl (\<lambda>v c. 16 * v + digit_value c) 0 s"
  by (simp add: hex_value_def takeWhile_eq_all_conv [THEN iffD2])

lemma unat_byte: "unat (b :: u8) < 256"
  using unsigned_less [of b] by simp

lemma hex_byte_value: "hex_value (hex_byte b) = unat b"
proof -
  have "unat b div 16 < 16" "unat b mod 16 < 16" using unat_byte [of b] by simp_all
  from this [THEN hex_digits] show ?thesis by (subst hex_value_all) (auto simp: hex_byte_def)
qed

lemma hex_byte_hex: "c \<in> set (hex_byte b) \<Longrightarrow> is_hex c"
  using unat_byte [of b] by (auto simp: hex_byte_def intro!: hex_digits [THEN conjunct1])

lemma hex_bytes_hex: "c \<in> set (hex_bytes bs) \<Longrightarrow> is_hex c"
  by (auto simp: hex_bytes_def hex_byte_hex)

lemma length_hex_bytes [simp]: "length (hex_bytes bs) = 2 * length bs"
  by (induction bs) (simp_all add: hex_bytes_def hex_byte_def)

lemma hex_bytes_string: "bs \<noteq> [] \<Longrightarrow> hex_string (hex_bytes bs)"
  by (auto simp: hex_string_def hex_bytes_hex) (simp add: hex_bytes_def hex_byte_def neq_Nil_conv)

lemma ucast_ucast_byte: "(ucast (ucast (b :: u8) :: u64) :: u8) = b"
  by (rule bit_word_eqI) (auto simp: bit_simps)

lemma ucast_of_nat: "(ucast (of_nat n :: u64) :: u32) = of_nat n"
  by (rule bit_word_eqI) (auto simp: bit_simps)

lemma strtoul_byte: "ucast (strtoul16 (hex_byte b)) = b"
  using unat_byte [of b] by (simp add: strtoul16_def hex_byte_value min_def ucast_ucast_byte)

lemma parse_hex_bytes: "ParseByteStreamStr (hex_bytes bs) = Inr bs"
proof -
  have "byte_pairs (hex_bytes bs) = bs"
  proof (induction bs)
    case (Cons b bs)
    then show ?case using strtoul_byte [of b] by (simp add: hex_bytes_def hex_byte_def)
  qed (simp add: hex_bytes_def)
  then show ?thesis by (simp add: ParseByteStreamStr_def)
qed

text \<open>A debugger prints numbers without leading zeros.\<close>

fun print_hex :: "nat \<Rightarrow> string" where
  "print_hex n = (if n < 16 then [hex_digit n] else print_hex (n div 16) @ [hex_digit (n mod 16)])"

declare print_hex.simps [simp del]

lemma print_hex_string: "hex_string (print_hex n)"
  by (induction n rule: print_hex.induct) (subst print_hex.simps, auto simp: hex_string_def hex_digits)

lemma hex_value_print: "hex_value (print_hex n) = n"
proof -
  have "foldl (\<lambda>v c. 16 * v + digit_value c) 0 (print_hex n) = n"
    by (induction n rule: print_hex.induct) (subst print_hex.simps, auto simp: hex_digits)
  then show ?thesis using print_hex_string [of n] by (simp add: hex_value_all hex_string_def)
qed

lemma strtoll_print: "n < 2 ^ 63 \<Longrightarrow> strtoll16 (print_hex n) = of_nat n"
  by (simp add: strtoll16_def hex_value_print min_def)

lemma strtol_print: "n < 2 ^ 31 \<Longrightarrow> strtol16_int (print_hex n) = of_nat n"
  by (simp add: strtol16_int_def strtoll_print ucast_of_nat)

section \<open>The checksum\<close>

lemma scast_byte_mod: "ucast ((scast (b :: u8) :: u64)) = b"
  by (rule bit_word_eqI) (auto simp: bit_simps)

lemma ucast_mod_256: "ucast ((x :: u64) mod 256) = (ucast x :: u8)"
proof -
  have "x mod 256 = take_bit 8 x" by (simp add: take_bit_eq_mod)
  then show ?thesis by (auto intro!: bit_word_eqI simp: bit_simps)
qed

lemma ucast_add_byte: "(ucast ((x :: u64) + y) :: u8) = ucast x + ucast y"
  by (simp add: word_uint_eq_iff uint_word_ariths unsigned_ucast_eq take_bit_eq_mod mod_simps mod_mod_cancel)

lemma checksum_sum: "CalCheckSum_GDB_RSP_Utils data = (\<Sum>c \<leftarrow> data. of_char c)"
proof -
  have "(ucast (\<Sum>c \<leftarrow> data. scast (of_char c :: u8) :: u64) :: u8) = (\<Sum>c \<leftarrow> data. of_char c)"
    by (induction data) (simp_all add: scast_byte_mod ucast_add_byte)
  then show ?thesis by (simp only: CalCheckSum_GDB_RSP_Utils_def ucast_mod_256)
qed

section \<open>Classification\<close>

lemma match_Lit: "t \<in> set (remainders (Lit k) s) \<longleftrightarrow> s = k # t"
proof -
  have "(of_char a :: nat) = of_char k \<longleftrightarrow> a = k" for a :: char by simp
  then show ?thesis by (cases s) (auto simp: Lit_def in_ranges_def simp flip: order.eq_iff)
qed

lemma match_hex: "t \<in> set (remainders re_hex s) \<longleftrightarrow> (\<exists>p. s = p @ t \<and> hex_string p)"
  by (simp only: re_hex_def set_Plus_Cls) (auto simp: hex_string_def is_hex_def)

lemma match_Alt: "t \<in> set (remainders (Altn a b) s) \<longleftrightarrow> t \<in> set (remainders a s) \<or> t \<in> set (remainders b s)"
  by simp

lemmas match_defs = regex_match_def re_args1_def re_args2_def re_args3_def re_qSupported_def re_continue_def

lemma match_Lit_then:
  "t \<in> set (remainders (Sequ (Lit k) r) s) \<longleftrightarrow> (\<exists>s'. s = k # s' \<and> t \<in> set (remainders r s'))"
  by (auto simp: match_Lit)

lemma match_hex_then:
  "t \<in> set (remainders (Sequ re_hex r) s) \<longleftrightarrow> (\<exists>p s'. s = p @ s' \<and> hex_string p \<and> t \<in> set (remainders r s'))"
  by (auto simp: match_hex; blast)

lemmas match_simps = match_Lit match_hex match_Lit_then match_hex_then match_Alt

text \<open>What the whole-command expressions accept.\<close>

lemma match_args1: "regex_match s (re_args1 k) \<longleftrightarrow> (\<exists>a. s = k # a \<and> hex_string a)"
  by (auto simp add: match_defs match_simps simp del: remainders.simps)

lemma match_args2:
  "regex_match s (re_args2 k d) \<longleftrightarrow> (\<exists>a b. s = k # a @ d # b \<and> hex_string a \<and> hex_string b)"
  by (auto simp add: match_defs match_simps simp del: remainders.simps)

lemma match_args3:
  "regex_match s (re_args3 k d e) \<longleftrightarrow>
     (\<exists>a b c. s = k # a @ d # b @ e # c \<and> hex_string a \<and> hex_string b \<and> hex_string c)"
  by (simp add: match_defs match_simps del: remainders.simps) blast

lemma match_single: "regex_match s (Lit k) \<longleftrightarrow> s = [k]"
  by (simp add: match_defs match_simps del: remainders.simps)

lemma match_continue: "regex_match s re_continue \<longleftrightarrow> s = ''c'' \<or> (\<exists>a. s = CHR ''c'' # a \<and> hex_string a)"
  by (auto simp add: match_defs match_simps simp del: remainders.simps)

lemmas command_forms = match_args1 match_args2 match_args3 match_single match_continue

lemma qSupported_head: "regex_match s re_qSupported \<Longrightarrow> \<exists>t. s = CHR ''q'' # t"
  by (auto simp only: match_defs match_Sequ [where a = "Str _"] set_Str append_Cons)

text \<open>The parameters of a command: its runs of hexadecimal digits.\<close>

lemma hex_matches:
  "\<not> is_hex k \<Longrightarrow> regex_matches re_hex (k # s) = regex_matches re_hex s"
  "hex_string a \<Longrightarrow> \<not> is_hex k \<Longrightarrow> regex_matches re_hex (a @ k # s) = a # regex_matches re_hex s"
  "hex_string a \<Longrightarrow> regex_matches re_hex a = [a]"
  using matches_run [of a hex_ranges "k # s"] matches_run [of a hex_ranges "[]"]
  by (simp_all add: re_hex_def is_hex_def matches_skip matches_nil hex_string_def)

lemma hex_string_no_nul: "hex_string a \<Longrightarrow> CHR 0x00 \<notin> set a"
  using not_hex(9) by (auto simp: hex_string_def)

lemma c_string: "CHR 0x00 \<notin> set s \<Longrightarrow> takeWhile (\<lambda>c. c \<noteq> CHR 0x00) s = s"
  by (rule takeWhile_eq_all_conv [THEN iffD2]) auto

lemma hex_nul [simp]: "hex_string a \<Longrightarrow> takeWhile (\<lambda>c. c \<noteq> CHR 0x00) (a @ s) = a @ takeWhile (\<lambda>c. c \<noteq> CHR 0x00) s"
  by (rule takeWhile_append2) (use hex_string_no_nul in auto)

lemma hex_nul_all [simp]: "hex_string a \<Longrightarrow> takeWhile (\<lambda>c. c \<noteq> CHR 0x00) a = a"
  by (rule c_string) (rule hex_string_no_nul)

lemma hex_string_not_Nil [simp]: "\<not> hex_string []"
  by (simp add: hex_string_def)

abbreviation parsed :: "GDB_RSP_PacketType_e \<Rightarrow> string list \<Rightarrow> GDB_RSP_Packet" where
  "parsed type ps \<equiv> \<lparr>packetType = type, cmd = [], paramList = ps\<rparr>"

lemmas parse_defs = ParsePacket_GDB_RSP_Utils_def PacketTypeRegexStr_GV_def Let_def

lemma parse_plain:
  "ParsePacket_GDB_RSP_Utils ''g'' = parsed CMD_REG_READ_ALL []"
  "ParsePacket_GDB_RSP_Utils ''?'' = parsed CMD_QUERY_HALT_REASON []"
  by (simp_all add: parse_defs command_forms)

lemma parse_args1:
  assumes "hex_string a"
  shows "ParsePacket_GDB_RSP_Utils (CHR ''G'' # a) = parsed CMD_REG_WRITE_ALL [a]"
    and "ParsePacket_GDB_RSP_Utils (CHR ''p'' # a) = parsed CMD_REG_READ_INDEX [a]"
  using assms by (simp_all add: parse_defs command_forms hex_matches not_hex)

lemma parse_args2:
  assumes "hex_string a" "hex_string b"
  shows "ParsePacket_GDB_RSP_Utils (CHR ''m'' # a @ CHR '','' # b) = parsed CMD_MEM_READ [a, b]"
proof -
  have "\<exists>a' b'. a @ CHR '','' # b = a' @ CHR '','' # b' \<and> hex_string a' \<and> hex_string b'" using assms by blast
  then show ?thesis using assms by (simp add: parse_defs command_forms hex_matches not_hex)
qed

lemma parse_args3:
  assumes "hex_string a" "hex_string b" "hex_string c"
  shows "ParsePacket_GDB_RSP_Utils (CHR ''M'' # a @ CHR '','' # b @ CHR '':'' # c) = parsed CMD_MEM_WRITE [a, b, c]"
    and "ParsePacket_GDB_RSP_Utils (CHR ''Z'' # a @ CHR '','' # b @ CHR '','' # c) = parsed CMD_INSERT_BREAKPOINT [a, b, c]"
    and "ParsePacket_GDB_RSP_Utils (CHR ''z'' # a @ CHR '','' # b @ CHR '','' # c) = parsed CMD_REMOVE_BREAKPOINT [a, b, c]"
proof -
  have "\<exists>a' b' c'. a @ CHR '','' # b @ d # c = a' @ CHR '','' # b' @ d # c' \<and> hex_string a' \<and> hex_string b' \<and> hex_string c'"
    for d using assms by blast
  then show "ParsePacket_GDB_RSP_Utils (CHR ''M'' # a @ CHR '','' # b @ CHR '':'' # c) = parsed CMD_MEM_WRITE [a, b, c]"
    and "ParsePacket_GDB_RSP_Utils (CHR ''Z'' # a @ CHR '','' # b @ CHR '','' # c) = parsed CMD_INSERT_BREAKPOINT [a, b, c]"
    and "ParsePacket_GDB_RSP_Utils (CHR ''z'' # a @ CHR '','' # b @ CHR '','' # c) = parsed CMD_REMOVE_BREAKPOINT [a, b, c]"
    using assms by (simp_all add: parse_defs command_forms hex_matches not_hex)
qed

text \<open>\<open>c\<close> is itself a hexadecimal digit, but the parameter needs another character before it.\<close>

lemma parse_continue: "ParsePacket_GDB_RSP_Utils ''c'' = parsed CMD_CONTINUE []"
proof -
  have "regex_matches (Sequ Dot re_hex) ''c'' = []"
    by (simp add: regex_matches.simps regex_search.simps is_terminator_def re_hex_def)
  then show ?thesis by (simp add: parse_defs command_forms)
qed

text \<open>Everything that starts otherwise is unknown, the empty packet included.\<close>

lemma parse_unknown:
  assumes "data = [] \<or> hd data \<notin> set ''mMpgG?Zzcq''"
  shows "packetType (ParsePacket_GDB_RSP_Utils data) = CMD_UNKNOWN"
proof -
  let ?s = "takeWhile (\<lambda>c. c \<noteq> CHR 0x00) data"
  have "?s = [] \<or> (\<exists>k t. ?s = k # t \<and> k \<notin> set ''mMpgG?Zzcq'')"
    using assms by (cases data) auto
  then have "\<not> regex_match ?s re_qSupported" "\<not> regex_match ?s re_continue"
    "k \<in> set ''mMpgG?Zz'' \<Longrightarrow> \<not> regex_match ?s (re_args1 k) \<and> \<not> regex_match ?s (re_args2 k d) \<and>
       \<not> regex_match ?s (re_args3 k d e) \<and> \<not> regex_match ?s (Lit k)" for k d e
    by (auto simp: command_forms dest: qSupported_head)
  then show ?thesis by (simp add: parse_defs)
qed

end
