(* ===== verification/RV64_Debug.thy ===== *)
theory RV64_Debug
  imports RV64_Inv
begin

unbundle bit_operations_syntax

text \<open>
  What a core offers to a debugger: the register dump and its inverse, memory accesses and
  watchpoints (\<open>modules/core/rv64/src/rv64_debug.cpp\<close>, \<open>include/interface/Core.h\<close>).
\<close>

section \<open>Registers\<close>

text \<open>The union \<open>RegItemVal_t\<close> is its 64-bit view; the byte views are \<open>to_bytes\<close> of it.\<close>

record RegisterItem =
  reg_id :: u16
  disp_name :: string
  reg_size :: u8
  u64_val :: u64

definition GetISABitLen :: nat where "GetISABitLen = 64"

definition GPR_NAME_ARR :: "string list" where
  "GPR_NAME_ARR =
     [''zero'', ''ra'', ''sp'', ''gp'', ''tp'', ''t0'', ''t1'', ''t2'',
      ''fp'', ''s1'', ''a0'', ''a1'', ''a2'', ''a3'', ''a4'', ''a5'',
      ''a6'', ''a7'', ''s2'', ''s3'', ''s4'', ''s5'', ''s6'', ''s7'',
      ''s8'', ''s9'', ''s10'', ''s11'', ''t3'', ''t4'', ''t5'', ''t6'']"

definition PC_NAME :: string where "PC_NAME = ''pc''"

definition gpr_item :: "core \<Rightarrow> nat \<Rightarrow> RegisterItem" where
  "gpr_item c i = \<lparr>reg_id = of_nat i, disp_name = GPR_NAME_ARR ! i, reg_size = 8, u64_val = GPR c ! i\<rparr>"

definition DumpRegister_CoreAPI :: "core \<Rightarrow> RegisterItem list \<Rightarrow> FuncReturnFeedback_e \<times> RegisterItem list" where
  "DumpRegister_CoreAPI c regs =
     (MEMU_OK, regs @ map (gpr_item c) [0..<32] @
        [\<lparr>reg_id = 32, disp_name = PC_NAME, reg_size = 8, u64_val = currentProgramCounter c\<rparr>])"

definition WriteAllRegister_CoreAPI :: "RegisterItem list \<Rightarrow> core \<Rightarrow> FuncReturnFeedback_e \<times> core" where
  "WriteAllRegister_CoreAPI regs c =
     (if length regs \<noteq> 33 then (MEMU_INVALID_PARAM, c)
      else (MEMU_OK, c\<lparr>GPR := map (\<lambda>i. u64_val (regs ! i)) [0..<32],
                       currentProgramCounter := u64_val (regs ! 32)\<rparr>))"

definition DumpProgramCounter_CoreAPI :: "core \<Rightarrow> FuncReturnFeedback_e \<times> RegisterItem" where
  "DumpProgramCounter_CoreAPI c =
     (MEMU_OK, \<lparr>reg_id = 33, disp_name = ''pc'', reg_size = 8, u64_val = currentProgramCounter c\<rparr>)"

section \<open>Watchpoints\<close>

text \<open>The core object with the part of its base class that the debugger uses.\<close>

record processor =
  rvCore :: core
  watchPointPCs :: "u64 set"

definition InsertWatchPoint_CoreDebug :: "u64 \<Rightarrow> processor \<Rightarrow> processor" where
  "InsertWatchPoint_CoreDebug a p = p\<lparr>watchPointPCs := insert a (watchPointPCs p)\<rparr>"

definition RemoveWatchPoint_CoreDebug :: "u64 \<Rightarrow> processor \<Rightarrow> processor" where
  "RemoveWatchPoint_CoreDebug a p = p\<lparr>watchPointPCs := watchPointPCs p - {a}\<rparr>"

definition IsCurrentPCAtWatchPoint_CoreDebug :: "processor \<Rightarrow> bool" where
  "IsCurrentPCAtWatchPoint_CoreDebug p =
     (let (_, pc) = DumpProgramCounter_CoreAPI (rvCore p) in u64_val pc \<in> watchPointPCs p)"

section \<open>Memory\<close>

text \<open>
  With translation off the bus is accessed directly; otherwise byte by byte through the MMU.
  The loops run over the remaining bytes; a read gives \<open>None\<close> where the buffer of the caller
  is left unwritten.
\<close>

definition debug_bare :: "core \<Rightarrow> bool" where
  "debug_bare c \<longleftrightarrow> currentPrivMode c = M_MODE \<or> bget satp_mode (satp c) = 0"

primrec debug_read_bytes ::
    "'b bus_ops \<Rightarrow> nat \<Rightarrow> u64 \<Rightarrow> core \<Rightarrow> 'b \<Rightarrow> (FuncReturnFeedback_e \<times> u8 list \<times> core \<times> 'b) res" where
  "debug_read_bytes bus 0 a c b = Inr (MEMU_OK, [], c, b)"
| "debug_read_bytes bus (Suc n) a c b =
     bindR (VAddr_ReadBuffer_MMU_API bus (core_env c) (sv39MMU c) b a 1) (\<lambda>(feedback, r, m, b1).
     if feedback \<noteq> VADDR_ACCESS_OK then Inr (MEMU_NOT_ACCESSIBLE, [], c\<lparr>sv39MMU := m\<rparr>, b1)
     else
       bindR (initialised r) (\<lambda>byte.
       bindR (debug_read_bytes bus n (a + 1) (c\<lparr>sv39MMU := m\<rparr>) b1) (\<lambda>(fb, bytes, c2, b2).
       Inr (fb, byte @ bytes, c2, b2))))"

definition MemRead_CoreDebugAPI ::
    "'b bus_ops \<Rightarrow> u64 \<Rightarrow> u64 \<Rightarrow> core \<Rightarrow> 'b \<Rightarrow> (FuncReturnFeedback_e \<times> u8 list option \<times> core \<times> 'b) res" where
  "MemRead_CoreDebugAPI bus start_addr sz c b =
     (if debug_bare c then
        bindR (PAddr_ReadBuffer_MMIOBus_API bus b start_addr sz) (\<lambda>(fb, buffer, b1). Inr (fb, buffer, c, b1))
      else
        bindR (debug_read_bytes bus (unat sz) start_addr c b) (\<lambda>(fb, bytes, c1, b1).
        Inr (fb, if fb = MEMU_OK then Some bytes else None, c1, b1)))"

primrec debug_write_bytes ::
    "'b bus_ops \<Rightarrow> u8 list \<Rightarrow> u64 \<Rightarrow> core \<Rightarrow> 'b \<Rightarrow> (FuncReturnFeedback_e \<times> core \<times> 'b) res" where
  "debug_write_bytes bus [] a c b = Inr (MEMU_OK, c, b)"
| "debug_write_bytes bus (byte # bytes) a c b =
     bindR (VAddr_WriteBuffer_MMU_API bus (core_env c) (sv39MMU c) b a [byte]) (\<lambda>(feedback, m, b1).
     if feedback \<noteq> VADDR_ACCESS_OK then Inr (MEMU_NOT_ACCESSIBLE, c\<lparr>sv39MMU := m\<rparr>, b1)
     else debug_write_bytes bus bytes (a + 1) (c\<lparr>sv39MMU := m\<rparr>) b1)"

definition MemWrite_CoreDebugAPI ::
    "'b bus_ops \<Rightarrow> u64 \<Rightarrow> u8 list \<Rightarrow> core \<Rightarrow> 'b \<Rightarrow> (FuncReturnFeedback_e \<times> core \<times> 'b) res" where
  "MemWrite_CoreDebugAPI bus start_addr buffer c b =
     (if debug_bare c then
        bindR (PAddr_WriteBuffer_MMIOBus_API bus b start_addr buffer) (\<lambda>(fb, b1). Inr (fb, c, b1))
      else debug_write_bytes bus buffer start_addr c b)"

section \<open>Lemmas\<close>

lemma dump_values:
  "length (GPR c) = 32 \<Longrightarrow> map u64_val (snd (DumpRegister_CoreAPI c [])) = GPR c @ [currentProgramCounter c]"
  by (rule nth_equalityI) (auto simp: DumpRegister_CoreAPI_def gpr_item_def nth_append)

lemma dump_sizes: "r \<in> set (snd (DumpRegister_CoreAPI c [])) \<Longrightarrow> reg_size r = 8"
  by (auto simp: DumpRegister_CoreAPI_def gpr_item_def)

lemma write_all_values:
  assumes "map u64_val regs = gs @ [pc]" and "length gs = 32"
  shows "WriteAllRegister_CoreAPI regs c = (MEMU_OK, c\<lparr>GPR := gs, currentProgramCounter := pc\<rparr>)"
proof -
  have len: "length regs = 33" using arg_cong [OF assms(1), of length] assms(2) by simp
  have v: "u64_val (regs ! i) = (gs @ [pc]) ! i" if "i < 33" for i
    using that len assms(1) by (metis nth_map)
  have "map (\<lambda>i. u64_val (regs ! i)) [0..<32] = gs"
    by (rule nth_equalityI) (simp_all add: v assms(2) nth_append)
  with len v [of 32] assms(2) show ?thesis by (simp add: WriteAllRegister_CoreAPI_def nth_append)
qed

lemma write_all_wf:
  assumes "core_wf c" and "WriteAllRegister_CoreAPI regs c = (fb, c')" and "length regs = 33"
  shows "core_wf c' \<longleftrightarrow> u64_val (regs ! 0) = 0"
proof -
  have "[0..<32] = 0 # [1..<32]" by (simp add: upt_rec)
  then have "map (\<lambda>i. u64_val (regs ! i)) [0..<32] ! 0 = u64_val (regs ! 0)" by simp
  with assms show ?thesis
    by (auto simp: WriteAllRegister_CoreAPI_def core_wf_def)
qed

text \<open>The debugger's memory accesses keep the core and the bus well-formed.\<close>

context paddr_bus
begin

lemma debug_load:
  assumes "core_wf c" "binv b"
    and "\<And>fb r m b'. core_wf (c\<lparr>sv39MMU := m\<rparr>) \<Longrightarrow> binv b' \<Longrightarrow> holdsR (f (fb, r, m, b')) P"
  shows "holdsR (bindR (VAddr_ReadBuffer_MMU_API bus (core_env c) (sv39MMU c) b a n) f) P"
proof -
  have "keeps (core_env c) (sv39MMU c) b" using assms(1,2) by (simp add: keeps_def core_wf_mmu)
  then show ?thesis
    by (rule holdsR_bindI [OF read_inv]) (auto simp: keeps_def core_wf_mmu [OF assms(1)] intro!: assms(3))
qed

lemma debug_store:
  assumes "core_wf c" "binv b"
    and "\<And>fb m b'. core_wf (c\<lparr>sv39MMU := m\<rparr>) \<Longrightarrow> binv b' \<Longrightarrow> holdsR (f (fb, m, b')) P"
  shows "holdsR (bindR (VAddr_WriteBuffer_MMU_API bus (core_env c) (sv39MMU c) b a bs) f) P"
proof -
  have "keeps (core_env c) (sv39MMU c) b" using assms(1,2) by (simp add: keeps_def core_wf_mmu)
  then show ?thesis
    by (rule holdsR_bindI [OF write_inv]) (auto simp: keeps_def core_wf_mmu [OF assms(1)] intro!: assms(3))
qed

lemma initialised_any: "(\<And>x. holdsR (f x) P) \<Longrightarrow> holdsR (bindR (initialised v) f) P"
  by (cases v) auto

lemma debug_read_bytes_inv:
  "core_wf c \<Longrightarrow> binv b \<Longrightarrow> holdsR (debug_read_bytes bus n a c b) (\<lambda>(fb, bytes, c', b'). core_wf c' \<and> binv b')"
proof (induction n arbitrary: a c b)
  case (Suc n)
  then show ?case
    by (auto simp del: holdsR_bindR intro!: debug_load initialised_any holdsR_bindI [OF Suc.IH])
qed simp

lemma debug_write_bytes_inv:
  "core_wf c \<Longrightarrow> binv b \<Longrightarrow> holdsR (debug_write_bytes bus bytes a c b) (\<lambda>(fb, c', b'). core_wf c' \<and> binv b')"
proof (induction bytes arbitrary: a c b)
  case (Cons byte bytes)
  then show ?case
    by (auto simp del: holdsR_bindR intro!: debug_store Cons.IH)
qed simp

lemma MemRead_inv:
  "core_wf c \<Longrightarrow> binv b \<Longrightarrow> holdsR (MemRead_CoreDebugAPI bus a n c b) (\<lambda>(fb, r, c', b'). core_wf c' \<and> binv b')"
  by (auto simp: MemRead_CoreDebugAPI_def simp del: holdsR_bindR
      intro!: holdsR_bindI [OF bus_read_all] holdsR_bindI [OF debug_read_bytes_inv])

lemma MemWrite_inv:
  "core_wf c \<Longrightarrow> binv b \<Longrightarrow> holdsR (MemWrite_CoreDebugAPI bus a bs c b) (\<lambda>(fb, c', b'). core_wf c' \<and> binv b')"
  by (auto simp: MemWrite_CoreDebugAPI_def simp del: holdsR_bindR
      intro!: holdsR_bindI [OF bus_write_all] debug_write_bytes_inv)

end

end
