(* ===== verification/Gdb_Stub.thy ===== *)
theory Gdb_Stub
  imports Gdb_Rsp RV64_Debug
begin

unbundle bit_operations_syntax

text \<open>
  The GDB server (\<open>src/gdb_stub/GDBStub_utils.cpp\<close>, \<open>GDBStub_cmds.cpp\<close>, \<open>GDBStub_common.cpp\<close>,
  \<open>include/sdk/gdb_stub/GDBStub.h\<close>): framing of packets, the commands and the debug loop.
  The connection is what arrives and what was sent. \<open>received\<close> has one entry for each \<open>read\<close> of
  the buffered stream, with the characters that read returns; no entry, or an empty one, is
  the end of the connection.
\<close>

section \<open>State\<close>

definition BUFFER_SIZE :: nat where "BUFFER_SIZE = 1024"

record 'b gdb_stub =
  gdb_buffer :: string
  packetBeginIndex :: nat
  packetSize :: nat
  debuggedCore :: processor
  debuggedBus :: 'b
  connected :: bool
  client :: "string list option"
  received :: "string list"
  sent :: string

text \<open>
  The constructor; the two indices are not initialised before the first packet. \<open>connected\<close> says that
  \<open>recvFD\<close> is not \<open>-1\<close>, \<open>client\<close> is what the client that \<open>accept\<close> waits for sends, or \<open>None\<close> if
  \<open>accept\<close> fails.
\<close>

definition new_GDBStub :: "nat \<Rightarrow> nat \<Rightarrow> processor \<Rightarrow> 'b \<Rightarrow> string list option \<Rightarrow> 'b gdb_stub" where
  "new_GDBStub idx0 size0 core bus inp =
     \<lparr>gdb_buffer = replicate BUFFER_SIZE CHR 0x00, packetBeginIndex = idx0, packetSize = size0,
      debuggedCore = core, debuggedBus = bus, connected = False, client = inp, received = [], sent = []\<rparr>"

section \<open>Receiving\<close>

text \<open>
  \<open>getc\<close> on the stream that \<open>fdopen\<close> opened: the characters read ahead and what is still to be
  read. At the end it returns \<open>EOF\<close>, which becomes the character 0xFF.
\<close>

type_synonym stream = "string \<times> string list"

fun getc :: "stream \<Rightarrow> char \<times> stream" where
  "getc (c # ahead, inp) = (c, ahead, inp)"
| "getc ([], (c # ahead) # inp) = (c, ahead, inp)"
| "getc ([], inp) = (CHR 0xFF, [], inp)"

text \<open>The loop from index \<open>i\<close> on; \<open>None\<close> as the size says that the buffer is full.\<close>

function recv_loop :: "nat \<Rightarrow> string \<Rightarrow> int \<Rightarrow> stream \<Rightarrow> string \<times> int \<times> nat option \<times> stream" where
  "recv_loop i buffer packet_begin_index fp =
     (if i < BUFFER_SIZE then
        let (ch, fp1) = getc fp;
            buffer1 = buffer[i := ch];
            begin1 = (if ch = PACKET_BEGIN_CHAR then int i + 1 else packet_begin_index)
        in
        if ch = PACKET_END_CHAR then (buffer1, begin1, Some (nat (int i - begin1)), fp1)
        else recv_loop (i + 1) buffer1 begin1 fp1
      else (buffer, packet_begin_index, None, fp))"
  by pat_completeness auto
termination by (relation "measure (\<lambda>(i, buffer, idx, fp). BUFFER_SIZE - i)") auto

declare recv_loop.simps [simp del]

text \<open>What the connection brings, which the first call accepts; \<open>None\<close> if that fails.\<close>

definition incoming :: "'b gdb_stub \<Rightarrow> string list option" where
  "incoming s = (if connected s then Some (received s) else client s)"

text \<open>
  \<open>recvAndCheck\<close>. The stream is opened anew by every call: what it has read ahead beyond the
  checksum is lost. The comparison with the received checksum is compiled out
  (\<open>CONFIG_DEBUG_ENABLE\<close> is 1), so its two characters are only consumed.
\<close>

definition recvAndCheck :: "'b gdb_stub \<Rightarrow> (FuncReturnFeedback_e \<times> 'b gdb_stub) res" where
  "recvAndCheck s =
     (case incoming s of
        None \<Rightarrow> Inl ProcessExit
      | Some inp \<Rightarrow>
      let (buffer, packet_begin_index, packet_size, fp) = recv_loop 0 (gdb_buffer s) (- 1) ([], inp) in
      case packet_size of
        None \<Rightarrow> Inl ProcessExit
      | Some n \<Rightarrow>
          let (_, fp1) = getc fp;
              (_, fp2) = getc fp1;
              s1 = s\<lparr>gdb_buffer := buffer, connected := True, received := snd fp2\<rparr>
          in
          if packet_begin_index = - 1 then Inr (MEMU_PROTOCOL_ERR, s1)
          else Inr (MEMU_OK, s1\<lparr>packetBeginIndex := nat packet_begin_index, packetSize := n\<rparr>))"

definition sendACK :: "'b gdb_stub \<Rightarrow> 'b gdb_stub" where
  "sendACK s = s\<lparr>sent := sent s @ ACK_PACKET_DATA\<rparr>"

definition sendNAK :: "'b gdb_stub \<Rightarrow> 'b gdb_stub" where
  "sendNAK s = s\<lparr>sent := sent s @ NAK_PACKET_DATA\<rparr>"

text \<open>One of the two retry loops of \<open>recvPacket\<close>; both count in \<open>nr_retry_times\<close>.\<close>

function recv_retry ::
    "FuncReturnFeedback_e \<Rightarrow> nat \<Rightarrow> FuncReturnFeedback_e \<Rightarrow> 'b gdb_stub \<Rightarrow>
     (nat \<times> FuncReturnFeedback_e \<times> 'b gdb_stub) res" where
  "recv_retry err nr_retry_times feedback s =
     (if feedback = err then
        if nr_retry_times \<ge> 10 then Inl ProcessExit
        else bindR (recvAndCheck (sendNAK s)) (\<lambda>(feedback1, s1). recv_retry err (nr_retry_times + 1) feedback1 s1)
      else Inr (nr_retry_times, feedback, s))"
  by pat_completeness auto
termination by (relation "measure (\<lambda>(err, nr, fb, s). 10 - nr)") auto

declare recv_retry.simps [simp del]

definition recvPacket :: "'b gdb_stub \<Rightarrow> (FuncReturnFeedback_e \<times> 'b gdb_stub) res" where
  "recvPacket s =
     bindR (recvAndCheck s) (\<lambda>(feedback, s1).
     bindR (recv_retry MEMU_CHKSUM_ERR 0 feedback s1) (\<lambda>(nr, feedback, s2).
     bindR (recv_retry MEMU_PROTOCOL_ERR nr feedback s2) (\<lambda>(nr, feedback, s3).
     Inr (feedback, sendACK s3))))"

section \<open>Sending\<close>

definition packet_frame :: "string \<Rightarrow> string" where
  "packet_frame data = PACKET_BEGIN_CHAR # data @ PACKET_END_CHAR # hex_byte (CalCheckSum_GDB_RSP_Utils data)"

text \<open>\<open>read(recvFD, &ack, 1)\<close>: at the end of the connection \<open>ack\<close> keeps its value.\<close>

fun read_ack :: "char \<Rightarrow> string list \<Rightarrow> char \<times> string list" where
  "read_ack ack ((c # rest) # inp) = (c, if rest = [] then inp else rest # inp)"
| "read_ack ack inp = (ack, inp)"

function resend :: "string \<Rightarrow> nat \<Rightarrow> char \<Rightarrow> 'b gdb_stub \<Rightarrow> 'b gdb_stub" where
  "resend frame nr_retry_times ack s =
     (if ack \<noteq> CHR ''+'' then
        if nr_retry_times \<ge> 10 then s
        else
          let (ack1, inp) = read_ack ack (received s)
          in resend frame (nr_retry_times + 1) ack1 (s\<lparr>sent := sent s @ frame, received := inp\<rparr>)
      else s)"
  by pat_completeness auto
termination by (relation "measure (\<lambda>(frame, nr, ack, s). 10 - nr)") auto

declare resend.simps [simp del]

definition packingAndSend :: "string \<Rightarrow> 'b gdb_stub \<Rightarrow> 'b gdb_stub" where
  "packingAndSend data s =
     (let (ack, inp) = read_ack CHR ''-'' (received s)
      in resend (packet_frame data) 0 ack (s\<lparr>sent := sent s @ packet_frame data, received := inp\<rparr>))"

section \<open>Commands\<close>

definition cmd_ReadAllRegister :: "'b gdb_stub \<Rightarrow> 'b gdb_stub" where
  "cmd_ReadAllRegister s =
     (let (_, regs) = DumpRegister_CoreAPI (rvCore (debuggedCore s)) [] in
      packingAndSend (concat (map (\<lambda>reg. hex_bytes (to_bytes (unat (reg_size reg)) (u64_val reg))) regs)) s)"

text \<open>Register items built from the data; their names stay unset.\<close>

definition reg_items :: "nat \<Rightarrow> nat \<Rightarrow> u8 list \<Rightarrow> RegisterItem list" where
  "reg_items reg_num sz data =
     map (\<lambda>i. \<lparr>reg_id = of_nat i, disp_name = [], reg_size = of_nat sz,
               u64_val = of_bytes (take sz (drop (i * sz) data))\<rparr>) [0..<reg_num]"

definition cmd_WriteAllRegister :: "GDB_RSP_Packet \<Rightarrow> 'b gdb_stub \<Rightarrow> 'b gdb_stub res" where
  "cmd_WriteAllRegister packet s =
     assertR (packetType packet = CMD_REG_WRITE_ALL)
     (if length (paramList packet) \<noteq> 1 then Inr (packingAndSend [] s)
      else if length (paramList packet ! 0) mod (GetISABitLen div 4) \<noteq> 0 then Inr (packingAndSend [] s)
      else
        let reg_num = length (paramList packet ! 0) div (GetISABitLen div 4); sz = GetISABitLen div 8 in
        bindR (ParseByteStreamStr (paramList packet ! 0)) (\<lambda>all_reg_data.
        let p = debuggedCore s;
            (feedback, c) = WriteAllRegister_CoreAPI (reg_items reg_num sz all_reg_data) (rvCore p);
            s1 = s\<lparr>debuggedCore := p\<lparr>rvCore := c\<rparr>\<rparr>
        in Inr (if feedback \<noteq> MEMU_OK then packingAndSend ''E01'' s1 else s1)))"

definition cmd_GetHaltReason :: "'b gdb_stub \<Rightarrow> 'b gdb_stub" where
  "cmd_GetHaltReason s = packingAndSend ''S05'' s"

definition cmd_QSupported :: "GDB_RSP_Packet \<Rightarrow> 'b gdb_stub \<Rightarrow> 'b gdb_stub" where
  "cmd_QSupported packet s =
     packingAndSend (concat (map (\<lambda>str. if str = ''hwbreak'' then ''hwbreak+'' else []) (paramList packet))) s"

definition cmd_Unknown :: "'b gdb_stub \<Rightarrow> 'b gdb_stub" where
  "cmd_Unknown s = packingAndSend [] s"

text \<open>
  A memory read allocates its buffers on the stack and counts with an \<open>int\<close>: from 2^31 bytes on
  it runs out of both.
\<close>

definition cmd_MemRead :: "'b bus_ops \<Rightarrow> GDB_RSP_Packet \<Rightarrow> 'b gdb_stub \<Rightarrow> 'b gdb_stub res" where
  "cmd_MemRead bus packet s =
     assertR (packetType packet = CMD_MEM_READ)
     (if length (paramList packet) \<noteq> 2 then Inr (packingAndSend [] s)
      else
        let addr = strtoll16 (paramList packet ! 0); len = strtoll16 (paramList packet ! 1); p = debuggedCore s in
        if len \<ge> 2 ^ 31 then Inl OutOfBounds
        else
          bindR (MemRead_CoreDebugAPI bus addr len (rvCore p) (debuggedBus s)) (\<lambda>(feedback, data, c, b).
          let s1 = s\<lparr>debuggedCore := p\<lparr>rvCore := c\<rparr>, debuggedBus := b\<rparr> in
          if feedback = MEMU_OK then bindR (initialised data) (\<lambda>bytes. Inr (packingAndSend (hex_bytes bytes) s1))
          else Inr (packingAndSend ''E01'' s1)))"

definition cmd_MemWrite :: "'b bus_ops \<Rightarrow> GDB_RSP_Packet \<Rightarrow> 'b gdb_stub \<Rightarrow> 'b gdb_stub res" where
  "cmd_MemWrite bus packet s =
     assertR (packetType packet = CMD_MEM_WRITE)
     (if length (paramList packet) \<noteq> 3 then Inr (packingAndSend [] s)
      else
        let addr = strtoll16 (paramList packet ! 0); len = strtoll16 (paramList packet ! 1); p = debuggedCore s in
        if 2 * len \<noteq> of_nat (length (paramList packet ! 2)) then Inr (packingAndSend [] s)
        else
          bindR (ParseByteStreamStr (paramList packet ! 2)) (\<lambda>data.
          bindR (MemWrite_CoreDebugAPI bus addr data (rvCore p) (debuggedBus s)) (\<lambda>(feedback, c, b).
          let s1 = s\<lparr>debuggedCore := p\<lparr>rvCore := c\<rparr>, debuggedBus := b\<rparr> in
          Inr (if feedback \<noteq> MEMU_OK then packingAndSend ''E01'' s1 else s1))))"

definition cmd_InsertBreakpoint :: "GDB_RSP_Packet \<Rightarrow> 'b gdb_stub \<Rightarrow> 'b gdb_stub res" where
  "cmd_InsertBreakpoint packet s =
     assertR (packetType packet = CMD_INSERT_BREAKPOINT)
     (if length (paramList packet) \<noteq> 3 then Inr (packingAndSend [] s)
      else
        let watchpoint_type = strtol16_int (paramList packet ! 0) in
        if watchpoint_type \<noteq> 0 \<and> watchpoint_type \<noteq> 1 then Inr (packingAndSend [] s)
        else
          let addr = strtoll16 (paramList packet ! 1) in
          Inr (packingAndSend ''OK'' (s\<lparr>debuggedCore := InsertWatchPoint_CoreDebug addr (debuggedCore s)\<rparr>)))"

definition cmd_RemoveBreakpoint :: "GDB_RSP_Packet \<Rightarrow> 'b gdb_stub \<Rightarrow> 'b gdb_stub res" where
  "cmd_RemoveBreakpoint packet s =
     assertR (packetType packet = CMD_REMOVE_BREAKPOINT)
     (if length (paramList packet) \<noteq> 3 then Inr (packingAndSend [] s)
      else
        let watchpoint_type = strtol16_int (paramList packet ! 0) in
        if watchpoint_type \<noteq> 0 \<and> watchpoint_type \<noteq> 1 then Inr (packingAndSend [] s)
        else
          let addr = strtoll16 (paramList packet ! 1) in
          Inr (packingAndSend ''OK'' (s\<lparr>debuggedCore := RemoveWatchPoint_CoreDebug addr (debuggedCore s)\<rparr>)))"

text \<open>The loop of \<open>cmd_Continue\<close> ends at a watchpoint, with a crash, or not at all (\<open>None\<close>).\<close>

partial_function (option) continue_loop :: "'b bus_ops \<Rightarrow> processor \<Rightarrow> 'b \<Rightarrow> (processor \<times> 'b) res option" where
  "continue_loop bus p b =
     (if IsCurrentPCAtWatchPoint_CoreDebug p then Some (Inr (p, b))
      else case Step_CoreAPI bus (rvCore p) b of
        Inl e \<Rightarrow> Some (Inl e)
      | Inr (c, b1) \<Rightarrow> continue_loop bus (p\<lparr>rvCore := c\<rparr>) b1)"

definition cmd_Continue :: "'b bus_ops \<Rightarrow> GDB_RSP_Packet \<Rightarrow> 'b gdb_stub \<Rightarrow> 'b gdb_stub res option" where
  "cmd_Continue bus packet s =
     (if packetType packet \<noteq> CMD_CONTINUE then Some (Inl AssertionFailure)
      else if length (paramList packet) \<noteq> 0 then Some (Inr (packingAndSend [] s))
      else
        map_option (\<lambda>r. bindR r (\<lambda>(p, b). Inr (packingAndSend ''S05'' (s\<lparr>debuggedCore := p, debuggedBus := b\<rparr>))))
          (continue_loop bus (debuggedCore s) (debuggedBus s)))"

section \<open>The debug loop\<close>

text \<open>The switch on the packet type; the types without a case fail an assertion.\<close>

definition dispatch_cmd :: "'b bus_ops \<Rightarrow> GDB_RSP_Packet \<Rightarrow> 'b gdb_stub \<Rightarrow> 'b gdb_stub res option" where
  "dispatch_cmd bus packet s =
     (let s1 = sendACK s in
      case packetType packet of
        CMD_QUERY_HALT_REASON \<Rightarrow> Some (Inr (cmd_GetHaltReason s1))
      | CMD_REG_READ_ALL \<Rightarrow> Some (Inr (cmd_ReadAllRegister s1))
      | CMD_REG_WRITE_ALL \<Rightarrow> Some (cmd_WriteAllRegister packet s1)
      | CMD_Q_SUPPORTED \<Rightarrow> Some (Inr (cmd_QSupported packet s1))
      | CMD_MEM_READ \<Rightarrow> Some (cmd_MemRead bus packet s1)
      | CMD_MEM_WRITE \<Rightarrow> Some (cmd_MemWrite bus packet s1)
      | CMD_INSERT_BREAKPOINT \<Rightarrow> Some (cmd_InsertBreakpoint packet s1)
      | CMD_REMOVE_BREAKPOINT \<Rightarrow> Some (cmd_RemoveBreakpoint packet s1)
      | CMD_CONTINUE \<Rightarrow> cmd_Continue bus packet s1
      | EMPTY_PACKET \<Rightarrow> Some (Inr s1)
      | CMD_UNKNOWN \<Rightarrow> Some (Inr (cmd_Unknown s1))
      | _ \<Rightarrow> Some (Inl AssertionFailure))"

text \<open>The data of the packet received last.\<close>

definition packet_data :: "'b gdb_stub \<Rightarrow> string" where
  "packet_data s = take (packetSize s) (drop (packetBeginIndex s) (gdb_buffer s))"

definition Debug_iteration :: "'b bus_ops \<Rightarrow> 'b gdb_stub \<Rightarrow> 'b gdb_stub res option" where
  "Debug_iteration bus s =
     (case recvPacket s of
        Inl e \<Rightarrow> Some (Inl e)
      | Inr (feedback, s1) \<Rightarrow>
          if feedback \<noteq> MEMU_OK then Some (Inl ProcessExit)
          else dispatch_cmd bus (ParsePacket_GDB_RSP_Utils (packet_data s1)) s1)"

text \<open>The endless loop, cut after \<open>n\<close> packets.\<close>

primrec Debug_GDBStub :: "'b bus_ops \<Rightarrow> nat \<Rightarrow> 'b gdb_stub \<Rightarrow> 'b gdb_stub res option" where
  "Debug_GDBStub bus 0 s = Some (Inr s)"
| "Debug_GDBStub bus (Suc n) s =
     (case Debug_iteration bus s of
        Some (Inr s1) \<Rightarrow> Debug_GDBStub bus n s1
      | r \<Rightarrow> r)"

section \<open>Framing\<close>

definition flat :: "stream \<Rightarrow> string" where
  "flat fp = fst fp @ concat (snd fp)"

definition open_stream :: "stream \<Rightarrow> bool" where
  "open_stream fp \<longleftrightarrow> [] \<notin> set (snd fp)"

lemma getc_next:
  "open_stream fp \<Longrightarrow> flat fp = c # t \<Longrightarrow> \<exists>fp'. getc fp = (c, fp') \<and> flat fp' = t \<and> open_stream fp'"
  by (cases fp rule: getc.cases) (auto simp: flat_def open_stream_def neq_Nil_conv)

text \<open>The buffer after \<open>cs\<close> was stored from index \<open>i\<close> on, and the index after the last \<open>$\<close>.\<close>

fun store_chars :: "nat \<Rightarrow> string \<Rightarrow> string \<Rightarrow> string" where
  "store_chars i [] buffer = buffer"
| "store_chars i (c # cs) buffer = store_chars (Suc i) cs (buffer[i := c])"

fun begin_after :: "nat \<Rightarrow> string \<Rightarrow> int \<Rightarrow> int" where
  "begin_after i [] b = b"
| "begin_after i (c # cs) b = begin_after (Suc i) cs (if c = PACKET_BEGIN_CHAR then int i + 1 else b)"

lemma length_store_chars [simp]: "length (store_chars i cs buffer) = length buffer"
  by (induction i cs buffer rule: store_chars.induct) simp_all

lemma store_chars_take: "take i (store_chars i cs buffer) = take i buffer"
proof (induction i cs buffer rule: store_chars.induct)
  case (2 i c cs buffer)
  then have "take i (take (Suc i) (store_chars (Suc i) cs (buffer[i := c]))) = take i (take (Suc i) (buffer[i := c]))" by simp
  then show ?case by (simp add: min_def)
qed simp

lemma store_chars_eq:
  "i + length cs \<le> length buffer \<Longrightarrow> store_chars i cs buffer = take i buffer @ cs @ drop (i + length cs) buffer"
proof (induction i cs buffer rule: store_chars.induct)
  case (2 i c cs buffer)
  then show ?case by (simp add: take_Suc_conv_app_nth take_update_cancel)
qed simp

lemma begin_after_append: "begin_after i (cs @ ds) b = begin_after (i + length cs) ds (begin_after i cs b)"
  by (induction i cs b rule: begin_after.induct) simp_all

lemma begin_after_none: "PACKET_BEGIN_CHAR \<notin> set cs \<Longrightarrow> begin_after i cs b = b"
  by (induction i cs b rule: begin_after.induct) auto

lemma recv_loop_end:
  "getc fp = (PACKET_END_CHAR, fp1) \<Longrightarrow> i < BUFFER_SIZE \<Longrightarrow>
   recv_loop i buffer b fp = (buffer[i := PACKET_END_CHAR], b, Some (nat (int i - b)), fp1)"
  by (subst recv_loop.simps) (simp add: PACKET_END_CHAR_def PACKET_BEGIN_CHAR_def)

lemma recv_loop_step:
  "getc fp = (c, fp1) \<Longrightarrow> c \<noteq> PACKET_END_CHAR \<Longrightarrow> i < BUFFER_SIZE \<Longrightarrow>
   recv_loop i buffer b fp = recv_loop (Suc i) (buffer[i := c]) (if c = PACKET_BEGIN_CHAR then int i + 1 else b) fp1"
  by (subst recv_loop.simps) simp

lemma recv_loop_full: "\<not> i < BUFFER_SIZE \<Longrightarrow> recv_loop i buffer b fp = (buffer, b, None, fp)"
  by (subst recv_loop.simps) simp

lemma recv_loop_flat:
  assumes "open_stream fp" "flat fp = cs @ PACKET_END_CHAR # t" "PACKET_END_CHAR \<notin> set cs" "i + length cs < BUFFER_SIZE"
  shows "\<exists>fp'. recv_loop i buffer b fp = (store_chars i (cs @ [PACKET_END_CHAR]) buffer, begin_after i cs b,
      Some (nat (int (i + length cs) - begin_after i cs b)), fp') \<and> flat fp' = t \<and> open_stream fp'"
  using assms
proof (induction cs arbitrary: i buffer b fp)
  case Nil
  obtain fp' where "getc fp = (PACKET_END_CHAR, fp')" "flat fp' = t" "open_stream fp'"
    using getc_next [OF Nil(1)] Nil(2) by auto
  then show ?case using Nil(4) by (simp add: recv_loop_end)
next
  case (Cons c cs)
  obtain fp1 where g: "getc fp = (c, fp1)" "flat fp1 = cs @ PACKET_END_CHAR # t" "open_stream fp1"
    using getc_next [OF Cons.prems(1)] Cons.prems(2) by auto
  have c: "PACKET_END_CHAR \<notin> set cs" "c \<noteq> PACKET_END_CHAR" "Suc i + length cs < BUFFER_SIZE" "i < BUFFER_SIZE"
    using Cons.prems(3,4) by auto
  show ?case
    using Cons.IH [OF g(3,2) c(1,3), where buffer = "buffer[i := c]" and b = "if c = PACKET_BEGIN_CHAR then int i + 1 else b"]
    by (simp add: recv_loop_step [OF g(1) c(2,4)] add.assoc)
qed

text \<open>A packet that lies in what the stream has read ahead.\<close>

lemma recv_loop_ahead:
  assumes "PACKET_END_CHAR \<notin> set cs" "i + length cs < BUFFER_SIZE"
  shows "recv_loop i buffer b (cs @ PACKET_END_CHAR # t, inp) = (store_chars i (cs @ [PACKET_END_CHAR]) buffer,
      begin_after i cs b, Some (nat (int (i + length cs) - begin_after i cs b)), (t, inp))"
  using assms
proof (induction cs arbitrary: i buffer b)
  case Nil
  then show ?case by (simp add: recv_loop_end)
next
  case (Cons c cs)
  have c: "PACKET_END_CHAR \<notin> set cs" "c \<noteq> PACKET_END_CHAR" "Suc i + length cs < BUFFER_SIZE" "i < BUFFER_SIZE"
    using Cons.prems by auto
  have g: "getc (c # cs @ PACKET_END_CHAR # t, inp) = (c, cs @ PACKET_END_CHAR # t, inp)" by simp
  show ?case
    using Cons.IH [OF c(1,3), where buffer = "buffer[i := c]" and b = "if c = PACKET_BEGIN_CHAR then int i + 1 else b"]
    by (simp add: recv_loop_step [OF g c(2,4)])
qed

lemma getc_chunk: "x \<noteq> [] \<Longrightarrow> getc ([], x # inp) = getc (x, inp)"
  by (cases x) simp_all

lemma recv_loop_chunk:
  "x \<noteq> [] \<Longrightarrow> i < BUFFER_SIZE \<Longrightarrow> recv_loop i buffer b ([], x # inp) = recv_loop i buffer b (x, inp)"
  by (subst (1 2) recv_loop.simps) (simp add: getc_chunk)

text \<open>Bounds of the packet in the buffer.\<close>

lemma recv_loop_bounds:
  "recv_loop i buffer b fp = (buffer', b', Some n, fp') \<Longrightarrow> b = - 1 \<or> 1 \<le> b \<Longrightarrow> b \<le> int i \<Longrightarrow>
   length buffer' = length buffer \<and> (b' = - 1 \<or> 1 \<le> b') \<and> (b' \<noteq> - 1 \<longrightarrow> nat b' + n < BUFFER_SIZE)"
proof (induction "BUFFER_SIZE - i" arbitrary: i buffer b fp)
  case 0
  then show ?case by (simp add: recv_loop_full)
next
  case (Suc k)
  obtain c fp1 where g: "getc fp = (c, fp1)" by (cases "getc fp") auto
  have i: "i < BUFFER_SIZE" "k = BUFFER_SIZE - Suc i" using Suc(2) by auto
  show ?case
  proof (cases "c = PACKET_END_CHAR")
    case True
    then show ?thesis using Suc(3-) g i(1) by (auto simp: recv_loop_end)
  next
    case False
    show ?thesis
      using Suc(1) [OF i(2) Suc(3) [unfolded recv_loop_step [OF g False i(1)]]] Suc(4,5) by auto
  qed
qed

text \<open>What a packet with data \<open>data\<close> after some noise leaves in the buffer.\<close>

definition framed :: "string \<Rightarrow> string \<Rightarrow> bool" where
  "framed noise data \<longleftrightarrow> PACKET_END_CHAR \<notin> set noise \<and> PACKET_END_CHAR \<notin> set data \<and>
     PACKET_BEGIN_CHAR \<notin> set data \<and> length noise + 1 + length data < BUFFER_SIZE"

lemma frame_indices:
  assumes "framed noise data" "length buffer = BUFFER_SIZE"
  defines "cs \<equiv> noise @ PACKET_BEGIN_CHAR # data"
  shows "begin_after 0 cs (- 1) = int (length noise) + 1"
    and "nat (int (0 + length cs) - begin_after 0 cs (- 1)) = length data"
    and "take (length data) (drop (Suc (length noise)) (store_chars 0 (cs @ [PACKET_END_CHAR]) buffer)) = data"
proof -
  show b: "begin_after 0 cs (- 1) = int (length noise) + 1"
    using assms(1) by (simp add: cs_def begin_after_append begin_after_none framed_def)
  then show "nat (int (0 + length cs) - begin_after 0 cs (- 1)) = length data" by (simp add: cs_def)
  show "take (length data) (drop (Suc (length noise)) (store_chars 0 (cs @ [PACKET_END_CHAR]) buffer)) = data"
    using assms by (subst store_chars_eq) (simp_all add: cs_def framed_def)
qed

lemma recv_framed:
  assumes f: "framed noise data" "length (gdb_buffer s) = BUFFER_SIZE"
    and r: "incoming s = Some inp" "[] \<notin> set inp" "concat inp = noise @ PACKET_BEGIN_CHAR # data @ PACKET_END_CHAR # x # y # t"
  shows "\<exists>s'. recvAndCheck s = Inr (MEMU_OK, s') \<and> packet_data s' = data \<and>
    debuggedCore s' = debuggedCore s \<and> debuggedBus s' = debuggedBus s \<and> sent s' = sent s"
proof -
  let ?cs = "noise @ PACKET_BEGIN_CHAR # data"
  have "PACKET_END_CHAR \<notin> set ?cs" "0 + length ?cs < BUFFER_SIZE"
    using f(1) by (auto simp: framed_def PACKET_BEGIN_CHAR_def PACKET_END_CHAR_def)
  from recv_loop_flat [where fp = "([], inp)", OF _ _ this, of "x # y # t" "gdb_buffer s" "- 1"] r
  obtain fp1 where l: "recv_loop 0 (gdb_buffer s) (- 1) ([], inp) =
      (store_chars 0 (?cs @ [PACKET_END_CHAR]) (gdb_buffer s), int (length noise) + 1, Some (length data), fp1)"
    and fp1: "flat fp1 = x # y # t" "open_stream fp1"
    using frame_indices [OF f] by (auto simp: flat_def open_stream_def)
  obtain fp2 where fp2: "getc fp1 = (x, fp2)" "flat fp2 = y # t" "open_stream fp2" using getc_next [OF fp1(2,1)] by auto
  obtain fp3 where fp3: "getc fp2 = (y, fp3)" using getc_next [OF fp2(3,2)] by auto
  show ?thesis
    using frame_indices(3) [OF f]
    by (simp add: recvAndCheck_def r(1) l fp2(1) fp3 packet_data_def nat_add_distrib)
qed

text \<open>A packet that arrives in one piece; whatever came with it is lost.\<close>

lemma recv_chunk:
  assumes f: "framed noise data" "length (gdb_buffer s) = BUFFER_SIZE"
    and r: "incoming s = Some ((noise @ PACKET_BEGIN_CHAR # data @ PACKET_END_CHAR # x # y # t) # inp)"
  shows "\<exists>buffer. length buffer = BUFFER_SIZE \<and> take (length data) (drop (Suc (length noise)) buffer) = data \<and>
    recvAndCheck s = Inr (MEMU_OK, s\<lparr>gdb_buffer := buffer, connected := True, received := inp,
      packetBeginIndex := Suc (length noise), packetSize := length data\<rparr>)"
proof -
  let ?cs = "noise @ PACKET_BEGIN_CHAR # data"
  have c: "PACKET_END_CHAR \<notin> set ?cs" "0 + length ?cs < BUFFER_SIZE"
    using f(1) by (auto simp: framed_def PACKET_BEGIN_CHAR_def PACKET_END_CHAR_def)
  have "recv_loop 0 (gdb_buffer s) (- 1) ([], (noise @ PACKET_BEGIN_CHAR # data @ PACKET_END_CHAR # x # y # t) # inp) =
      (store_chars 0 (?cs @ [PACKET_END_CHAR]) (gdb_buffer s), int (length noise) + 1, Some (length data), (x # y # t, inp))"
    using recv_loop_ahead [OF c, where t = "x # y # t" and inp = inp] frame_indices [OF f]
    by (simp add: recv_loop_chunk BUFFER_SIZE_def)
  then show ?thesis
    using frame_indices(3) [OF f] f(2)
    by (intro exI [of _ "store_chars 0 (?cs @ [PACKET_END_CHAR]) (gdb_buffer s)"])
      (simp add: recvAndCheck_def r nat_add_distrib)
qed

section \<open>Sending and retrying\<close>

lemma resend_bounded:
  "nr \<le> 10 \<Longrightarrow> \<exists>k. k \<le> 10 - nr \<and> sent (resend frame nr ack s) = sent s @ concat (replicate k frame) \<and>
     gdb_buffer (resend frame nr ack s) = gdb_buffer s \<and> debuggedCore (resend frame nr ack s) = debuggedCore s \<and>
     debuggedBus (resend frame nr ack s) = debuggedBus s"
proof (induction "10 - nr" arbitrary: nr ack s)
  case 0
  then show ?case by (subst (1 2 3 4) resend.simps) (auto intro: exI [of _ 0])
next
  case (Suc j)
  show ?case
  proof (cases "ack = CHR ''+''")
    case True
    then show ?thesis by (subst (1 2 3 4) resend.simps) (auto intro: exI [of _ 0])
  next
    case False
    obtain ack1 inp where r: "read_ack ack (received s) = (ack1, inp)" by (cases "read_ack ack (received s)") auto
    have e: "resend frame nr ack s = resend frame (nr + 1) ack1 (s\<lparr>sent := sent s @ frame, received := inp\<rparr>)"
      using False Suc(2) r by (subst resend.simps) simp
    have "j = 10 - (nr + 1)" "nr + 1 \<le> 10" using Suc(2) by auto
    from Suc(1) [OF this, of ack1 "s\<lparr>sent := sent s @ frame, received := inp\<rparr>"] obtain k where
      "k \<le> 10 - (nr + 1)" "sent (resend frame nr ack s) = sent s @ frame @ concat (replicate k frame)"
      "gdb_buffer (resend frame nr ack s) = gdb_buffer s" "debuggedCore (resend frame nr ack s) = debuggedCore s"
      "debuggedBus (resend frame nr ack s) = debuggedBus s"
      unfolding e by auto
    then show ?thesis using Suc(2) by (intro exI [of _ "Suc k"]) auto
  qed
qed

lemma resend_keeps:
  "debuggedCore (resend frame 0 ack s) = debuggedCore s" "debuggedBus (resend frame 0 ack s) = debuggedBus s"
  "gdb_buffer (resend frame 0 ack s) = gdb_buffer s"
  using resend_bounded [of 0 frame ack s] by auto

lemma send_acked:
  "received s = ''+'' # inp \<Longrightarrow>
   packingAndSend data s = s\<lparr>sent := sent s @ packet_frame data, received := inp\<rparr>"
  by (simp add: packingAndSend_def) (subst resend.simps, simp)

lemma send_keeps:
  "debuggedCore (packingAndSend data s) = debuggedCore s" "debuggedBus (packingAndSend data s) = debuggedBus s"
  "gdb_buffer (packingAndSend data s) = gdb_buffer s"
  by (simp_all add: packingAndSend_def resend_keeps split: prod.split)

lemma recvAndCheck_bounds:
  "holdsR (recvAndCheck s) (\<lambda>(fb, s'). (fb = MEMU_OK \<or> fb = MEMU_PROTOCOL_ERR) \<and> length (gdb_buffer s') = length (gdb_buffer s) \<and>
     sent s' = sent s \<and> debuggedCore s' = debuggedCore s \<and> debuggedBus s' = debuggedBus s \<and>
     (fb = MEMU_OK \<longrightarrow> 0 < packetBeginIndex s' \<and> packetBeginIndex s' + packetSize s' < BUFFER_SIZE))"
proof -
  show ?thesis
  proof (cases "incoming s")
    case None
    then show ?thesis by (simp add: recvAndCheck_def)
  next
    case (Some inp)
    obtain buffer' b' sz fp' where l: "recv_loop 0 (gdb_buffer s) (- 1) ([], inp) = (buffer', b', sz, fp')"
      by (metis prod_cases4)
    show ?thesis
    proof (cases sz)
      case (Some n)
      from recv_loop_bounds [OF l [unfolded Some]] show ?thesis
        by (auto simp: recvAndCheck_def \<open>incoming s = Some inp\<close> l Some split: prod.split)
    qed (simp add: recvAndCheck_def Some l)
  qed
qed

text \<open>What a retry loop keeps and how often it asks again.\<close>

definition retried :: "'b gdb_stub \<Rightarrow> nat \<Rightarrow> 'b gdb_stub \<Rightarrow> bool" where
  "retried s k s' \<longleftrightarrow> sent s' = sent s @ replicate k CHR ''-'' \<and> length (gdb_buffer s') = length (gdb_buffer s) \<and>
     debuggedCore s' = debuggedCore s \<and> debuggedBus s' = debuggedBus s"

lemma recv_retry_protocol:
  assumes "fb = MEMU_OK \<or> fb = MEMU_PROTOCOL_ERR" "nr \<le> 10"
    and "fb = MEMU_OK \<longrightarrow> 0 < packetBeginIndex s \<and> packetBeginIndex s + packetSize s < BUFFER_SIZE"
  shows "holdsR (recv_retry MEMU_PROTOCOL_ERR nr fb s) (\<lambda>(nr', fb', s'). fb' = MEMU_OK \<and> nr' \<le> 10 \<and> nr \<le> nr' \<and>
    retried s (nr' - nr) s' \<and> 0 < packetBeginIndex s' \<and> packetBeginIndex s' + packetSize s' < BUFFER_SIZE)"
  using assms
proof (induction "10 - nr" arbitrary: nr fb s)
  case 0
  then show ?case by (subst recv_retry.simps) (auto simp: retried_def)
next
  case (Suc j)
  show ?case
  proof (cases "fb = MEMU_PROTOCOL_ERR")
    case False
    with Suc show ?thesis by (subst recv_retry.simps) (auto simp: retried_def)
  next
    case True
    have "holdsR (bindR (recvAndCheck (sendNAK s)) (\<lambda>(fb1, s1). recv_retry MEMU_PROTOCOL_ERR (nr + 1) fb1 s1))
      (\<lambda>(nr', fb', s'). fb' = MEMU_OK \<and> nr' \<le> 10 \<and> nr \<le> nr' \<and>
       retried s (nr' - nr) s' \<and> 0 < packetBeginIndex s' \<and> packetBeginIndex s' + packetSize s' < BUFFER_SIZE)"
    proof (rule holdsR_bindI [OF recvAndCheck_bounds], clarify)
      fix fb1 and s1 :: "'a gdb_stub"
      assume b: "fb1 = MEMU_OK \<or> fb1 = MEMU_PROTOCOL_ERR" "length (gdb_buffer s1) = length (gdb_buffer (sendNAK s))"
        "sent s1 = sent (sendNAK s)" "debuggedCore s1 = debuggedCore (sendNAK s)" "debuggedBus s1 = debuggedBus (sendNAK s)"
        "fb1 = MEMU_OK \<longrightarrow> 0 < packetBeginIndex s1 \<and> packetBeginIndex s1 + packetSize s1 < BUFFER_SIZE"
      have j: "j = 10 - (nr + 1)" "nr + 1 \<le> 10" using Suc(2) by auto
      show "holdsR (recv_retry MEMU_PROTOCOL_ERR (nr + 1) fb1 s1) (\<lambda>(nr', fb', s'). fb' = MEMU_OK \<and> nr' \<le> 10 \<and> nr \<le> nr' \<and>
       retried s (nr' - nr) s' \<and> 0 < packetBeginIndex s' \<and> packetBeginIndex s' + packetSize s' < BUFFER_SIZE)"
        by (rule holdsR_mono [OF Suc(1) [OF j(1) b(1) j(2) b(6)]])
          (use b in \<open>auto simp: retried_def sendNAK_def NAK_PACKET_DATA_def Suc_diff_Suc simp flip: replicate_Suc\<close>)
    qed
    with True Suc(2) show ?thesis by (subst recv_retry.simps) simp
  qed
qed

lemma recvPacket_bounds:
  "holdsR (recvPacket s) (\<lambda>(fb, s'). fb = MEMU_OK \<and> 0 < packetBeginIndex s' \<and>
     packetBeginIndex s' + packetSize s' < BUFFER_SIZE \<and> length (gdb_buffer s') = length (gdb_buffer s) \<and>
     debuggedCore s' = debuggedCore s \<and> debuggedBus s' = debuggedBus s \<and>
     (\<exists>k \<le> 10. sent s' = sent s @ replicate k CHR ''-'' @ ''+''))"
  unfolding recvPacket_def
proof (rule holdsR_bindI [OF recvAndCheck_bounds], clarify)
  fix fb and s1 :: "'a gdb_stub"
  assume b: "fb = MEMU_OK \<or> fb = MEMU_PROTOCOL_ERR" "length (gdb_buffer s1) = length (gdb_buffer s)"
    "sent s1 = sent s" "debuggedCore s1 = debuggedCore s" "debuggedBus s1 = debuggedBus s"
    "fb = MEMU_OK \<longrightarrow> 0 < packetBeginIndex s1 \<and> packetBeginIndex s1 + packetSize s1 < BUFFER_SIZE"
  have "recv_retry MEMU_CHKSUM_ERR 0 fb s1 = Inr (0, fb, s1)" using b(1) by (subst recv_retry.simps) auto
  moreover have "holdsR (bindR (recv_retry MEMU_PROTOCOL_ERR 0 fb s1) (\<lambda>(nr, fb', s3). Inr (fb', sendACK s3)))
    (\<lambda>(fb', s'). fb' = MEMU_OK \<and> 0 < packetBeginIndex s' \<and> packetBeginIndex s' + packetSize s' < BUFFER_SIZE \<and>
      length (gdb_buffer s') = length (gdb_buffer s) \<and> debuggedCore s' = debuggedCore s \<and> debuggedBus s' = debuggedBus s \<and>
      (\<exists>k \<le> 10. sent s' = sent s @ replicate k CHR ''-'' @ ''+''))"
    by (rule holdsR_bindI [OF recv_retry_protocol [OF b(1) _ b(6)]])
      (use b in \<open>auto simp: retried_def sendACK_def ACK_PACKET_DATA_def\<close>)
  ultimately show "holdsR (bindR (recv_retry MEMU_CHKSUM_ERR 0 fb s1) (\<lambda>(nr, feedback, s2).
     bindR (recv_retry MEMU_PROTOCOL_ERR nr feedback s2) (\<lambda>(nr, feedback, s3). Inr (feedback, sendACK s3))))
     (\<lambda>(fb', s'). fb' = MEMU_OK \<and> 0 < packetBeginIndex s' \<and> packetBeginIndex s' + packetSize s' < BUFFER_SIZE \<and>
      length (gdb_buffer s') = length (gdb_buffer s) \<and> debuggedCore s' = debuggedCore s \<and> debuggedBus s' = debuggedBus s \<and>
      (\<exists>k \<le> 10. sent s' = sent s @ replicate k CHR ''-'' @ ''+''))"
    by simp
qed

section \<open>The continue command\<close>

text \<open>\<open>k\<close> steps of the core.\<close>

primrec nsteps :: "'b bus_ops \<Rightarrow> nat \<Rightarrow> core \<Rightarrow> 'b \<Rightarrow> (core \<times> 'b) res" where
  "nsteps bus 0 c b = Inr (c, b)"
| "nsteps bus (Suc k) c b = bindR (Step_CoreAPI bus c b) (\<lambda>(c1, b1). nsteps bus k c1 b1)"

definition at_watchpoint :: "u64 set \<Rightarrow> core \<Rightarrow> bool" where
  "at_watchpoint W c \<longleftrightarrow> currentProgramCounter c \<in> W"

lemma IsCurrentPC_watchpoint: "IsCurrentPCAtWatchPoint_CoreDebug p = at_watchpoint (watchPointPCs p) (rvCore p)"
  by (simp add: IsCurrentPCAtWatchPoint_CoreDebug_def DumpProgramCounter_CoreAPI_def at_watchpoint_def)

text \<open>The first moment at which the core is at a watchpoint.\<close>

definition stops_after :: "'b bus_ops \<Rightarrow> u64 set \<Rightarrow> nat \<Rightarrow> core \<Rightarrow> 'b \<Rightarrow> core \<Rightarrow> 'b \<Rightarrow> bool" where
  "stops_after bus W k c b c' b' \<longleftrightarrow> nsteps bus k c b = Inr (c', b') \<and> at_watchpoint W c' \<and>
     (\<forall>j < k. holdsR (nsteps bus j c b) (\<lambda>(c1, b1). \<not> at_watchpoint W c1))"

lemma stops_after_Suc:
  "stops_after bus W (Suc k) c b c' b' \<longleftrightarrow> \<not> at_watchpoint W c \<and>
     (\<exists>c1 b1. Step_CoreAPI bus c b = Inr (c1, b1) \<and> stops_after bus W k c1 b1 c' b')"
  unfolding stops_after_def by (auto simp: bindR_eq_Inr All_less_Suc2)

lemma continue_complete:
  "stops_after bus (watchPointPCs p) k (rvCore p) b c' b' \<Longrightarrow>
   continue_loop bus p b = Some (Inr (p\<lparr>rvCore := c'\<rparr>, b'))"
proof (induction k arbitrary: p b)
  case 0
  then show ?case
    by (subst continue_loop.simps) (auto simp: IsCurrentPC_watchpoint stops_after_def)
next
  case (Suc k)
  then obtain c1 b1 where s: "\<not> at_watchpoint (watchPointPCs p) (rvCore p)" "Step_CoreAPI bus (rvCore p) b = Inr (c1, b1)"
    "stops_after bus (watchPointPCs p) k c1 b1 c' b'"
    by (auto simp: stops_after_Suc)
  show ?case
    using Suc.IH [of "p\<lparr>rvCore := c1\<rparr>" b1] s by (subst continue_loop.simps) (simp add: IsCurrentPC_watchpoint)
qed

definition stopped :: "'b bus_ops \<Rightarrow> processor \<Rightarrow> 'b \<Rightarrow> (processor \<times> 'b) res \<Rightarrow> bool" where
  "stopped bus p b r \<longleftrightarrow> holdsR r (\<lambda>(p', b'). p' = p\<lparr>rvCore := rvCore p'\<rparr> \<and>
     (\<exists>k. stops_after bus (watchPointPCs p) k (rvCore p) b (rvCore p') b'))"

lemma continue_sound: "continue_loop bus p b = Some r \<Longrightarrow> stopped bus p b r"
proof (erule continue_loop.raw_induct [rotated])
  fix loop and bus :: "'a bus_ops" and p b r
  assume IH: "\<And>bus p b r. loop bus p b = Some r \<Longrightarrow> stopped bus p b r"
    and e: "(if IsCurrentPCAtWatchPoint_CoreDebug p then Some (Inr (p, b))
        else case Step_CoreAPI bus (rvCore p) b of Inl e \<Rightarrow> Some (Inl e)
        | Inr (c, b1) \<Rightarrow> loop bus (p\<lparr>rvCore := c\<rparr>) b1) = Some r"
  show "stopped bus p b r"
  proof (cases "at_watchpoint (watchPointPCs p) (rvCore p)")
    case True
    with e have "r = Inr (p, b)" "stops_after bus (watchPointPCs p) 0 (rvCore p) b (rvCore p) b"
      by (simp_all add: stops_after_def IsCurrentPC_watchpoint)
    then show ?thesis by (auto simp: stopped_def)
  next
    case False
    show ?thesis
    proof (cases "Step_CoreAPI bus (rvCore p) b")
      case (Inl a)
      with e False show ?thesis by (auto simp: IsCurrentPC_watchpoint stopped_def)
    next
      case (Inr cb)
      obtain c1 b1 where s: "Step_CoreAPI bus (rvCore p) b = Inr (c1, b1)" using Inr by (cases cb) auto
      then have "loop bus (p\<lparr>rvCore := c1\<rparr>) b1 = Some r" using e False by (simp add: IsCurrentPC_watchpoint)
      from IH [OF this] show ?thesis
        unfolding stopped_def
        by (rule holdsR_mono) (use False s in \<open>auto simp: stops_after_Suc intro: exI [of _ "Suc k" for k]\<close>)
    qed
  qed
qed

section \<open>Whole packets\<close>

lemma debug_packet:
  assumes f: "framed noise data" "length (gdb_buffer s) = BUFFER_SIZE"
    and r: "incoming s = Some ((noise @ PACKET_BEGIN_CHAR # data @ PACKET_END_CHAR # x # y # t) # inp)"
  shows "\<exists>buffer. length buffer = BUFFER_SIZE \<and> Debug_iteration bus s =
    dispatch_cmd bus (ParsePacket_GDB_RSP_Utils data) (s\<lparr>gdb_buffer := buffer, connected := True, received := inp,
      packetBeginIndex := Suc (length noise), packetSize := length data, sent := sent s @ ''+''\<rparr>)"
proof -
  obtain buffer where b: "length buffer = BUFFER_SIZE" "take (length data) (drop (Suc (length noise)) buffer) = data"
    and rc: "recvAndCheck s = Inr (MEMU_OK, s\<lparr>gdb_buffer := buffer, connected := True, received := inp,
      packetBeginIndex := Suc (length noise), packetSize := length data\<rparr>)"
    using recv_chunk [OF assms] by blast
  then have "recvPacket s = Inr (MEMU_OK, s\<lparr>gdb_buffer := buffer, connected := True, received := inp,
      packetBeginIndex := Suc (length noise), packetSize := length data, sent := sent s @ ''+''\<rparr>)"
    unfolding recvPacket_def rc by (simp add: recv_retry.simps sendACK_def ACK_PACKET_DATA_def)
  with b show ?thesis by (intro exI [of _ buffer]) (simp add: Debug_iteration_def packet_data_def)
qed

end
