(* ===== verification/Gdb_Session.thy ===== *)
theory Gdb_Session
  imports Gdb_Stub Platform
begin

unbundle bit_operations_syntax

text \<open>
  A debugging session: what the packets of a debugger do to the core and the bus, and the entry
  point \<open>Debug_Platform_API\<close> of the default platform.
\<close>

section \<open>The entry point\<close>

text \<open>The debugger sees core 0; the other core, the devices and the run loop stand still.\<close>

definition Debug_Platform_API ::
    "nat \<Rightarrow> nat \<Rightarrow> u64 set \<Rightarrow> string list option \<Rightarrow> nat \<Rightarrow> platform \<Rightarrow> (string \<times> u64 set \<times> platform) res option" where
  "Debug_Platform_API idx0 size0 watch inp n p =
     map_option (\<lambda>r. bindR r (\<lambda>s. Inr (sent s, watchPointPCs (debuggedCore s),
         p\<lparr>sysBus := debuggedBus s, core0 := rvCore (debuggedCore s)\<rparr>)))
       (Debug_GDBStub bus_table n
          (new_GDBStub idx0 size0 \<lparr>rvCore = core0 p, watchPointPCs = watch\<rparr> (sysBus p) inp))"

section \<open>Packets of a debugger\<close>

definition read_packet :: "u64 \<Rightarrow> nat \<Rightarrow> string" where
  "read_packet a n = CHR ''m'' # print_hex (unat a) @ CHR '','' # print_hex n"

definition write_packet :: "u64 \<Rightarrow> u8 list \<Rightarrow> string" where
  "write_packet a bs = CHR ''M'' # print_hex (unat a) @ CHR '','' # print_hex (length bs) @ CHR '':'' # hex_bytes bs"

definition reg_payload :: "core \<Rightarrow> string" where
  "reg_payload c = hex_bytes (array_bytes 8 (GPR c @ [currentProgramCounter c]))"

lemma length_print_hex: "n < 16 ^ k \<Longrightarrow> 0 < k \<Longrightarrow> length (print_hex n) \<le> k"
proof (induction k arbitrary: n)
  case (Suc k)
  show ?case
  proof (cases "n < 16")
    case True
    then show ?thesis by (subst print_hex.simps) simp
  next
    case False
    then have "0 < k" using Suc.prems(1) by (cases k) auto
    moreover have "n div 16 < 16 ^ k" using Suc.prems(1) by (simp add: less_mult_imp_div_less mult.commute)
    ultimately show ?thesis using Suc.IH False by (subst print_hex.simps) simp
  qed
qed simp

lemma hex_chars_plain: "is_hex c \<Longrightarrow> c \<noteq> PACKET_BEGIN_CHAR \<and> c \<noteq> PACKET_END_CHAR"
  by (auto simp: PACKET_BEGIN_CHAR_def PACKET_END_CHAR_def not_hex)

definition plain :: "string \<Rightarrow> bool" where
  "plain s \<longleftrightarrow> PACKET_BEGIN_CHAR \<notin> set s \<and> PACKET_END_CHAR \<notin> set s"

lemma plain_hex: "hex_string s \<Longrightarrow> plain s" "plain (hex_bytes bs)"
  using hex_chars_plain hex_bytes_hex by (fastforce simp: plain_def hex_string_def)+

lemma plain_append [simp]: "plain (s @ t) \<longleftrightarrow> plain s \<and> plain t" "plain []"
  "plain (c # s) \<longleftrightarrow> c \<noteq> PACKET_BEGIN_CHAR \<and> c \<noteq> PACKET_END_CHAR \<and> plain s"
  by (auto simp: plain_def)

lemma framed_plain: "plain data \<Longrightarrow> length data + 1 < BUFFER_SIZE \<Longrightarrow> framed [] data"
  by (simp add: framed_def plain_def)

lemma framed_write:
  assumes "length bs \<le> 490"
  shows "framed [] (write_packet a bs)"
proof (rule framed_plain)
  show "plain (write_packet a bs)"
    by (simp add: write_packet_def plain_hex print_hex_string) (simp add: PACKET_BEGIN_CHAR_def PACKET_END_CHAR_def)
  have "length (print_hex (unat a)) \<le> 16" using unat_lt64 [of a] by (intro length_print_hex) simp_all
  moreover have "length (print_hex (length bs)) \<le> 16" using assms by (intro length_print_hex) simp_all
  ultimately show "length (write_packet a bs) + 1 < BUFFER_SIZE"
    using assms by (simp add: write_packet_def BUFFER_SIZE_def)
qed

lemma framed_read: "n < 2 ^ 63 \<Longrightarrow> framed [] (read_packet a n)"
proof (rule framed_plain)
  show "plain (read_packet a n)"
    by (simp add: read_packet_def plain_hex print_hex_string) (simp add: PACKET_BEGIN_CHAR_def PACKET_END_CHAR_def)
  assume "n < 2 ^ 63"
  then have "length (print_hex n) \<le> 16" by (intro length_print_hex) simp_all
  moreover have "length (print_hex (unat a)) \<le> 16" using unat_lt64 [of a] by (intro length_print_hex) simp_all
  ultimately show "length (read_packet a n) + 1 < BUFFER_SIZE" by (simp add: read_packet_def BUFFER_SIZE_def)
qed

section \<open>Memory packets\<close>

lemma dispatch_write:
  assumes "bs \<noteq> []" "unat a < 2 ^ 63" "length bs < 2 ^ 62" "debug_bare (rvCore (debuggedCore s))"
    and "PAddr_WriteBuffer_MMIOBus_API bus (debuggedBus s) a bs = Inr (MEMU_OK, b1)"
  shows "dispatch_cmd bus (ParsePacket_GDB_RSP_Utils (write_packet a bs)) s =
    Some (Inr (s\<lparr>sent := sent s @ ''+'', debuggedBus := b1\<rparr>))"
proof -
  have "2 * (of_nat (length bs) :: u64) = of_nat (2 * length bs)" by simp
  then show ?thesis
    using assms
    by (simp add: write_packet_def parse_args3 print_hex_string hex_bytes_string dispatch_cmd_def Let_def sendACK_def
        ACK_PACKET_DATA_def cmd_MemWrite_def strtoll_print parse_hex_bytes MemWrite_CoreDebugAPI_def)
qed

lemma dispatch_read:
  assumes "unat a < 2 ^ 63" "length bs < 2 ^ 31" "debug_bare (rvCore (debuggedCore s))"
    and "PAddr_ReadBuffer_MMIOBus_API bus (debuggedBus s) a (of_nat (length bs)) = Inr (MEMU_OK, Some bs, b1)"
    and "received s = ''+'' # inp"
  shows "dispatch_cmd bus (ParsePacket_GDB_RSP_Utils (read_packet a (length bs))) s =
    Some (Inr (s\<lparr>sent := sent s @ ''+'' @ packet_frame (hex_bytes bs), debuggedBus := b1, received := inp\<rparr>))"
proof -
  have "\<not> (2 ^ 31 :: u64) \<le> of_nat (length bs)"
    using assms(2) by (simp add: word_le_nat_alt unat_of_nat take_bit_nat_eq_self)
  then show ?thesis
    using assms
    by (simp add: read_packet_def parse_args2 print_hex_string dispatch_cmd_def Let_def sendACK_def
        ACK_PACKET_DATA_def cmd_MemRead_def strtoll_print MemRead_CoreDebugAPI_def send_acked)
qed

section \<open>Register packets\<close>

lemma dump_payload:
  "length (GPR c) = 32 \<Longrightarrow>
   concat (map (\<lambda>reg. hex_bytes (to_bytes (unat (reg_size reg)) (u64_val reg))) (snd (DumpRegister_CoreAPI c []))) = reg_payload c"
proof -
  assume l: "length (GPR c) = 32"
  have "map (\<lambda>reg. hex_bytes (to_bytes (unat (reg_size reg)) (u64_val reg))) (snd (DumpRegister_CoreAPI c [])) =
      map (\<lambda>v. hex_bytes (to_bytes 8 v)) (map u64_val (snd (DumpRegister_CoreAPI c [])))"
    using dump_sizes [of _ c] by simp
  also have "concat \<dots> = hex_bytes (array_bytes 8 (map u64_val (snd (DumpRegister_CoreAPI c []))))"
  proof -
    have "concat (map (\<lambda>v. hex_bytes (to_bytes 8 v)) vs) = hex_bytes (array_bytes 8 vs)" for vs :: "u64 list"
      by (induction vs) (simp_all add: array_bytes_def hex_bytes_def)
    then show ?thesis .
  qed
  finally show ?thesis by (simp only: dump_values [OF l] reg_payload_def)
qed

lemma dispatch_dump:
  assumes "length (GPR (rvCore (debuggedCore s))) = 32" "received s = ''+'' # inp"
  shows "dispatch_cmd bus (ParsePacket_GDB_RSP_Utils ''g'') s =
    Some (Inr (s\<lparr>sent := sent s @ ''+'' @ packet_frame (reg_payload (rvCore (debuggedCore s))), received := inp\<rparr>))"
  using assms
  by (simp add: parse_plain dispatch_cmd_def Let_def cmd_ReadAllRegister_def sendACK_def ACK_PACKET_DATA_def
      split_def dump_payload send_acked)

lemma reg_items_values:
  "8 * length vs = length data \<Longrightarrow> array_bytes 8 vs = data \<Longrightarrow> map u64_val (reg_items (length vs) 8 data) = vs"
proof -
  have "take 8 (drop (i * 8) (array_bytes 8 vs)) = to_bytes 8 (vs ! i)" if "i < length vs" for i and vs :: "u64 list"
    using mem_get_array [OF that, of 8] by (simp add: mem_get_def mult.commute split: if_splits)
  then show "8 * length vs = length data \<Longrightarrow> array_bytes 8 vs = data \<Longrightarrow> map u64_val (reg_items (length vs) 8 data) = vs"
    by (intro nth_equalityI) (auto simp: reg_items_def of_bytes_to_bytes_full)
qed

lemma dispatch_restore:
  assumes "length (GPR c) = 32"
  shows "dispatch_cmd bus (ParsePacket_GDB_RSP_Utils (CHR ''G'' # reg_payload c)) s =
    Some (Inr (s\<lparr>sent := sent s @ ''+'', debuggedCore := (debuggedCore s)\<lparr>rvCore := (rvCore (debuggedCore s))
       \<lparr>GPR := GPR c, currentProgramCounter := currentProgramCounter c\<rparr>\<rparr>\<rparr>))"
proof -
  let ?vs = "GPR c @ [currentProgramCounter c]"
  have len: "length (array_bytes 8 ?vs) = 264" using assms by simp
  then have "array_bytes 8 ?vs \<noteq> []" by (metis list.size(3) zero_neq_numeral)
  then have "hex_string (reg_payload c)" unfolding reg_payload_def by (rule hex_bytes_string)
  moreover have "length (reg_payload c) = 528" using len by (simp add: reg_payload_def)
  moreover have "ParseByteStreamStr (reg_payload c) = Inr (array_bytes 8 ?vs)"
    by (simp add: reg_payload_def parse_hex_bytes)
  moreover have "map u64_val (reg_items 33 8 (array_bytes 8 ?vs)) = ?vs"
    using reg_items_values [of ?vs, OF _ refl] assms by simp
  from write_all_values [OF this assms] have "WriteAllRegister_CoreAPI (reg_items 33 8 (array_bytes 8 ?vs)) c' =
      (MEMU_OK, c'\<lparr>GPR := GPR c, currentProgramCounter := currentProgramCounter c\<rparr>)" for c' .
  ultimately show ?thesis
    by (simp add: parse_args1 dispatch_cmd_def Let_def cmd_WriteAllRegister_def GetISABitLen_def sendACK_def
        ACK_PACKET_DATA_def)
qed

section \<open>Commands keep the core and the bus well-formed\<close>

definition stub_inv :: "('b \<Rightarrow> bool) \<Rightarrow> 'b gdb_stub \<Rightarrow> bool" where
  "stub_inv binv s \<longleftrightarrow> core_wf (rvCore (debuggedCore s)) \<and> binv (debuggedBus s)"

lemma stub_inv_simps [simp]:
  "stub_inv binv (packingAndSend data s) = stub_inv binv s" "stub_inv binv (sendACK s) = stub_inv binv s"
  by (simp_all add: stub_inv_def send_keeps sendACK_def)

context paddr_bus
begin

lemma nsteps_inv: "core_wf c \<Longrightarrow> binv b \<Longrightarrow> holdsR (nsteps bus k c b) (\<lambda>(c', b'). core_wf c' \<and> binv b')"
proof (induction k arbitrary: c b)
  case (Suc k)
  show ?case
    by (auto simp del: holdsR_bindR intro!: holdsR_bindI [OF Step_inv [OF Suc.prems]] Suc.IH)
qed simp

lemma cmd_MemRead_inv: "stub_inv binv s \<Longrightarrow> holdsR (cmd_MemRead bus p s) (stub_inv binv)"
  by (auto simp: cmd_MemRead_def Let_def simp del: holdsR_bindR holdsR_assertR intro!: holdsR_assertI initialised_any
      holdsR_bindI [OF MemRead_inv]) (auto simp: stub_inv_def)

lemma parse_any: "(\<And>x. holdsR (f x) P) \<Longrightarrow> holdsR (bindR (ParseByteStreamStr s) f) P"
  by (cases "ParseByteStreamStr s") auto

lemma cmd_MemWrite_inv: "stub_inv binv s \<Longrightarrow> holdsR (cmd_MemWrite bus p s) (stub_inv binv)"
  by (auto simp: cmd_MemWrite_def Let_def simp del: holdsR_bindR holdsR_assertR intro!: holdsR_assertI
      parse_any holdsR_bindI [OF MemWrite_inv]) (auto simp: stub_inv_def)

lemma watch_inv:
  "stub_inv binv s \<Longrightarrow> holdsR (cmd_InsertBreakpoint p s) (stub_inv binv)"
  "stub_inv binv s \<Longrightarrow> holdsR (cmd_RemoveBreakpoint p s) (stub_inv binv)"
  by (auto simp: cmd_InsertBreakpoint_def cmd_RemoveBreakpoint_def Let_def)
    (auto simp: stub_inv_def InsertWatchPoint_CoreDebug_def RemoveWatchPoint_CoreDebug_def)

lemma continue_inv:
  assumes "stub_inv binv s" "cmd_Continue bus p s = Some r"
  shows "holdsR r (stub_inv binv)"
proof -
  have "holdsR q (\<lambda>(p', b'). core_wf (rvCore p') \<and> binv b')"
    if "continue_loop bus (debuggedCore s) (debuggedBus s) = Some q" for q
    using continue_sound [OF that] assms(1) unfolding stopped_def
    by (elim holdsR_mono) (auto simp: stub_inv_def stops_after_def dest: holdsR_D [OF nsteps_inv])
  then show ?thesis
    using assms by (auto simp: cmd_Continue_def split: if_splits elim!: holdsR_mono) (auto simp: stub_inv_def)
qed

lemma dispatch_inv:
  assumes "stub_inv binv s" "packetType p \<noteq> CMD_REG_WRITE_ALL" "dispatch_cmd bus p s = Some r"
  shows "holdsR r (stub_inv binv)"
  using assms
  by (auto simp: dispatch_cmd_def Let_def cmd_GetHaltReason_def cmd_ReadAllRegister_def cmd_QSupported_def cmd_Unknown_def
      cmd_MemRead_inv cmd_MemWrite_inv watch_inv split_def continue_inv [of "sendACK s"] split: GDB_RSP_PacketType_e.splits)

end

section \<open>Properties\<close>

lemma frame_chars: "packet_frame data = PACKET_BEGIN_CHAR # data @ PACKET_END_CHAR # hex_digit (unat (CalCheckSum_GDB_RSP_Utils data) div 16) #
    hex_digit (unat (CalCheckSum_GDB_RSP_Utils data) mod 16) # []"
  by (simp add: packet_frame_def hex_byte_def)

text \<open>A packet that arrives alone.\<close>

lemma debug_frame:
  assumes "framed [] data" "length (gdb_buffer s) = BUFFER_SIZE" "incoming s = Some (packet_frame data # inp)"
  obtains s1 where "Debug_iteration bus s = dispatch_cmd bus (ParsePacket_GDB_RSP_Utils data) s1"
    "debuggedCore s1 = debuggedCore s" "debuggedBus s1 = debuggedBus s" "received s1 = inp" "connected s1" "sent s1 = sent s @ ''+''"
    "length (gdb_buffer s1) = BUFFER_SIZE"
proof -
  from debug_packet [OF assms(1,2), of _ _ "[]" inp bus] assms(3)[unfolded frame_chars] obtain buffer where
    "length buffer = BUFFER_SIZE" "Debug_iteration bus s =
     dispatch_cmd bus (ParsePacket_GDB_RSP_Utils data) (s\<lparr>gdb_buffer := buffer, connected := True, received := inp,
      packetBeginIndex := Suc 0, packetSize := length data, sent := sent s @ ''+''\<rparr>)"
    by auto
  note b = this
  show thesis by (rule that [OF b(2)]) (simp_all add: b(1))
qed


text \<open>A session to apply the properties to.\<close>

definition example_stub :: "string list \<Rightarrow> device mmio_bus gdb_stub" where
  "example_stub inp = new_GDBStub 0 0 \<lparr>rvCore = example_core, watchPointPCs = {0x80000000}\<rparr> (sysBus example_platform) (Some inp)"

lemma example_stub_simps [simp]:
  "rvCore (debuggedCore (example_stub inp)) = example_core" "watchPointPCs (debuggedCore (example_stub inp)) = {0x80000000}"
  "debuggedBus (example_stub inp) = sysBus example_platform" "incoming (example_stub inp) = Some inp"
  "sent (example_stub inp) = []" "length (gdb_buffer (example_stub inp)) = BUFFER_SIZE"
  by (simp_all add: example_stub_def new_GDBStub_def incoming_def)

lemma example_stub_bare: "debug_bare example_core"
  by (simp add: debug_bare_def example_core_def core_reset_def)

lemma example_board: "board_wf (sysBus example_platform)"
  using example_platform_wf by (simp add: platform_wf_def)


text \<open>C35: The dump that the packet g sends, sent back with the packet G at any later state, restores
  the registers and the program counter of the dumped core and nothing else.\<close>

theorem gdb_register_roundtrip:
  assumes "length (GPR (rvCore (debuggedCore s))) = 32" and "received s = ''+'' # inp"
  shows "dispatch_cmd bus (ParsePacket_GDB_RSP_Utils ''g'') s =
      Some (Inr (s\<lparr>sent := sent s @ ''+'' @ packet_frame (reg_payload (rvCore (debuggedCore s))), received := inp\<rparr>)) \<and>
    dispatch_cmd bus (ParsePacket_GDB_RSP_Utils (CHR ''G'' # reg_payload (rvCore (debuggedCore s)))) s1 =
      Some (Inr (s1\<lparr>sent := sent s1 @ ''+'', debuggedCore := (debuggedCore s1)\<lparr>rvCore := (rvCore (debuggedCore s1))
        \<lparr>GPR := GPR (rvCore (debuggedCore s)),
         currentProgramCounter := currentProgramCounter (rvCore (debuggedCore s))\<rparr>\<rparr>\<rparr>))"
  using dispatch_dump [OF assms] dispatch_restore [OF assms(1)] by simp

theorem gdb_register_roundtrip_witness:
  "\<exists>s2. dispatch_cmd bus_table (ParsePacket_GDB_RSP_Utils (CHR ''G'' # reg_payload example_core)) (example_stub []) = Some (Inr s2) \<and>
     GPR (rvCore (debuggedCore s2)) = GPR example_core"
proof -
  have "length (GPR example_core) = 32" by (simp add: example_core_def core_reset_def)
  then show ?thesis
    using gdb_register_roundtrip [of "(example_stub [])\<lparr>connected := True, received := [''+'']\<rparr>" "[]" bus_table "example_stub []"] by auto
qed




lemma continue_iff:
  "continue_loop bus p b = Some (Inr (p', b')) \<longleftrightarrow>
     p' = p\<lparr>rvCore := rvCore p'\<rparr> \<and> (\<exists>k. stops_after bus (watchPointPCs p) k (rvCore p) b (rvCore p') b')"
proof
  assume "continue_loop bus p b = Some (Inr (p', b'))"
  from continue_sound [OF this] show "p' = p\<lparr>rvCore := rvCore p'\<rparr> \<and>
      (\<exists>k. stops_after bus (watchPointPCs p) k (rvCore p) b (rvCore p') b')"
    by (simp add: stopped_def)
next
  assume "p' = p\<lparr>rvCore := rvCore p'\<rparr> \<and> (\<exists>k. stops_after bus (watchPointPCs p) k (rvCore p) b (rvCore p') b')"
  then obtain k where "p' = p\<lparr>rvCore := rvCore p'\<rparr>" "stops_after bus (watchPointPCs p) k (rvCore p) b (rvCore p') b'" by blast
  with continue_complete [OF this(2)] show "continue_loop bus p b = Some (Inr (p', b'))" by simp
qed

lemma cmd_Continue_iff:
  "cmd_Continue bus (parsed CMD_CONTINUE []) s = Some (Inr s') \<longleftrightarrow>
     (\<exists>k c b. stops_after bus (watchPointPCs (debuggedCore s)) k (rvCore (debuggedCore s)) (debuggedBus s) c b \<and>
       s' = packingAndSend ''S05'' (s\<lparr>debuggedCore := (debuggedCore s)\<lparr>rvCore := c\<rparr>, debuggedBus := b\<rparr>))"
proof -
  have "cmd_Continue bus (parsed CMD_CONTINUE []) s = Some (Inr s') \<longleftrightarrow>
    (\<exists>p b. continue_loop bus (debuggedCore s) (debuggedBus s) = Some (Inr (p, b)) \<and>
      s' = packingAndSend ''S05'' (s\<lparr>debuggedCore := p, debuggedBus := b\<rparr>))"
    by (auto simp: cmd_Continue_def bindR_eq_Inr)
  also have "\<dots> \<longleftrightarrow> (\<exists>k c b. stops_after bus (watchPointPCs (debuggedCore s)) k (rvCore (debuggedCore s)) (debuggedBus s) c b \<and>
       s' = packingAndSend ''S05'' (s\<lparr>debuggedCore := (debuggedCore s)\<lparr>rvCore := c\<rparr>, debuggedBus := b\<rparr>))"
    (is "(\<exists>p b. ?L p b \<and> s' = ?F p b) \<longleftrightarrow> (\<exists>k c b. ?S k c b \<and> s' = ?F (?P c) b)")
  proof
    assume "\<exists>p b. ?L p b \<and> s' = ?F p b"
    then obtain p b k where p: "p = ?P (rvCore p)" and "?S k (rvCore p) b" "s' = ?F p b" unfolding continue_iff by blast
    then have "?S k (rvCore p) b \<and> s' = ?F (?P (rvCore p)) b" by (subst (asm) p) simp
    then show "\<exists>k c b. ?S k c b \<and> s' = ?F (?P c) b" by blast
  next
    assume "\<exists>k c b. ?S k c b \<and> s' = ?F (?P c) b"
    then obtain k c b where "?S k c b" "s' = ?F (?P c) b" by blast
    moreover from this(1) have "?L (?P c) b" by (rule continue_complete)
    ultimately show "\<exists>p b. ?L p b \<and> s' = ?F p b" by blast
  qed
  finally show ?thesis .
qed

text \<open>Continuing from a watchpoint makes no progress.\<close>

lemma continue_at_watchpoint_stays:
  "at_watchpoint (watchPointPCs (debuggedCore s)) (rvCore (debuggedCore s)) \<Longrightarrow>
   cmd_Continue bus (parsed CMD_CONTINUE []) s = Some (Inr (packingAndSend ''S05'' s))"
  unfolding cmd_Continue_iff
  by (intro exI [of _ 0] exI [of _ "rvCore (debuggedCore s)"] exI [of _ "debuggedBus s"]) (simp add: stops_after_def)

text \<open>C38: The continue command returns exactly when some number of steps brings the core to a
  watchpoint for the first time, and then leaves the core and the bus of that moment and reports
  S05.\<close>

theorem continue_stops_at_watchpoint:
  "cmd_Continue bus (parsed CMD_CONTINUE []) s = Some (Inr s') \<longleftrightarrow>
     (\<exists>k c b. stops_after bus (watchPointPCs (debuggedCore s)) k (rvCore (debuggedCore s)) (debuggedBus s) c b \<and>
       s' = packingAndSend ''S05'' (s\<lparr>debuggedCore := (debuggedCore s)\<lparr>rvCore := c\<rparr>, debuggedBus := b\<rparr>))"
  by (rule cmd_Continue_iff)

text \<open>C39: Every command of the debugger except the write of all registers keeps the core and the
  board well-formed, whatever the packet says and also when it steps the core until a watchpoint.\<close>

theorem commands_keep_wellformed:
  assumes "core_wf (rvCore (debuggedCore s))" and "board_wf (debuggedBus s)" and "packetType p \<noteq> CMD_REG_WRITE_ALL"
    and "dispatch_cmd bus_table p s = Some r"
  shows "holdsR r (\<lambda>s'. core_wf (rvCore (debuggedCore s')) \<and> board_wf (debuggedBus s'))"
  by (rule holdsR_mono [OF board.dispatch_inv [OF _ assms(3,4)]]) (use assms(1,2) in \<open>auto simp: stub_inv_def\<close>)

theorem commands_keep_wellformed_witness:
  "holdsR (Inr (cmd_GetHaltReason (sendACK (example_stub [''+''])))) (\<lambda>s'. board_wf (debuggedBus s'))"
  using commands_keep_wellformed [of "example_stub [''+'']" "\<lparr>packetType = CMD_QUERY_HALT_REASON, cmd = [], paramList = []\<rparr>"]
    core_wf_examples(1) example_board
  by (simp add: dispatch_cmd_def Let_def)

text \<open>C39: Every packet of the forms that the protocol gives the supported commands is classified as
  that command with its hexadecimal arguments in order.\<close>

theorem packets_classified:
  assumes "hex_string a" and "hex_string b" and "hex_string c"
  shows "ParsePacket_GDB_RSP_Utils (CHR ''m'' # a @ CHR '','' # b) = parsed CMD_MEM_READ [a, b] \<and>
    ParsePacket_GDB_RSP_Utils (CHR ''M'' # a @ CHR '','' # b @ CHR '':'' # c) = parsed CMD_MEM_WRITE [a, b, c] \<and>
    ParsePacket_GDB_RSP_Utils (CHR ''Z'' # a @ CHR '','' # b @ CHR '','' # c) = parsed CMD_INSERT_BREAKPOINT [a, b, c] \<and>
    ParsePacket_GDB_RSP_Utils (CHR ''z'' # a @ CHR '','' # b @ CHR '','' # c) = parsed CMD_REMOVE_BREAKPOINT [a, b, c] \<and>
    ParsePacket_GDB_RSP_Utils (CHR ''G'' # a) = parsed CMD_REG_WRITE_ALL [a] \<and>
    ParsePacket_GDB_RSP_Utils ''g'' = parsed CMD_REG_READ_ALL [] \<and>
    ParsePacket_GDB_RSP_Utils ''?'' = parsed CMD_QUERY_HALT_REASON [] \<and>
    ParsePacket_GDB_RSP_Utils ''c'' = parsed CMD_CONTINUE []"
  using assms by (simp only: parse_args1 parse_args2 parse_args3 parse_plain parse_continue)

theorem packets_classified_witness:
  "ParsePacket_GDB_RSP_Utils ''m80000000,4'' = parsed CMD_MEM_READ [''80000000'', ''4'']"
proof -
  have "hex_string ''80000000''" "hex_string ''4''" by code_simp+
  from packets_classified [OF this this(2)] show ?thesis by simp
qed

end
