(* ===== verification/Obj_Factory.thy ===== *)
theory Obj_Factory
  imports Prelude
begin

text \<open>
  The object factory (\<open>include/misc/obj_factory.hpp\<close>, \<open>include/sdk/instance_desc.h\<close>): every module
  of the emulator is a shared library in a directory under \<open>./lib\<close> that exports its description
  and a constructor; the factory loads the files of the directory one after the other until the
  description asked for turns up.

  The file system and the dynamic loader are parameters: a directory is the sequence of its
  entries in the order the iterator visits them, each with what \<open>dlopen\<close> makes of it (\<open>None\<close> when
  it fails); an absent directory is \<open>None\<close>. What the factory prints is left out.
\<close>

section \<open>Descriptions and libraries\<close>

record EnvConfHelp_t =
  env_key :: string
  env_help :: string

record InstanceDesc_t =
  desc_str :: string
  env_help_list :: "EnvConfHelp_t list option"
  env_help_list_len :: u32

text \<open>The designated initialiser \<open>{ .desc_str = s }\<close> leaves the other members null and zero.\<close>

definition desc_of :: "string \<Rightarrow> InstanceDesc_t" where
  "desc_of s = \<lparr>desc_str = s, env_help_list = None, env_help_list_len = 0\<rparr>"

text \<open>A constructor function, by the type of the object it makes. The loader returns an untyped
  pointer; calling it at another type than its own is undefined. The constructor of a platform
  goes through the factory itself and may end the process.\<close>

datatype ('bus, 'core, 'intc, 'dev, 'platform) api =
    Bus_API 'bus
  | Core_API "'bus option \<Rightarrow> u64 \<Rightarrow> 'core"
  | Intc_API 'intc
  | Dev_API 'dev
  | Platform_API "'platform res"

text \<open>The two symbols the factory looks up in a loaded library (\<open>dlsym\<close>), each absent or present.\<close>

record 'f lib =
  InstanceDesc_GV :: "InstanceDesc_t option"
  GetInstance_API :: "'f option"

type_synonym 'f dir = "(string \<times> 'f lib option) list"
type_synonym 'f host = "string \<rightharpoonup> 'f dir"

section \<open>The search\<close>

text \<open>\<open>get_lib_names\<close>: the directory iterator throws when the directory cannot be opened.\<close>

definition get_lib_names :: "'f host \<Rightarrow> string \<Rightarrow> 'f dir res" where
  "get_lib_names host path = (case host path of None \<Rightarrow> Inl UncaughtException | Some libs \<Rightarrow> Inr libs)"

text \<open>Both arguments are pointers; two equal pointers lead to equal strings.\<close>

definition is_desc_match :: "InstanceDesc_t option \<Rightarrow> InstanceDesc_t option \<Rightarrow> bool res" where
  "is_desc_match desc_1 desc_2 =
     assertR (desc_1 \<noteq> None) (assertR (desc_2 \<noteq> None)
       (if desc_1 = desc_2 then Inr True
        else if desc_str (the desc_1) = desc_str (the desc_2) then Inr True
        else Inr False))"

text \<open>Handles of loaded libraries that are still open, the last one first. Closing the null handle
  is undefined; the C library follows it.\<close>

definition dlclose :: "string option \<Rightarrow> string list \<Rightarrow> string list res" where
  "dlclose handle open_handles = bindR (deref handle) (\<lambda>h. Inr (remove1 h open_handles))"

text \<open>The loop of \<open>get_constructor_func\<close>: the constructor found, if any, and the handles left open.\<close>

fun find_constructor :: "InstanceDesc_t \<Rightarrow> 'f dir \<Rightarrow> string list \<Rightarrow> ('f option \<times> string list) res" where
  "find_constructor desc [] hs = Inr (None, hs)"
| "find_constructor desc ((s, None) # libs) hs =
     bindR (dlclose None hs) (find_constructor desc libs)"
| "find_constructor desc ((s, Some lib) # libs) hs =
     (if InstanceDesc_GV lib = None then bindR (dlclose (Some s) (s # hs)) (find_constructor desc libs)
      else bindR (is_desc_match (Some desc) (InstanceDesc_GV lib)) (\<lambda>matches.
        if matches then
          (case GetInstance_API lib of
             None \<Rightarrow> bindR (dlclose (Some s) (s # hs)) (find_constructor desc libs)
           | Some f \<Rightarrow> Inr (Some f, s # hs))
        else find_constructor desc libs (s # hs)))"

definition get_constructor_func :: "'f host \<Rightarrow> InstanceDesc_t \<Rightarrow> string \<Rightarrow> ('f option \<times> string list) res" where
  "get_constructor_func host desc path =
     bindR (get_lib_names host path) (\<lambda>libs. find_constructor desc libs [])"

section \<open>Instances\<close>

text \<open>A null result when no constructor was found.\<close>

definition instance_of :: "('f \<Rightarrow> 'a res) \<Rightarrow> ('f option \<times> string list) res \<Rightarrow> 'a option res" where
  "instance_of call r = bindR r (\<lambda>(get_instance_api, _).
     case get_instance_api of
       None \<Rightarrow> Inr None
     | Some f \<Rightarrow> bindR (call f) (\<lambda>x. Inr (Some x)))"

definition Core_GetInstance ::
    "('bus, 'core, 'intc, 'dev, 'platform) api host \<Rightarrow> InstanceDesc_t \<Rightarrow> 'bus option \<Rightarrow> u64 \<Rightarrow> 'core option res" where
  "Core_GetInstance host desc bus hart_id =
     instance_of (\<lambda>api. case api of Core_API f \<Rightarrow> Inr (f bus hart_id) | _ \<Rightarrow> Inl InvalidPointer)
       (get_constructor_func host desc ''./lib/core'')"

definition IntCtrl_GetInstance ::
    "('bus, 'core, 'intc, 'dev, 'platform) api host \<Rightarrow> InstanceDesc_t \<Rightarrow> u64 \<Rightarrow> 'intc option res" where
  "IntCtrl_GetInstance host desc hart_id =
     instance_of (\<lambda>api. case api of Intc_API x \<Rightarrow> Inr x | _ \<Rightarrow> Inl InvalidPointer)
       (get_constructor_func host desc ''./lib/intc'')"

definition Bus_GetInstance ::
    "('bus, 'core, 'intc, 'dev, 'platform) api host \<Rightarrow> InstanceDesc_t \<Rightarrow> 'bus option res" where
  "Bus_GetInstance host desc =
     instance_of (\<lambda>api. case api of Bus_API x \<Rightarrow> Inr x | _ \<Rightarrow> Inl InvalidPointer)
       (get_constructor_func host desc ''./lib/bus'')"

definition MMIO_Dev_GetInstance ::
    "('bus, 'core, 'intc, 'dev, 'platform) api host \<Rightarrow> InstanceDesc_t \<Rightarrow> u64 \<Rightarrow> 'dev option res" where
  "MMIO_Dev_GetInstance host desc hart_id =
     instance_of (\<lambda>api. case api of Dev_API x \<Rightarrow> Inr x | _ \<Rightarrow> Inl InvalidPointer)
       (get_constructor_func host desc ''./lib/dev'')"

definition Platform_GetInstance ::
    "('bus, 'core, 'intc, 'dev, 'platform) api host \<Rightarrow> InstanceDesc_t \<Rightarrow> 'platform option res" where
  "Platform_GetInstance host desc =
     instance_of (\<lambda>api. case api of Platform_API x \<Rightarrow> x | _ \<Rightarrow> Inl InvalidPointer)
       (get_constructor_func host desc ''./lib/platform'')"

section \<open>What the search finds\<close>

text \<open>An entry that ends the search, and one that is loaded for nothing.\<close>

definition provides :: "string \<Rightarrow> string \<times> 'f lib option \<Rightarrow> bool" where
  "provides n e = (case snd e of
       None \<Rightarrow> False
     | Some lib \<Rightarrow> map_option desc_str (InstanceDesc_GV lib) = Some n \<and> GetInstance_API lib \<noteq> None)"

definition other_module :: "string \<Rightarrow> string \<times> 'f lib option \<Rightarrow> bool" where
  "other_module n e = (case snd e of
       None \<Rightarrow> False
     | Some lib \<Rightarrow> InstanceDesc_GV lib \<noteq> None \<and> map_option desc_str (InstanceDesc_GV lib) \<noteq> Some n)"

definition unloadable :: "string \<times> 'f lib option \<Rightarrow> bool" where
  "unloadable e \<longleftrightarrow> snd e = None"

definition skipped :: "string \<Rightarrow> 'f dir \<Rightarrow> 'f dir" where
  "skipped n libs = takeWhile (\<lambda>e. \<not> provides n e) libs"

text \<open>The result, read off the directory: its first entry of the name and the handles of the other
  modules in front of it.\<close>

definition search_spec :: "string \<Rightarrow> 'f dir \<Rightarrow> string list \<Rightarrow> ('f option \<times> string list) res" where
  "search_spec n libs hs =
     (if list_ex unloadable (skipped n libs) then Inl InvalidPointer
      else (let left = rev (map fst (filter (other_module n) (skipped n libs))) @ hs in
        case find (provides n) libs of
          Some (s, Some lib) \<Rightarrow> Inr (GetInstance_API lib, s # left)
        | _ \<Rightarrow> Inr (None, left)))"

lemma is_desc_match_some: "is_desc_match (Some d) (Some e) = Inr (desc_str d = desc_str e)"
  by (auto simp: is_desc_match_def)

lemma is_desc_match_null: "is_desc_match None e = Inl AssertionFailure" "is_desc_match d None = Inl AssertionFailure"
  by (cases d; simp add: is_desc_match_def)+

lemma dlclose_last: "dlclose (Some s) (s # hs) = Inr hs"
  by (simp add: dlclose_def)

lemma entry_simps [simp]:
  "\<not> provides n (s, None)" "\<not> other_module n (s, None)" "unloadable (s, None)" "\<not> unloadable (s, Some lib)"
  "provides n (s, Some lib) \<longleftrightarrow> map_option desc_str (InstanceDesc_GV lib) = Some n \<and> GetInstance_API lib \<noteq> None"
  "other_module n (s, Some lib) \<longleftrightarrow> InstanceDesc_GV lib \<noteq> None \<and> map_option desc_str (InstanceDesc_GV lib) \<noteq> Some n"
  by (simp_all add: provides_def other_module_def unloadable_def)

lemma search_spec_Cons:
  "search_spec n ((s, None) # libs) hs = Inl InvalidPointer"
  "search_spec n ((s, Some lib) # libs) hs =
     (if provides n (s, Some lib) then Inr (GetInstance_API lib, s # hs)
      else search_spec n libs (if other_module n (s, Some lib) then s # hs else hs))"
  by (simp_all add: search_spec_def skipped_def Let_def del: entry_simps(5,6) cong: option.case_cong prod.case_cong)

lemma find_constructor_spec: "find_constructor desc libs hs = search_spec (desc_str desc) libs hs"
proof (induction desc libs hs rule: find_constructor.induct)
  case (1 desc hs)
  show ?case by (simp add: search_spec_def skipped_def)
next
  case (2 desc s libs hs)
  show ?case by (simp add: search_spec_Cons dlclose_def)
next
  case (3 desc s lib libs hs)
  then show ?case
    by (cases "InstanceDesc_GV lib"; cases "GetInstance_API lib")
      (auto simp: search_spec_Cons dlclose_last is_desc_match_some)
qed

lemma get_constructor_func_spec:
  "get_constructor_func host desc path = bindR (get_lib_names host path) (\<lambda>libs. search_spec (desc_str desc) libs [])"
  by (simp add: get_constructor_func_def find_constructor_spec)

text \<open>A directory that supplies a module: every file of it loads, and the first one of the name
  exports the constructor.\<close>

definition supplies :: "'f host \<Rightarrow> string \<Rightarrow> string \<Rightarrow> 'f \<Rightarrow> bool" where
  "supplies host path n f = (case host path of
       None \<Rightarrow> False
     | Some libs \<Rightarrow> \<not> list_ex unloadable libs \<and>
         (case find (provides n) libs of
            Some (_, Some lib) \<Rightarrow> GetInstance_API lib = Some f
          | _ \<Rightarrow> False))"

lemma not_unloadable_skipped: "\<not> list_ex unloadable libs \<Longrightarrow> \<not> list_ex unloadable (skipped n libs)"
  by (auto simp: list_ex_iff skipped_def dest: set_takeWhileD)

lemma supplies_found:
  assumes "supplies host path (desc_str desc) f"
  shows "\<exists>hs. get_constructor_func host desc path = Inr (Some f, hs)"
proof -
  obtain libs where l: "host path = Some libs" "\<not> list_ex unloadable libs"
    "case find (provides (desc_str desc)) libs of Some (_, Some lib) \<Rightarrow> GetInstance_API lib = Some f | _ \<Rightarrow> False"
    using assms by (auto simp: supplies_def split: option.splits)
  then obtain s lib where "find (provides (desc_str desc)) libs = Some (s, Some lib)" "GetInstance_API lib = Some f"
    by (auto split: option.splits)
  then show ?thesis
    using l(1) not_unloadable_skipped [OF l(2), of "desc_str desc"]
    by (simp add: get_constructor_func_spec get_lib_names_def search_spec_def Let_def)
qed

lemma instance_supplied:
  assumes "supplies host path (desc_str desc) f"
  shows "instance_of call (get_constructor_func host desc path) = bindR (call f) (\<lambda>x. Inr (Some x))"
  using supplies_found [OF assms] by (auto simp: instance_of_def)

lemma instance_missing:
  assumes "host path = Some libs" "\<not> list_ex unloadable libs" "\<not> list_ex (provides (desc_str desc)) libs"
  shows "instance_of call (get_constructor_func host desc path) = Inr None"
proof -
  have "find (provides (desc_str desc)) libs = None" using assms(3) by (auto simp: find_None_iff list_ex_iff)
  then show ?thesis
    using assms(1) not_unloadable_skipped [OF assms(2)]
    by (simp add: instance_of_def get_constructor_func_spec get_lib_names_def search_spec_def Let_def)
qed

section \<open>Properties\<close>

text \<open>C24: The object factory returns the constructor of the first library in a directory whose
  description equals the requested name, and leaves the libraries of other modules it met on the
  way open; a library that cannot be loaded before that one crashes it, a missing directory
  throws, and without a match it returns the null pointer.\<close>

theorem factory_takes_first_match:
  "get_constructor_func host desc path = (case host path of
       None \<Rightarrow> Inl UncaughtException
     | Some libs \<Rightarrow>
         if list_ex unloadable (skipped (desc_str desc) libs) then Inl InvalidPointer
         else (let left = rev (map fst (filter (other_module (desc_str desc)) (skipped (desc_str desc) libs))) in
           case find (provides (desc_str desc)) libs of
             Some (s, Some lib) \<Rightarrow> Inr (GetInstance_API lib, s # left)
           | _ \<Rightarrow> Inr (None, left)))"
  by (simp add: get_constructor_func_spec get_lib_names_def search_spec_def split: option.split)

end
