(* ===== verification/Boot.thy ===== *)
theory Boot
  imports Obj_Factory Platform
begin

text \<open>
  From the module libraries to a running platform: the description and the constructor each module
  exports (\<open>module_manifest.hpp\<close> of every module), the constructor of the default platform, which
  gets its parts from the object factory, and its initialisation
  (\<open>modules/platform/default/include/DefaultPlatform.hpp\<close>,
  \<open>modules/dev/uartlite/include/MMIODev_CemuUartAdapter.hpp\<close>).
\<close>

section \<open>Module manifests\<close>

type_synonym module_api = "(device mmio_bus, core, device mmio_dev, device mmio_dev, platform) api"
type_synonym modules = "module_api host"

text \<open>Memory the modules allocate without initialising it: the RAM block, and for each hart the
  memory of the core object and its new translation unit.\<close>

record junk =
  ram_junk :: "u64 \<Rightarrow> u8"
  core_junk :: "u64 \<Rightarrow> core"
  tlb_junk :: "u64 \<Rightarrow> SV39_TLB_Entry list"
  pa_junk :: "u64 \<Rightarrow> u64"
  sz_junk :: "u64 \<Rightarrow> u64"

definition mmio_bus_lib :: "module_api lib" where
  "mmio_bus_lib = \<lparr>InstanceDesc_GV = Some (desc_of ''mmio_bus''),
     GetInstance_API = Some (Bus_API (new_bus []))\<rparr>"

text \<open>The hart number is cut to 16 bits by the constructor of the core.\<close>

definition new_core_at :: "junk \<Rightarrow> device mmio_bus option \<Rightarrow> u64 \<Rightarrow> core" where
  "new_core_at j sys_bus hart_id =
     new_core (core_junk j hart_id)
       (new_mmu (tlb_junk j hart_id) (pa_junk j hart_id) (sz_junk j hart_id) (ucast (ucast hart_id :: u16)))
       (ucast hart_id)"

definition rv64core_lib :: "junk \<Rightarrow> module_api lib" where
  "rv64core_lib j = \<lparr>InstanceDesc_GV = Some (desc_of ''rv64core_simple''),
     GetInstance_API = Some (Core_API (new_core_at j))\<rparr>"

definition simple_ram_lib :: "junk \<Rightarrow> module_api lib" where
  "simple_ram_lib j = \<lparr>InstanceDesc_GV = Some (desc_of ''simple_ram''),
     GetInstance_API = Some (Dev_API (as_device Ram (new_ram (ram_junk j) (1024 * 1024 * 4096))))\<rparr>"

definition TTY_DEV_ENV_KEY :: string where
  "TTY_DEV_ENV_KEY = ''MEMU_UARTLITE_TTY''"

definition env_helps :: "EnvConfHelp_t list" where
  "env_helps = [\<lparr>env_key = TTY_DEV_ENV_KEY,
     env_help = ''You need to create a pair of tty vdev to use this peripheral.'' @ [CHR 0x0A] @
       ''You could either use `socat` command or other methods to do so.'' @ [CHR 0x0A] @
       ''Please specify path to one of the tty pair.''\<rparr>]"

definition uart_lite_lib :: "module_api lib" where
  "uart_lite_lib = \<lparr>InstanceDesc_GV =
       Some \<lparr>desc_str = ''uart_lite'', env_help_list = Some env_helps, env_help_list_len = 1\<rparr>,
     GetInstance_API = Some (Dev_API (as_device Uart (new_uart_dev (1024 * 1024))))\<rparr>"

definition rv_clint_lib :: "module_api lib" where
  "rv_clint_lib = \<lparr>InstanceDesc_GV = Some (desc_of ''rv_clint''),
     GetInstance_API = Some (Intc_API (as_device Clint (new_clint_dev 0x10000)))\<rparr>"

definition rv_plic_lib :: "module_api lib" where
  "rv_plic_lib = \<lparr>InstanceDesc_GV = Some (desc_of ''rv_plic''),
     GetInstance_API = Some (Intc_API (as_device Plic (new_plic_dev 0x4000000)))\<rparr>"

section \<open>The default platform\<close>

text \<open>The constructor. \<open>firmware\<close> is the image file.\<close>

definition DefaultPlatform :: "modules \<Rightarrow> u8 list option \<Rightarrow> platform res" where
  "DefaultPlatform host firmware =
     bindR (Bus_GetInstance host (desc_of ''mmio_bus'')) (\<lambda>bus.
     bindR (Core_GetInstance host (desc_of ''rv64core_simple'') bus 0) (\<lambda>c0.
     bindR (Core_GetInstance host (desc_of ''rv64core_simple'') bus 1) (\<lambda>c1.
     bindR (IntCtrl_GetInstance host (desc_of ''rv_clint'') 0) (\<lambda>rvCLInt.
     bindR (IntCtrl_GetInstance host (desc_of ''rv_plic'') 0) (\<lambda>rvPLIC.
     bindR (MMIO_Dev_GetInstance host (desc_of ''simple_ram'') 0) (\<lambda>ram.
     bindR (MMIO_Dev_GetInstance host (desc_of ''uart_lite'') 0) (\<lambda>uartlite.
     connect_platform bus c0 c1 rvCLInt rvPLIC ram uartlite firmware)))))))"

definition default_platform_lib :: "modules \<Rightarrow> u8 list option \<Rightarrow> module_api lib" where
  "default_platform_lib host firmware = \<lparr>InstanceDesc_GV = Some (desc_of ''default_platform''),
     GetInstance_API = Some (Platform_API (DefaultPlatform host firmware))\<rparr>"

text \<open>What the process sees of the system besides its libraries: environment variables, and whether
  \<open>fopen\<close> opens a path.\<close>

record system =
  getenv :: "string \<Rightarrow> string option"
  fopen :: "string \<Rightarrow> bool"

definition uart_Init :: "system \<Rightarrow> FuncReturnFeedback_e" where
  "uart_Init sys = (case getenv sys TTY_DEV_ENV_KEY of
       None \<Rightarrow> MEMU_MODULE_MISSING_ENV
     | Some char_dev_path \<Rightarrow> if fopen sys char_dev_path then MEMU_OK else MEMU_FILE_OPEN_ERR)"

text \<open>The other devices have the default of \<open>MMIODev_I\<close>.\<close>

definition device_Init :: "system \<Rightarrow> device mmio_dev \<Rightarrow> FuncReturnFeedback_e" where
  "device_Init sys this = (case devImpl this of Uart u \<Rightarrow> uart_Init sys | _ \<Rightarrow> MEMU_OK)"

definition Init_Platform_API :: "system \<Rightarrow> platform \<Rightarrow> FuncReturnFeedback_e" where
  "Init_Platform_API sys p =
     (let feedback = device_Init sys (dev_of (sysBus p) h_uart)
      in if feedback \<noteq> MEMU_OK then feedback else MEMU_OK)"

section \<open>The interface between the platform and its modules\<close>

text \<open>What the constructor relies on: every directory supplies the modules asked of it.\<close>

locale module_host =
  fixes host :: modules and j :: junk
  assumes bus_supplied: "supplies host ''./lib/bus'' ''mmio_bus'' (Bus_API (new_bus []))"
    and core_supplied: "supplies host ''./lib/core'' ''rv64core_simple'' (Core_API (new_core_at j))"
    and clint_supplied: "supplies host ''./lib/intc'' ''rv_clint'' (Intc_API clint_part)"
    and plic_supplied: "supplies host ''./lib/intc'' ''rv_plic'' (Intc_API plic_part)"
    and ram_supplied: "supplies host ''./lib/dev'' ''simple_ram'' (Dev_API (ram_part (ram_junk j)))"
    and uart_supplied: "supplies host ''./lib/dev'' ''uart_lite'' (Dev_API uart_part)"
begin

lemma parts_found:
  "Bus_GetInstance host (desc_of ''mmio_bus'') = Inr (Some (new_bus []))"
  "Core_GetInstance host (desc_of ''rv64core_simple'') b h = Inr (Some (new_core_at j b h))"
  "IntCtrl_GetInstance host (desc_of ''rv_clint'') h = Inr (Some clint_part)"
  "IntCtrl_GetInstance host (desc_of ''rv_plic'') h = Inr (Some plic_part)"
  "MMIO_Dev_GetInstance host (desc_of ''simple_ram'') h = Inr (Some (ram_part (ram_junk j)))"
  "MMIO_Dev_GetInstance host (desc_of ''uart_lite'') h = Inr (Some uart_part)"
  using bus_supplied core_supplied clint_supplied plic_supplied ram_supplied uart_supplied
  by (simp_all add: Bus_GetInstance_def Core_GetInstance_def IntCtrl_GetInstance_def MMIO_Dev_GetInstance_def
      instance_supplied desc_of_def)

lemma DefaultPlatform_booted:
  assumes "length firmware \<le> 2 ^ 32"
  shows "returnsR (DefaultPlatform host (Some firmware)) (booted firmware)"
proof -
  have "core_wf (new_core_at j b h)" for b h
    unfolding new_core_at_def by (intro core_wf_new mmu_wf_new) (simp add: new_mmu_def)
  moreover have "nextPrivMode (new_core_at j b h) = M_MODE" for b h
    by (simp add: new_core_at_def new_core_def core_reset_def)
  ultimately show ?thesis
    using connect_platform_booted [OF _ _ assms] by (simp add: DefaultPlatform_def parts_found)
qed

end

text \<open>The directories as the build leaves them; other libraries may lie beside these.\<close>

definition built_modules :: "junk \<Rightarrow> modules" where
  "built_modules j = [
     ''./lib/bus'' \<mapsto> [(''./lib/bus/libmmio_bus.so'', Some mmio_bus_lib)],
     ''./lib/core'' \<mapsto> [(''./lib/core/librv64core_simple.so'', Some (rv64core_lib j))],
     ''./lib/intc'' \<mapsto> [(''./lib/intc/librv_plic.so'', Some rv_plic_lib),
                        (''./lib/intc/librv_clint.so'', Some rv_clint_lib)],
     ''./lib/dev'' \<mapsto> [(''./lib/dev/libuart_lite.so'', Some uart_lite_lib),
                       (''./lib/dev/libsimple_ram.so'', Some (simple_ram_lib j))]]"

lemmas module_libs = mmio_bus_lib_def rv64core_lib_def simple_ram_lib_def uart_lite_lib_def
  rv_clint_lib_def rv_plic_lib_def

lemma manifest_parts:
  "as_device Ram (new_ram m (1024 * 1024 * 4096)) = ram_part m"
  "as_device Uart (new_uart_dev (1024 * 1024)) = uart_part"
  "as_device Clint (new_clint_dev 0x10000) = clint_part"
  "as_device Plic (new_plic_dev 0x4000000) = plic_part"
  by (simp_all add: ram_part_def uart_part_def clint_part_def plic_part_def board_addresses)

interpretation built: module_host "built_modules j" j for j
  by unfold_locales
    (simp_all add: supplies_def built_modules_def module_libs manifest_parts [simplified] desc_of_def)

text \<open>The whole program also needs the platform module.\<close>

locale emulator_host = module_host +
  fixes firmware :: "u8 list"
  assumes platform_supplied:
    "supplies host ''./lib/platform'' ''default_platform'' (Platform_API (DefaultPlatform host (Some firmware)))"
begin

lemma platform_found:
  "Platform_GetInstance host (desc_of ''default_platform'') =
     bindR (DefaultPlatform host (Some firmware)) (\<lambda>p. Inr (Some p))"
  using platform_supplied by (simp add: Platform_GetInstance_def instance_supplied desc_of_def)

end

definition built_host :: "junk \<Rightarrow> u8 list \<Rightarrow> modules" where
  "built_host j firmware = (built_modules j)(''./lib/platform'' \<mapsto>
     [(''./lib/platform/libdefault_platform.so'', Some (default_platform_lib (built_modules j) (Some firmware)))])"

text \<open>The constructor of the platform does not look at the directory of the platform.\<close>

lemma DefaultPlatform_ignores: "DefaultPlatform (host(''./lib/platform'' := d)) fw = DefaultPlatform host fw"
  by (simp add: DefaultPlatform_def Bus_GetInstance_def Core_GetInstance_def IntCtrl_GetInstance_def
      MMIO_Dev_GetInstance_def get_constructor_func_def get_lib_names_def)

lemma supplies_elsewhere: "path \<noteq> p \<Longrightarrow> supplies (host(p := d)) path n f = supplies host path n f"
  by (simp add: supplies_def)

interpretation built_emulator: emulator_host "built_host j firmware" j firmware for j firmware
proof unfold_locales
qed (simp_all add: built_host_def supplies_elsewhere built.bus_supplied built.core_supplied built.clint_supplied
    built.plic_supplied built.ram_supplied built.uart_supplied DefaultPlatform_ignores,
    simp add: supplies_def default_platform_lib_def desc_of_def)

end
