(* ===== verification/Gdb_Features.thy ===== *)
theory Gdb_Features
  imports Gdb_Rsp
begin

text \<open>
  The feature list a debugger opens a session with (\<open>qSupported\<close>): the packet is recognised and its
  parameters are the features it announces with a plus sign, in their order.
\<close>

section \<open>Repetition\<close>

lemma Star_end: "s \<in> set (remainders (Star r) s)"
  by (subst remainders.simps(6)) simp

lemma Star_step:
  "u \<in> set (remainders r s) \<Longrightarrow> length u < length s \<Longrightarrow> t \<in> set (remainders (Star r) u) \<Longrightarrow>
   t \<in> set (remainders (Star r) s)"
  by (subst remainders.simps(6)) auto

lemma Star_cong:
  assumes "\<And>s. remainders a s = remainders b s"
  shows "remainders (Star a) s = remainders (Star b) s"
proof (induction s rule: length_induct)
  case (1 s)
  have "map (remainders (Star a)) (filter (\<lambda>t. length t < length s) (remainders a s)) =
      map (remainders (Star b)) (filter (\<lambda>t. length t < length s) (remainders b s))"
    using 1 assms by (intro map_cong) auto
  then show ?case by (simp only: remainders.simps(6))
qed

section \<open>The parameters\<close>

definition feature_ranges :: "(char \<times> char) list" where
  "feature_ranges = (CHR ''-'', CHR ''-'') # word_ranges"

abbreviation feature_char :: "char \<Rightarrow> bool" where
  "feature_char \<equiv> in_ranges feature_ranges"

lemma feature_char_cases: "feature_char c \<longleftrightarrow> c = CHR ''-'' \<or> in_ranges word_ranges c"
proof -
  have k: "in_ranges [(k, k)] c \<longleftrightarrow> c = k" for k
    using match_Lit [of "[]" k "[c]"] by (auto simp: Lit_def split: if_splits)
  have "feature_char c \<longleftrightarrow> in_ranges [(CHR ''-'', CHR ''-'')] c \<or> in_ranges word_ranges c"
    by (simp only: in_ranges_def feature_ranges_def list.set bex_simps empty_iff) blast
  then show ?thesis using k by simp
qed

lemma feature_char_remainders:
  "remainders (Altn (Lit CHR ''-'') (Cls word_ranges)) s = remainders (Cls feature_ranges) s"
proof -
  have "in_ranges [(CHR ''-'', CHR ''-'')] c \<longleftrightarrow> c = CHR ''-''" for c
    using match_Lit [of "[]" "CHR ''-''" "[c]"] by (auto simp: Lit_def split: if_splits)
  moreover have "\<not> in_ranges word_ranges CHR ''-''" by (simp add: in_ranges_def word_ranges_def)
  ultimately show ?thesis by (cases s) (auto simp: Lit_def feature_char_cases)
qed

lemma not_feature_char: "\<not> feature_char CHR ''+''" "\<not> feature_char CHR '';''" "\<not> feature_char CHR '':''"
  by (simp_all add: in_ranges_def feature_ranges_def word_ranges_def)

lemma feature_remainders:
  "remainders re_feature s =
     filter (\<lambda>t. t \<noteq> [] \<and> hd t = CHR ''+'') (remainders (Plus (Cls feature_ranges)) s)"
proof -
  have "map (remainders (Star (Altn (Lit CHR ''-'') (Cls word_ranges)))) = map (remainders (Star (Cls feature_ranges)))"
    by (intro arg_cong [where f = map] ext Star_cong feature_char_remainders)
  then have "remainders (Plus (Altn (Lit CHR ''-'') (Cls word_ranges))) s = remainders (Plus (Cls feature_ranges)) s"
    by (simp only: remainders.simps(4) feature_char_remainders)
  moreover have "remainders (Ahead (Lit CHR ''+'')) = (\<lambda>t. if t \<noteq> [] \<and> hd t = CHR ''+'' then [t] else [])"
  proof
    fix t
    have "remainders (Lit CHR ''+'') t = [] \<longleftrightarrow> \<not> (\<exists>u. t = CHR ''+'' # u)"
      using match_Lit [of _ "CHR ''+''" t] by (metis list.set_intros(1) list.exhaust empty_iff empty_set)
    then show "remainders (Ahead (Lit CHR ''+'')) t = (if t \<noteq> [] \<and> hd t = CHR ''+'' then [t] else [])"
      by (cases t) auto
  qed
  moreover have "concat (map (\<lambda>t. if P t then [t] else []) ts) = filter P ts" for P and ts :: "string list"
    by (induction ts) auto
  ultimately show ?thesis by (simp only: re_feature_def remainders.simps(4) [of _ "Ahead _"])
qed

text \<open>A run of characters of features is one, if and only if a plus sign follows.\<close>

lemma feature_found:
  assumes "p \<noteq> []" "\<forall>c \<in> set p. feature_char c"
  shows "regex_search re_feature (p @ CHR ''+'' # s) = Some (p, CHR ''+'' # s)"
proof -
  obtain c q where p: "p = c # q" using assms(1) by (cases p) auto
  obtain ts where "remainders (Star (Cls feature_ranges)) (q @ CHR ''+'' # s) =
      dropWhile feature_char (q @ CHR ''+'' # s) # ts"
    using hd_Star_Cls by metis
  moreover have "dropWhile feature_char (q @ CHR ''+'' # s) = CHR ''+'' # s"
    using assms(2) p not_feature_char by (auto simp: dropWhile_append)
  ultimately have "\<exists>ts. remainders re_feature (p @ CHR ''+'' # s) = (CHR ''+'' # s) # ts"
    using assms(2) p by (simp add: feature_remainders Plus_Cls del: remainders.simps)
  then show ?thesis by (subst regex_search.simps) auto
qed

lemma feature_not_found:
  assumes "\<forall>c \<in> set p. feature_char c" "s = [] \<or> \<not> feature_char (hd s) \<and> hd s \<noteq> CHR ''+''"
  shows "remainders re_feature (p @ s) = []"
proof -
  have "t = [] \<or> hd t \<noteq> CHR ''+''" if t: "t \<in> set (remainders (Plus (Cls feature_ranges)) (p @ s))" for t
  proof -
    obtain q where q: "p @ s = q @ t" "\<forall>c \<in> set q. feature_char c"
      using t by (auto simp only: set_Plus_Cls)
    then consider u where "p = q @ u" "t = u @ s" | u where "q = p @ u" "s = u @ t"
      by (auto simp: append_eq_append_conv2)
    then show ?thesis
    proof cases
      case 1
      then show ?thesis using assms not_feature_char(1) by (cases u) auto
    next
      case 2
      then show ?thesis using assms(2) q(2) by (cases u) auto
    qed
  qed
  then show ?thesis by (auto simp only: feature_remainders filter_empty_conv)
qed

lemma feature_skip:
  assumes "\<forall>c \<in> set p. feature_char c" "\<not> feature_char k" "k \<noteq> CHR ''+''"
  shows "regex_search re_feature (p @ k # s) = regex_search re_feature s"
  using assms(1)
proof (induction p)
  case Nil
  have "remainders re_feature (k # s) = []" using feature_not_found [of "[]" "k # s"] assms by simp
  then show ?case by (subst regex_search.simps) simp
next
  case (Cons c p)
  have "remainders re_feature (c # p @ k # s) = []" using feature_not_found [of "c # p" "k # s"] Cons.prems assms by simp
  with Cons show ?case by (subst regex_search.simps) simp
qed

lemma feature_skip_plus: "regex_search re_feature (CHR ''+'' # s) = regex_search re_feature s"
proof -
  have "remainders re_feature (CHR ''+'' # s) = []"
    using not_feature_char(1) by (simp add: feature_remainders Plus_Cls del: remainders.simps)
  then show ?thesis by (subst regex_search.simps) simp
qed

lemma feature_none: "\<forall>c \<in> set p. feature_char c \<Longrightarrow> regex_search re_feature p = None"
proof (induction p)
  case Nil
  then show ?case using feature_not_found [of "[]" "[]"] by (subst regex_search.simps) simp
next
  case (Cons c p)
  then show ?case using feature_not_found [of "c # p" "[]"] by (subst regex_search.simps) simp
qed

lemma feature_shorter:
  "regex_search re_feature s = Some (m, t) \<Longrightarrow> length t < length s"
proof (induction s)
  case Nil
  then show ?case using feature_none [of "[]"] by simp
next
  case (Cons c s)
  have "length t < length (c # s)" if "t \<in> set (remainders re_feature (c # s))"
    using that by (auto simp only: feature_remainders set_filter set_Plus_Cls mem_Collect_eq)
      (metis length_append add_less_same_cancel2 length_greater_0_conv less_add_same_cancel2)
  with Cons show ?case
    by (subst (asm) (2) regex_search.simps) (auto split: list.splits simp: less_Suc_eq)
qed

lemma feature_matches:
  "regex_matches re_feature s = (case regex_search re_feature s of
     None \<Rightarrow> [] | Some (m, t) \<Rightarrow> m # regex_matches re_feature t)"
  by (subst regex_matches.simps) (auto dest: feature_shorter split: option.split)

lemma feature_next:
  "p \<noteq> [] \<Longrightarrow> \<forall>c \<in> set p. feature_char c \<Longrightarrow>
     regex_matches re_feature (p @ CHR ''+'' # s) = p # regex_matches re_feature s"
  "\<forall>c \<in> set p. feature_char c \<Longrightarrow> \<not> feature_char k \<Longrightarrow> k \<noteq> CHR ''+'' \<Longrightarrow>
     regex_matches re_feature (p @ k # s) = regex_matches re_feature s"
  "\<forall>c \<in> set p. feature_char c \<Longrightarrow> regex_matches re_feature p = []"
proof -
  have "regex_matches re_feature (CHR ''+'' # s) = regex_matches re_feature s" for s
    by (subst (1 2) feature_matches) (simp add: feature_skip_plus)
  then show "p \<noteq> [] \<Longrightarrow> \<forall>c \<in> set p. feature_char c \<Longrightarrow>
      regex_matches re_feature (p @ CHR ''+'' # s) = p # regex_matches re_feature s"
    by (subst feature_matches) (simp add: feature_found)
  show "\<forall>c \<in> set p. feature_char c \<Longrightarrow> \<not> feature_char k \<Longrightarrow> k \<noteq> CHR ''+'' \<Longrightarrow>
      regex_matches re_feature (p @ k # s) = regex_matches re_feature s"
    by (subst (1 2) feature_matches) (simp add: feature_skip)
  show "\<forall>c \<in> set p. feature_char c \<Longrightarrow> regex_matches re_feature p = []"
    by (subst feature_matches) (simp add: feature_none)
qed

section \<open>The packet\<close>

definition feature_name :: "string \<Rightarrow> bool" where
  "feature_name f \<longleftrightarrow> f \<noteq> [] \<and>
     list_all (in_ranges [(CHR ''a'', CHR ''z''), (CHR ''A'', CHR ''Z''), (CHR ''-'', CHR ''-'')]) f"

text \<open>The list as the debugger writes it: a feature it supports is followed by a plus sign.\<close>

definition feature_item :: "string \<times> bool \<Rightarrow> string" where
  "feature_item e = fst e @ (if snd e then ''+'' else [])"

fun feature_list :: "(string \<times> bool) list \<Rightarrow> string" where
  "feature_list [] = []"
| "feature_list [e] = feature_item e"
| "feature_list (e # es) = feature_item e @ CHR '';'' # feature_list es"

lemma feature_name_chars: "feature_name f \<Longrightarrow> c \<in> set f \<Longrightarrow> feature_char c"
  by (auto simp: feature_name_def list_all_iff in_ranges_def feature_ranges_def word_ranges_def)

lemma feature_list_matches:
  "list_all (\<lambda>e. feature_name (fst e)) es \<Longrightarrow> regex_matches re_feature (feature_list es) = map fst (filter snd es)"
proof (induction es rule: feature_list.induct)
  case 1
  then show ?case using feature_next(3) [of "[]"] by simp
next
  case (2 e)
  then have "fst e \<noteq> []" "\<forall>c \<in> set (fst e). feature_char c"
    using feature_name_chars by (auto simp: feature_name_def)
  then show ?case
    using feature_next(1) [of "fst e" "[]"] feature_next(3) [of "fst e"] feature_next(3) [of "[]"]
    by (simp add: feature_item_def)
next
  case (3 e e' es)
  then have f: "fst e \<noteq> []" "\<forall>c \<in> set (fst e). feature_char c"
    using feature_name_chars by (auto simp: feature_name_def)
  have "regex_matches re_feature (CHR '';'' # s) = regex_matches re_feature s" for s
    using feature_next(2) [of "[]" "CHR '';''" s] not_feature_char by simp
  then show ?case
    using 3 feature_next(1) [OF f] feature_next(2) [OF f(2)] not_feature_char
    by (simp add: feature_item_def)
qed

text \<open>The expression of the whole command accepts every such list that is not empty.\<close>

abbreviation feature_group :: regex where
  "feature_group \<equiv> Sequ (Plus (Cls [(CHR ''a'', CHR ''z''), (CHR ''A'', CHR ''Z''), (CHR ''-'', CHR ''-'')]))
     (Sequ (Opt (Lit CHR ''+'')) (Opt (Lit CHR '';'')))"

lemma feature_group_matches:
  assumes "feature_name f"
  shows "t \<in> set (remainders feature_group (f @ (if b then ''+'' else []) @ (if c then '';'' else []) @ t))"
proof -
  let ?u = "(if c then '';'' else []) @ t"
  have "(if b then ''+'' else []) @ ?u \<in> set (remainders (Plus (Cls [(CHR ''a'', CHR ''z''), (CHR ''A'', CHR ''Z''), (CHR ''-'', CHR ''-'')]))
      (f @ (if b then ''+'' else []) @ ?u))"
    unfolding set_Plus_Cls using assms by (intro exI [of _ f]) (simp add: feature_name_def list_all_iff)
  moreover have "?u \<in> set (remainders (Opt (Lit CHR ''+'')) ((if b then ''+'' else []) @ ?u))"
    by (auto simp: match_Lit simp del: remainders.simps(2-4,6-7))
  moreover have "t \<in> set (remainders (Opt (Lit CHR '';'')) ?u)"
    by (auto simp: match_Lit simp del: remainders.simps(2-4,6-7))
  ultimately show ?thesis
    by (intro match_Sequ [where a = "Plus _", THEN iffD2] bexI match_Sequ [where a = "Opt _", THEN iffD2])
qed

lemma feature_list_step:
  assumes "feature_name (fst e)"
  shows "feature_list es \<in> set (remainders feature_group (feature_list (e # es)))"
    and "length (feature_list es) < length (feature_list (e # es))"
proof -
  have "feature_list (e # es) = fst e @ (if snd e then ''+'' else []) @ (if es \<noteq> [] then '';'' else []) @ feature_list es"
    by (cases es) (simp_all add: feature_item_def)
  then show "feature_list es \<in> set (remainders feature_group (feature_list (e # es)))"
    and "length (feature_list es) < length (feature_list (e # es))"
    using feature_group_matches [OF assms] assms by (simp_all add: feature_name_def del: remainders.simps)
qed

lemma feature_list_star:
  "list_all (\<lambda>e. feature_name (fst e)) es \<Longrightarrow> [] \<in> set (remainders (Star feature_group) (feature_list es))"
proof (induction es)
  case Nil
  show ?case using Star_end by simp
next
  case (Cons e es)
  then show ?case by (intro Star_step [OF feature_list_step]) auto
qed

lemma feature_list_accepted:
  assumes "es \<noteq> []" "list_all (\<lambda>e. feature_name (fst e)) es"
  shows "regex_match (''qSupported:'' @ feature_list es) re_qSupported"
proof -
  obtain e es' where es: "es = e # es'" using assms(1) by (cases es) auto
  have "[] \<in> set (remainders (Plus feature_group) (feature_list es))"
    unfolding match_Sequ [where b = "Star _"]
    using feature_list_step(1) [of e es'] feature_list_star [of es'] assms(2) es by auto
  then have "[] \<in> set (remainders (Sequ (Lit CHR '':'') (Plus feature_group)) (CHR '':'' # feature_list es))"
    unfolding match_Lit_then by blast
  moreover have "CHR '':'' # feature_list es \<in> set (remainders (Str ''qSupported'') (''qSupported:'' @ feature_list es))"
    by (simp add: set_Str)
  ultimately show ?thesis
    unfolding regex_match_def re_qSupported_def match_Sequ [where a = "Str _"] by (rule bexI)
qed

lemma parse_qSupported:
  assumes "es \<noteq> []" "list_all (\<lambda>e. feature_name (fst e)) es"
  shows "ParsePacket_GDB_RSP_Utils (''qSupported:'' @ feature_list es) = parsed CMD_Q_SUPPORTED (map fst (filter snd es))"
proof -
  let ?s = "''qSupported:'' @ feature_list es"
  have "CHR 0x00 \<notin> set (feature_list es)"
    using assms(2) feature_name_chars
    by (induction es rule: feature_list.induct)
      (auto simp: feature_item_def, (fastforce simp: in_ranges_def feature_ranges_def word_ranges_def)+)
  then have c: "takeWhile (\<lambda>c. c \<noteq> CHR 0x00) ?s = ?s" by (intro c_string) auto
  have "regex_matches re_feature ?s = regex_matches re_feature (feature_list es)"
    using feature_next(2) [of "''qSupported''" "CHR '':''" "feature_list es"] not_feature_char
    by (simp add: in_ranges_def feature_ranges_def word_ranges_def)
  then have "regex_matches re_feature ?s = map fst (filter snd es)"
    using feature_list_matches [OF assms(2)] by simp
  moreover have "regex_match ?s re_qSupported" by (rule feature_list_accepted [OF assms])
  ultimately show ?thesis
    unfolding ParsePacket_GDB_RSP_Utils_def Let_def c PacketTypeRegexStr_GV_def by (simp add: command_forms)
qed

section \<open>Properties\<close>

text \<open>The packet with the features of the debugger is parsed into the names of those it supports, in order.\<close>

theorem feature_packet_parsed:
  assumes "es \<noteq> []" and "list_all (\<lambda>e. feature_name (fst e)) es"
  shows "ParsePacket_GDB_RSP_Utils (''qSupported:'' @ feature_list es) =
    \<lparr>packetType = CMD_Q_SUPPORTED, cmd = [], paramList = map fst (filter snd es)\<rparr>"
  by (rule parse_qSupported [OF assms])

theorem feature_packet_parsed_witness:
  "paramList (ParsePacket_GDB_RSP_Utils ''qSupported:swbreak+;xml-registers;fork-events+'') = [''swbreak'', ''fork-events'']"
proof -
  have "list_all (\<lambda>e. feature_name (fst e)) [(''swbreak'', True), (''xml-registers'', False), (''fork-events'', True)]"
    by (simp add: feature_name_def in_ranges_def)
  from feature_packet_parsed [OF _ this] show ?thesis by (simp add: feature_item_def)
qed

end
