(* ===== verification/Unit_Test.thy ===== *)
theory Unit_Test
  imports Boot Gdb_Features Gdb_Stub
begin

text \<open>
  The test sdk (\<open>include/sdk/test/test.h\<close>) and the two test units of the program: the one of the
  object factory (\<open>unit_test.cpp\<close>, \<open>Main_Test\<close>) and the one of the GDB stub
  (\<open>src/gdb_stub/unit_test.cpp\<close>, \<open>GDB_RSP_Test\<close>), which \<open>main\<close> runs before it starts the emulator.
\<close>

section \<open>The test sdk\<close>

record test_case =
  test_name :: string
  test_func :: "unit res"

text \<open>The linked list behind \<open>TestCaseList_Head\<close>: a new test goes in front.\<close>

definition register_test :: "test_case \<Rightarrow> test_case list \<Rightarrow> test_case list" where
  "register_test desc TestCaseList_Head = desc # TestCaseList_Head"

text \<open>The run stops at the first test that ends the process; what it prints is left out. An empty
  list only logs a warning.\<close>

primrec run_tests :: "test_case list \<Rightarrow> unit res" where
  "run_tests [] = Inr ()"
| "run_tests (ptr # next) = bindR (test_func ptr) (\<lambda>_. run_tests next)"

definition RunUnitTest_Test :: "test_case list \<Rightarrow> unit res" where
  "RunUnitTest_Test TestCaseList_Head = (if TestCaseList_Head = [] then Inr () else run_tests TestCaseList_Head)"

text \<open>Every test registers itself before \<open>main\<close>, in the order of the file.\<close>

definition test_unit :: "(string \<times> unit res) list \<Rightarrow> test_case list" where
  "test_unit cases = fold (\<lambda>(name, func). register_test \<lparr>test_name = name, test_func = func\<rparr>) cases []"

section \<open>Tests of the object factory\<close>

abbreviation check :: "bool \<Rightarrow> unit res" where
  "check b \<equiv> assertR b (Inr ())"

definition test_obj_factory_match :: "unit res" where
  "test_obj_factory_match =
     (let desc_1 = desc_of ''abc''; desc_2 = desc_of ''abc''; desc_3 = desc_of ''def'' in
      bindR (is_desc_match (Some desc_1) (Some desc_2)) (\<lambda>m12.
      bindR (check m12) (\<lambda>_.
      bindR (is_desc_match (Some desc_1) (Some desc_3)) (\<lambda>m13. check (\<not> m13)))))"

definition test_obj_factory_dev :: "modules \<Rightarrow> unit res" where
  "test_obj_factory_dev host =
     bindR (get_lib_names host ''./lib/dev'') (\<lambda>_.
     bindR (MMIO_Dev_GetInstance host (desc_of ''uart_lite'') 0) (\<lambda>uart_lite.
     bindR (check (uart_lite \<noteq> None)) (\<lambda>_.
     bindR (MMIO_Dev_GetInstance host (desc_of ''simple_ram'') 0) (\<lambda>simple_ram. check (simple_ram \<noteq> None)))))"

definition test_obj_factory_bus :: "modules \<Rightarrow> unit res" where
  "test_obj_factory_bus host =
     bindR (get_lib_names host ''./lib/bus'') (\<lambda>_.
     bindR (Bus_GetInstance host (desc_of ''mmio_bus'')) (\<lambda>bus. check (bus \<noteq> None)))"

definition test_obj_factory_core :: "modules \<Rightarrow> unit res" where
  "test_obj_factory_core host =
     bindR (get_lib_names host ''./lib/core'') (\<lambda>_.
     bindR (Core_GetInstance host (desc_of ''rv64core_simple'') None 0) (\<lambda>core_0. check (core_0 \<noteq> None)))"

definition test_obj_factory_intc :: "modules \<Rightarrow> unit res" where
  "test_obj_factory_intc host =
     bindR (get_lib_names host ''./lib/intc'') (\<lambda>_.
     bindR (IntCtrl_GetInstance host (desc_of ''rv_clint'') 0) (\<lambda>clint.
     bindR (check (clint \<noteq> None)) (\<lambda>_.
     bindR (IntCtrl_GetInstance host (desc_of ''rv_plic'') 0) (\<lambda>plic. check (plic \<noteq> None)))))"

definition test_obj_factory_platform :: "modules \<Rightarrow> unit res" where
  "test_obj_factory_platform host =
     bindR (get_lib_names host ''./lib/platform'') (\<lambda>_.
     bindR (Platform_GetInstance host (desc_of ''default_platform'')) (\<lambda>platform. check (platform \<noteq> None)))"

definition Main_Test :: "modules \<Rightarrow> unit res" where
  "Main_Test host = RunUnitTest_Test (test_unit
     [(''Object Factory Desc Match Test'', test_obj_factory_match),
      (''Object Factory Get Dev Test'', test_obj_factory_dev host),
      (''Object Factory Get Bus Test'', test_obj_factory_bus host),
      (''Object Factory Get Core Test'', test_obj_factory_core host),
      (''Object Factory Get Intc Test'', test_obj_factory_intc host),
      (''Object Factory Get Platform Test'', test_obj_factory_platform host),
      (''GDB RSP Test'', Inr ())])"

section \<open>Tests of the GDB stub\<close>

text \<open>The answers of the operating system to the three calls of the stub's constructor; every one
  of them ends the process when it is -1. The constructor then clears the buffer.\<close>

record network =
  socket_ret :: int
  bind_ret :: int
  listen_ret :: int

definition exit_if :: "bool \<Rightarrow> 'a res \<Rightarrow> 'a res" where
  "exit_if b m = (if b then Inl ProcessExit else m)"

definition listen_GDBStub :: "network \<Rightarrow> unit res" where
  "listen_GDBStub net =
     exit_if (socket_ret net = -1) (exit_if (bind_ret net = -1) (exit_if (listen_ret net = -1) (Inr ())))"

text \<open>This test builds a second platform, statement by statement like the constructor of the
  default platform, and opens the socket of the stub.\<close>

definition test_gdb_wait_for_debugger :: "modules \<Rightarrow> u8 list option \<Rightarrow> network \<Rightarrow> unit res" where
  "test_gdb_wait_for_debugger host firmware net =
     bindR (Bus_GetInstance host (desc_of ''mmio_bus'')) (\<lambda>bus.
     bindR (Core_GetInstance host (desc_of ''rv64core_simple'') bus 0) (\<lambda>c0.
     bindR (Core_GetInstance host (desc_of ''rv64core_simple'') bus 1) (\<lambda>c1.
     bindR (IntCtrl_GetInstance host (desc_of ''rv_clint'') 0) (\<lambda>rvCLInt.
     bindR (IntCtrl_GetInstance host (desc_of ''rv_plic'') 0) (\<lambda>rvPLIC.
     bindR (MMIO_Dev_GetInstance host (desc_of ''simple_ram'') 0) (\<lambda>ram.
     bindR (MMIO_Dev_GetInstance host (desc_of ''uart_lite'') 0) (\<lambda>uartlite.
     bindR (connect_platform bus c0 c1 rvCLInt rvPLIC ram uartlite firmware) (\<lambda>_.
     listen_GDBStub net))))))))"

text \<open>\<open>std::hex\<close>, \<open>std::setw\<close> and \<open>std::setfill('0')\<close>.\<close>

definition hex_padded :: "nat \<Rightarrow> nat \<Rightarrow> string" where
  "hex_padded w v = replicate (w - length (print_hex v)) CHR ''0'' @ print_hex v"

definition reg_format_test :: "unit res" where
  "reg_format_test =
     (let reg = \<lparr>reg_id = 0, disp_name = ''pc'', reg_size = 8, u64_val = 0xf\<rparr>
      in check (hex_padded (unat (reg_size reg) * 2) (unat (u64_val reg)) = ''000000000000000f''))"

definition qSupported_msg :: string where
  "qSupported_msg = ''qSupported:multiprocess+;swbreak+;hwbreak+;qRelocInsn+;'' @
     ''fork-events+;vfork-events+;exec-events+;vContSupported+;'' @
     ''QThreadEvents+;no-resumed+;memory-tagging+''"

text \<open>\<open>std::map::at\<close> throws when the key is absent, and so does \<open>std::vector::at\<close> out of range.\<close>

definition command_regex :: "GDB_RSP_PacketType_e \<Rightarrow> regex res" where
  "command_regex type = (case map_of PacketTypeRegexStr_GV type of
       None \<Rightarrow> Inl UncaughtException
     | Some res \<Rightarrow> if res = [] then Inl UncaughtException else Inr (hd res))"

definition param_at :: "GDB_RSP_Packet \<Rightarrow> nat \<Rightarrow> string res" where
  "param_at packet i = (if i < length (paramList packet) then Inr (paramList packet ! i) else Inl UncaughtException)"

definition check_param :: "GDB_RSP_Packet \<Rightarrow> nat \<Rightarrow> string \<Rightarrow> unit res" where
  "check_param packet i s = bindR (param_at packet i) (\<lambda>p. check (p = s))"

definition regex_test :: "unit res" where
  "regex_test =
     bindR (command_regex CMD_Q_SUPPORTED) (\<lambda>re.
     bindR (check (regex_match qSupported_msg re)) (\<lambda>_.
     bindR (command_regex CMD_QUERY_HALT_REASON) (\<lambda>re.
     bindR (check (regex_match ''?'' re)) (\<lambda>_.
     bindR (let packet = ParsePacket_GDB_RSP_Utils ''maa,bb'' in
       bindR (check (packetType packet = CMD_MEM_READ)) (\<lambda>_.
       bindR (check_param packet 0 ''aa'') (\<lambda>_. check_param packet 1 ''bb''))) (\<lambda>_.
     let packet = ParsePacket_GDB_RSP_Utils ''Maa,bb:cccc'' in
       bindR (check (packetType packet = CMD_MEM_WRITE)) (\<lambda>_.
       bindR (check_param packet 0 ''aa'') (\<lambda>_.
       bindR (check_param packet 1 ''bb'') (\<lambda>_. check_param packet 2 ''cccc''))))))))"

definition regex_split_token :: "unit res" where
  "regex_split_token = check (packetType (ParsePacket_GDB_RSP_Utils qSupported_msg) = CMD_Q_SUPPORTED)"

definition data_encode_test :: "unit res" where
  "data_encode_test = check (''1032547698badcfe'' = hex_bytes (to_bytes 8 (0xfedcba9876543210 :: u64)))"

definition byte_parse_test :: "unit res" where
  "byte_parse_test = check (list_all (\<lambda>i. let u8_val = of_nat i :: u8 in
     u8_val = ucast (strtoul16 (hex_byte u8_val))) [0..<256])"

definition write_all_reg :: "unit res" where
  "write_all_reg =
     (let packet = \<lparr>packetType = CMD_REG_READ_ALL, cmd = [],
           paramList = [''000000000000000011111111111111110123456789abcdef'']\<rparr>
      in
      bindR (check (packetType packet = CMD_REG_READ_ALL)) (\<lambda>_.
      bindR (check (length (paramList packet) = 1)) (\<lambda>_.
      bindR (param_at packet 0) (\<lambda>all_reg_str.
      bindR (check (length all_reg_str mod (64 div 4) = 0)) (\<lambda>_.
      let reg_str_len = 64 div 4; reg_num = length all_reg_str div reg_str_len; sz = 64 div 8 in
      bindR (ParseByteStreamStr all_reg_str) (\<lambda>all_reg_data.
      let regs = reg_items reg_num sz all_reg_data in
      bindR (check (length regs = 3)) (\<lambda>_.
      bindR (check (map u64_val regs ! 0 = 0x0000000000000000)) (\<lambda>_.
      bindR (check (map u64_val regs ! 1 = 0x1111111111111111)) (\<lambda>_.
      check (map u64_val regs ! 2 = 0xefcdab8967452301))))))))))"

definition set_test :: "unit res" where
  "set_test =
     (let s0 = ({} :: u64 set); s1 = insert 233 s0; s2 = insert 233 s1; s3 = s2 - {233}; s4 = s3 - {666} in
      bindR (check (233 \<notin> s0)) (\<lambda>_.
      bindR (check (233 \<in> s1)) (\<lambda>_.
      bindR (check (233 \<in> s2)) (\<lambda>_.
      bindR (check (233 \<notin> s3)) (\<lambda>_. check (666 \<notin> s3))))))"

definition GDB_RSP_Test :: "modules \<Rightarrow> u8 list option \<Rightarrow> network \<Rightarrow> unit res" where
  "GDB_RSP_Test host firmware net = RunUnitTest_Test (test_unit
     [(''GDB Wait For Debugger Test'', test_gdb_wait_for_debugger host firmware net),
      (''Reg format test'', reg_format_test),
      (''regex test'', regex_test),
      (''Regex Test Split Token'', regex_split_token),
      (''Data Encode Test'', data_encode_test),
      (''Byte Parse Test'', byte_parse_test),
      (''Write All Regs Test'', write_all_reg),
      (''Set Test'', set_test)])"

section \<open>The tests pass\<close>

lemma RunUnitTest_returns: "list_all (\<lambda>t. test_func t = Inr ()) ts \<Longrightarrow> RunUnitTest_Test ts = Inr ()"
proof -
  have "list_all (\<lambda>t. test_func t = Inr ()) ts \<Longrightarrow> run_tests ts = Inr ()" by (induction ts) auto
  then show "list_all (\<lambda>t. test_func t = Inr ()) ts \<Longrightarrow> ?thesis" by (simp add: RunUnitTest_Test_def)
qed

text \<open>The tests run in the reverse of their order in the file.\<close>

lemma test_unit_order: "test_unit cases = map (\<lambda>(n, f). \<lparr>test_name = n, test_func = f\<rparr>) (rev cases)"
proof -
  have "fold (\<lambda>(name, func). register_test \<lparr>test_name = name, test_func = func\<rparr>) cases ts =
      map (\<lambda>(n, f). \<lparr>test_name = n, test_func = f\<rparr>) (rev cases) @ ts" for ts
    by (induction cases arbitrary: ts) (auto simp: register_test_def)
  then show ?thesis by (simp add: test_unit_def)
qed

lemma test_unit_passes: "list_all (\<lambda>c. snd c = Inr ()) cases \<Longrightarrow> RunUnitTest_Test (test_unit cases) = Inr ()"
  by (rule RunUnitTest_returns) (auto simp: test_unit_order list_all_iff)

lemma reg_format_passes: "reg_format_test = Inr ()"
proof -
  have "hex_digit 15 = CHR ''f''" by code_simp
  then have "print_hex 15 = ''f''" by (subst print_hex.simps) simp
  moreover have "replicate 15 CHR ''0'' = ''000000000000000''" by code_simp
  ultimately show ?thesis by (simp add: reg_format_test_def hex_padded_def)
qed

lemma set_test_passes: "set_test = Inr ()"
  by (simp add: set_test_def)

lemma byte_parse_passes: "byte_parse_test = Inr ()"
  by (simp add: byte_parse_test_def Let_def strtoul_byte list_all_iff)

lemma data_encode_passes: "data_encode_test = Inr ()"
  unfolding data_encode_test_def by code_simp

definition test_reg_bytes :: "u8 list" where
  "test_reg_bytes = replicate 8 0 @ replicate 8 0x11 @ [0x01, 0x23, 0x45, 0x67, 0x89, 0xab, 0xcd, 0xef]"

lemma write_all_passes: "write_all_reg = Inr ()"
proof -
  have s: "''000000000000000011111111111111110123456789abcdef'' = hex_bytes test_reg_bytes"
    by code_simp
  have l: "length (hex_bytes test_reg_bytes) = 48" by (simp add: test_reg_bytes_def)
  have r: "map u64_val (reg_items 3 8 test_reg_bytes) = [0, 0x1111111111111111, 0xefcdab8967452301]"
    by code_simp
  have "length (reg_items 3 8 test_reg_bytes) = 3" by (simp add: reg_items_def)
  then show ?thesis
    unfolding write_all_reg_def s by (simp add: param_at_def l parse_hex_bytes r del: length_hex_bytes)
qed

definition test_features :: "(string \<times> bool) list" where
  "test_features = map (\<lambda>f. (f, True)) [''multiprocess'', ''swbreak'', ''hwbreak'', ''qRelocInsn'', ''fork-events'',
     ''vfork-events'', ''exec-events'', ''vContSupported'', ''QThreadEvents'', ''no-resumed'', ''memory-tagging'']"

lemma test_features_names: "list_all (\<lambda>e. feature_name (fst e)) test_features" "test_features \<noteq> []"
  by (simp_all add: test_features_def feature_name_def in_ranges_def)

lemma qSupported_msg: "qSupported_msg = ''qSupported:'' @ feature_list test_features"
  by (simp add: qSupported_msg_def test_features_def feature_item_def)

lemma regex_split_passes: "regex_split_token = Inr ()"
  using parse_qSupported [OF test_features_names(2,1)] by (simp add: regex_split_token_def qSupported_msg del: append.simps)

lemma regex_test_passes: "regex_test = Inr ()"
proof -
  have h: "hex_string ''aa''" "hex_string ''bb''" "hex_string ''cccc''"
    by (simp_all add: hex_string_def is_hex_def in_ranges_def hex_ranges_def)
  have re: "command_regex CMD_Q_SUPPORTED = Inr re_qSupported" "command_regex CMD_QUERY_HALT_REASON = Inr (Lit CHR ''?'')"
    by (simp_all add: command_regex_def PacketTypeRegexStr_GV_def)
  have "regex_match qSupported_msg re_qSupported"
    using feature_list_accepted [OF test_features_names(2,1)] by (simp add: qSupported_msg del: append.simps)
  moreover have "ParsePacket_GDB_RSP_Utils ''maa,bb'' = parsed CMD_MEM_READ [''aa'', ''bb'']"
    "ParsePacket_GDB_RSP_Utils ''Maa,bb:cccc'' = parsed CMD_MEM_WRITE [''aa'', ''bb'', ''cccc'']"
    using parse_args2 [OF h(1,2)] parse_args3(1) [OF h] by simp_all
  ultimately show ?thesis
    by (simp add: regex_test_def re match_single check_param_def param_at_def)
qed

lemmas stub_tests_pass = reg_format_passes set_test_passes byte_parse_passes data_encode_passes write_all_passes
  regex_split_passes regex_test_passes

text \<open>The tests that use the object factory need the modules, and the last one the network.\<close>

definition network_up :: "network \<Rightarrow> bool" where
  "network_up net \<longleftrightarrow> socket_ret net \<noteq> -1 \<and> bind_ret net \<noteq> -1 \<and> listen_ret net \<noteq> -1"

context module_host
begin

lemma wait_for_debugger_passes:
  assumes "length firmware \<le> 2 ^ 32" "network_up net"
  shows "test_gdb_wait_for_debugger host (Some firmware) net = Inr ()"
proof -
  have "test_gdb_wait_for_debugger host (Some firmware) net =
      bindR (DefaultPlatform host (Some firmware)) (\<lambda>_. listen_GDBStub net)"
    by (simp add: test_gdb_wait_for_debugger_def DefaultPlatform_def bindR_assoc)
  then show ?thesis
    using DefaultPlatform_booted [OF assms(1)] assms(2)
    by (auto simp: returnsR_iff listen_GDBStub_def exit_if_def network_up_def)
qed

lemma GDB_RSP_Test_passes:
  "length firmware \<le> 2 ^ 32 \<Longrightarrow> network_up net \<Longrightarrow> GDB_RSP_Test host (Some firmware) net = Inr ()"
  unfolding GDB_RSP_Test_def by (rule test_unit_passes) (simp add: wait_for_debugger_passes stub_tests_pass)

end

context emulator_host
begin

lemma directories_listed:
  "\<exists>libs. host ''./lib/bus'' = Some libs" "\<exists>libs. host ''./lib/core'' = Some libs"
  "\<exists>libs. host ''./lib/intc'' = Some libs" "\<exists>libs. host ''./lib/dev'' = Some libs"
  "\<exists>libs. host ''./lib/platform'' = Some libs"
  using bus_supplied core_supplied clint_supplied ram_supplied platform_supplied
  by (auto simp: supplies_def split: option.splits)

lemma Main_Test_passes:
  assumes "length firmware \<le> 2 ^ 32"
  shows "Main_Test host = Inr ()"
proof -
  obtain p where "DefaultPlatform host (Some firmware) = Inr p"
    using DefaultPlatform_booted [OF assms] by (auto simp: returnsR_iff)
  then have platform: "Platform_GetInstance host (desc_of ''default_platform'') = Inr (Some p)"
    by (simp add: platform_found)
  have "test_obj_factory_match = Inr ()"
    by (simp add: test_obj_factory_match_def is_desc_match_some desc_of_def)
  moreover have "test_obj_factory_dev host = Inr ()" "test_obj_factory_bus host = Inr ()"
    "test_obj_factory_core host = Inr ()" "test_obj_factory_intc host = Inr ()"
    "test_obj_factory_platform host = Inr ()"
    using directories_listed
    by (auto simp: test_obj_factory_dev_def test_obj_factory_bus_def test_obj_factory_core_def
        test_obj_factory_intc_def test_obj_factory_platform_def get_lib_names_def parts_found platform)
  ultimately show ?thesis unfolding Main_Test_def by (intro test_unit_passes) simp
qed

end

end
