(* ===== verification/Emulator.thy ===== *)
theory Emulator
  imports Unit_Test
begin

text \<open>
  The entry point (\<open>main.cpp\<close>): it runs the tests of the GDB stub, gets the platform from the
  object factory, initialises it and runs it.
\<close>

section \<open>The program\<close>

text \<open>\<open>CONFIG_TEST_ENABLE\<close> is set. The run loop never returns; it is cut after as many rounds as there
  are entries of terminal input, like \<open>Run_Platform_API\<close>.\<close>

definition emulator_main ::
    "modules \<Rightarrow> u8 list option \<Rightarrow> network \<Rightarrow> system \<Rightarrow> u8 list option list \<Rightarrow> (u8 list \<times> platform) res" where
  "emulator_main host firmware net sys inputs =
     bindR (GDB_RSP_Test host firmware net) (\<lambda>_.
     bindR (Platform_GetInstance host (desc_of ''default_platform'')) (\<lambda>platform_ptr.
     bindR (deref platform_ptr) (\<lambda>platform.
     let feedback = Init_Platform_API sys platform in
     assertR (feedback = MEMU_OK) (Run_Platform_API inputs platform))))"

text \<open>The modules of the build are installed: every directory supplies what is asked of it.\<close>

definition modules_installed :: "modules \<Rightarrow> junk \<Rightarrow> u8 list \<Rightarrow> bool" where
  "modules_installed host j firmware \<longleftrightarrow>
     supplies host ''./lib/bus'' ''mmio_bus'' (Bus_API (new_bus [])) \<and>
     supplies host ''./lib/core'' ''rv64core_simple'' (Core_API (new_core_at j)) \<and>
     supplies host ''./lib/intc'' ''rv_clint'' (Intc_API clint_part) \<and>
     supplies host ''./lib/intc'' ''rv_plic'' (Intc_API plic_part) \<and>
     supplies host ''./lib/dev'' ''simple_ram'' (Dev_API (ram_part (ram_junk j))) \<and>
     supplies host ''./lib/dev'' ''uart_lite'' (Dev_API uart_part) \<and>
     supplies host ''./lib/platform'' ''default_platform'' (Platform_API (DefaultPlatform host (Some firmware)))"

lemma installed_host: "modules_installed host j firmware \<longleftrightarrow> emulator_host host j firmware"
  by (simp add: modules_installed_def emulator_host_def emulator_host_axioms_def module_host_def)

lemma built_installed: "modules_installed (built_host j firmware) j firmware"
  unfolding installed_host by (rule built_emulator.emulator_host_axioms)

lemma uart_Init_ok: "uart_Init sys = MEMU_OK \<longleftrightarrow> (\<exists>tty. getenv sys TTY_DEV_ENV_KEY = Some tty \<and> fopen sys tty)"
  by (auto simp: uart_Init_def split: option.split)

lemma booted_init: "booted firmware p \<Longrightarrow> Init_Platform_API sys p = uart_Init sys"
  using board_kinds(2) by (force simp: booted_def platform_wf_def Init_Platform_API_def device_Init_def Let_def)

context emulator_host
begin

lemma main_steps:
  assumes "length firmware \<le> 2 ^ 32" "network_up net"
  shows "\<exists>p. booted firmware p \<and> (\<forall>sys inputs. emulator_main host (Some firmware) net sys inputs =
    assertR (uart_Init sys = MEMU_OK) (Run_Platform_API inputs p))"
proof -
  obtain p where p: "DefaultPlatform host (Some firmware) = Inr p" "booted firmware p"
    using DefaultPlatform_booted [OF assms(1)] by (auto simp: returnsR_iff)
  then show ?thesis
    by (auto simp: emulator_main_def GDB_RSP_Test_passes [OF assms] platform_found Let_def booted_init)
qed

lemma stub_test_stops:
  assumes "test_gdb_wait_for_debugger host fw net = Inl c"
  shows "emulator_main host fw net sys inputs = Inl c"
  using assms
  by (simp add: emulator_main_def GDB_RSP_Test_def RunUnitTest_Test_def test_unit_order stub_tests_pass)

lemma wait_for_debugger_stops:
  "length firmware \<le> 2 ^ 32 \<Longrightarrow> \<not> network_up net \<Longrightarrow> test_gdb_wait_for_debugger host (Some firmware) net = Inl ProcessExit"
  "test_gdb_wait_for_debugger host None net = Inl UncaughtException"
proof -
  have t: "test_gdb_wait_for_debugger host fw net = bindR (DefaultPlatform host fw) (\<lambda>_. listen_GDBStub net)" for fw
    by (simp add: test_gdb_wait_for_debugger_def DefaultPlatform_def bindR_assoc)
  show "length firmware \<le> 2 ^ 32 \<Longrightarrow> \<not> network_up net \<Longrightarrow> test_gdb_wait_for_debugger host (Some firmware) net = Inl ProcessExit"
    using DefaultPlatform_booted [of firmware]
    by (auto simp: t returnsR_iff listen_GDBStub_def exit_if_def network_up_def)
  show "test_gdb_wait_for_debugger host None net = Inl UncaughtException"
    by (simp add: t DefaultPlatform_def parts_found connect_platform_def SetGPRByIndex_CoreAPI_def read_image_def)
qed

end

section \<open>Properties\<close>

text \<open>C22: With the modules of the build installed, an image that fits the RAM, an open socket and a
  terminal that can be opened, main passes its tests, constructs the platform with both cores in
  M-mode at the image and the image in RAM, and runs it; every state it reaches is well-formed.\<close>

theorem emulator_boots:
  assumes "modules_installed host j firmware" and "length firmware \<le> 2 ^ 32" and "network_up net"
    and "getenv sys TTY_DEV_ENV_KEY = Some tty" and "fopen sys tty"
  shows "\<exists>p. booted firmware p \<and>
    emulator_main host (Some firmware) net sys inputs = Run_Platform_API inputs p \<and>
    holdsR (emulator_main host (Some firmware) net sys inputs) (\<lambda>(out, p'). platform_wf p')"
proof -
  obtain p where p: "booted firmware p" "emulator_main host (Some firmware) net sys inputs = Run_Platform_API inputs p"
    using emulator_host.main_steps [OF assms(1) [unfolded installed_host] assms(2,3)] uart_Init_ok [of sys] assms(4,5) by auto
  moreover have "platform_wf p" using p(1) by (simp add: booted_def)
  ultimately show ?thesis using run_wf by auto
qed

definition example_system :: system where
  "example_system = \<lparr>getenv = [TTY_DEV_ENV_KEY \<mapsto> ''/dev/pts/3''], fopen = (\<lambda>path. path = ''/dev/pts/3'')\<rparr>"

definition example_junk :: junk where
  "example_junk = \<lparr>ram_junk = (\<lambda>_. 0), core_junk = (\<lambda>_. example_core), tlb_junk = (\<lambda>_. []), pa_junk = (\<lambda>_. 0), sz_junk = (\<lambda>_. 0)\<rparr>"

theorem emulator_boots_witness:
  "\<exists>p. booted [0x13, 0, 0, 0] p \<and>
     emulator_main (built_host example_junk [0x13, 0, 0, 0]) (Some [0x13, 0, 0, 0]) \<lparr>socket_ret = 3, bind_ret = 0, listen_ret = 0\<rparr>
       example_system [] = Inr ([], p)"
  using emulator_boots [OF built_installed, of "[0x13, 0, 0, 0]" "\<lparr>socket_ret = 3, bind_ret = 0, listen_ret = 0\<rparr>"
      example_system "''/dev/pts/3''" example_junk "[]"]
  by (auto simp: network_up_def example_system_def)

text \<open>C23: With the modules installed, main exits when the socket cannot be opened, bound or listened
  on, fails an assertion when the terminal is not configured or cannot be opened, and ends with an
  uncaught exception when the image file is missing, whatever the terminal sends.\<close>

theorem emulator_start_failures:
  assumes "modules_installed host j firmware" and "length firmware \<le> 2 ^ 32"
  shows "(\<not> network_up net \<longrightarrow> emulator_main host (Some firmware) net sys inputs = Inl ProcessExit) \<and>
    (network_up net \<and> (\<forall>tty. getenv sys TTY_DEV_ENV_KEY = Some tty \<longrightarrow> \<not> fopen sys tty) \<longrightarrow>
      emulator_main host (Some firmware) net sys inputs = Inl AssertionFailure) \<and>
    emulator_main host None net sys inputs = Inl UncaughtException"
proof (intro conjI impI)
  note h = assms(1) [unfolded installed_host]
  show "\<not> network_up net \<Longrightarrow> emulator_main host (Some firmware) net sys inputs = Inl ProcessExit"
    by (rule emulator_host.stub_test_stops [OF h emulator_host.wait_for_debugger_stops(1) [OF h assms(2)]])
  show "network_up net \<and> (\<forall>tty. getenv sys TTY_DEV_ENV_KEY = Some tty \<longrightarrow> \<not> fopen sys tty) \<Longrightarrow>
      emulator_main host (Some firmware) net sys inputs = Inl AssertionFailure"
    using emulator_host.main_steps [OF h assms(2)] uart_Init_ok [of sys] by force
  show "emulator_main host None net sys inputs = Inl UncaughtException"
    by (rule emulator_host.stub_test_stops [OF h emulator_host.wait_for_debugger_stops(2) [OF h]])
qed

theorem emulator_start_failures_witness:
  "emulator_main (built_host example_junk [0x13, 0, 0, 0]) (Some [0x13, 0, 0, 0]) \<lparr>socket_ret = 3, bind_ret = 0, listen_ret = 0\<rparr>
     \<lparr>getenv = (\<lambda>_. None), fopen = (\<lambda>_. False)\<rparr> [None] = Inl AssertionFailure"
  using emulator_start_failures [OF built_installed, of "[0x13, 0, 0, 0]" "\<lparr>socket_ret = 3, bind_ret = 0, listen_ret = 0\<rparr>"
      example_junk "\<lparr>getenv = (\<lambda>_. None), fopen = (\<lambda>_. False)\<rparr>" "[None]"]
  by (simp add: network_up_def)

end
