(* ===== verification/Spec2Isabelle.thy ===== *)
theory Spec2Isabelle
  imports Ram Uartlite Plic Mmio_Bus Alu Sv39_Walk Sv39_Amo RV64_Safe Board_Access Board_Secrecy Board_Isa Gdb_Session Emulator
begin

text \<open>
  M-EMU, a full-system emulator of RV64IMAC with two cores, Sv39 translation, a CLINT, a PLIC, a
  UART Lite console and a GDB server. Paths below are relative to \<open>src/M-EMU/\<close>.

  \<^bold>\<open>The program.\<close> The entry point runs the tests, gets a platform from the object factory, which finds
  every part in a library of a module directory, and runs it. A platform object owns the bus, the devices and two cores. It repeats one round
  for ever: update the timer and the software interrupts, update the external interrupt lines,
  step both cores, and every hundredth round serve the terminal of the UART. A step of a core
  checks for interrupts, fetches through its translation unit, decodes and executes one
  instruction and enters a trap handler if something failed. All memory accesses, those of the
  page-table walk included, are physical accesses to the bus, which looks up the device of the
  address and forwards the access. With a debugger, the platform hands core 0 to a server of the
  GDB remote protocol, which reads packets from a socket and reads, writes and steps the core.

  \<^bold>\<open>The theories\<close>, each with the code it models:

  \<^item> \<open>Prelude\<close>: outcomes of running the emulator, C arrays, bytes of integers, bit-fields, the
    status codes of \<open>include/misc/status_enum.h\<close>, and the rules and simplification
    collections that the other theories share.
  \<^item> \<open>Mmio_Device\<close>, \<open>Mmio_Bus\<close>: \<open>include/interface/MMIO_Dev.h\<close>, \<open>MMIO_Bus.h\<close> and
    \<open>modules/bus/default/include/MMIOBus_Impl.hpp\<close>. A device is an \<open>mmio_dev\<close> record around
    its implementation, a virtual table is a record of operations (\<open>dev_ops\<close>, \<open>bus_ops\<close>), and
    the contract of each table is a locale (\<open>mmio_device\<close>, \<open>paddr_bus\<close>).
  \<^item> \<open>Ram\<close>, \<open>Uartlite\<close>, \<open>IntCtrl\<close>, \<open>Clint\<close>, \<open>Plic\<close>: \<open>modules/dev/ram\<close>, \<open>modules/dev/uartlite\<close>,
    \<open>include/interface/IntCtrl.h\<close>, \<open>modules/intc/rv_clint\<close>, \<open>modules/intc/rv_plic\<close>. Each device
    theory interprets \<open>mmio_device\<close> on its own operations.
  \<^item> \<open>RV64_Structs\<close>, \<open>Alu\<close>, \<open>Sv39_Mmu\<close>, \<open>Sv39_Walk\<close>, \<open>Sv39_Amo\<close>, \<open>RV64_Core\<close>, \<open>RV64_Csr\<close>,
    \<open>RV64_Inst\<close>, \<open>RV64_Exec\<close>, \<open>RV64_Exec_C\<close>, \<open>RV64_Step\<close>, \<open>RV64_Debug\<close>: the core
    (\<open>modules/core/rv64\<close>), in the order in which its files include each other: register
    layouts, integer unit, translation unit, atomics, state with traps and returns, control and
    status registers, encodings, 32-bit and compressed instructions, the step, debug access.
    \<open>Sv39_Walk\<close> holds the walk of the privileged manual as a reference definition, \<open>RV64_Rvc\<close> the
    expansion of compressed instructions, and \<open>RV64_Expand\<close> the proof that the compressed half of
    the instruction switch agrees with the other half on it.
  \<^item> \<open>RV64_Inv\<close>, \<open>RV64_Total\<close>, \<open>RV64_Safe\<close>: the invariant of a step over any bus that meets
    \<open>paddr_bus\<close>, that a step without translation always returns, and that a step in any mode
    returns or fails an assertion of the code.
  \<^item> \<open>Platform\<close>: \<open>modules/platform/default/include/DefaultPlatform.hpp\<close> with the addresses of
    the device manifests. The dispatch over the four kinds of device is an instance of
    \<open>mmio_device\<close> and the default bus with it an instance of \<open>paddr_bus\<close>, so the invariant of
    the step becomes one of the whole machine. \<open>Board_Access\<close> says which accesses it answers.
  \<^item> \<open>Protection\<close>, \<open>Board_Memory\<close>: memory behind a bus as the locale \<open>memory_bus\<close>, over which steps of
    a core in U-mode are shown to stay inside their mappings, and its interpretation on the RAM of
    the board behind the default bus, with a user program that starts and stores a byte.
  \<^item> \<open>RV64_Isa\<close>, \<open>Board_Isa\<close>: the unprivileged instruction set as an abstract machine with its encoding
    (RV64IMA and the compressed forms), the proof over the locale \<open>program_memory\<close> that a step of the
    core refines a step of the machine, and its interpretation on the RAM of the board.
  \<^item> \<open>Confidentiality\<close>, \<open>Board_Secrecy\<close>: two runs of the same core side by side (\<open>relR\<close>), over the
    locale \<open>observed_memory\<close> of two memories that agree on what the user can access, and its
    interpretation on boards with different RAM.
  \<^item> \<open>Obj_Factory\<close>, \<open>Boot\<close>, \<open>Emulator\<close>: \<open>include/misc/obj_factory.hpp\<close>, \<open>include/sdk/instance_desc.h\<close>,
    the \<open>module_manifest.hpp\<close> files, the constructor and the initialisation of the platform, and
    \<open>main.cpp\<close>. What the program needs of its module directories are the locales \<open>module_host\<close>
    and \<open>emulator_host\<close>, interpreted on the modules of the repository.
  \<^item> \<open>Unit_Test\<close>: \<open>include/sdk/test/test.h\<close>, \<open>unit_test.cpp\<close> and \<open>src/gdb_stub/unit_test.cpp\<close>. That
    the tests pass is proved, as the entry point runs them.
  \<^item> \<open>Regex\<close>, \<open>Gdb_Rsp\<close>, \<open>Gdb_Features\<close>, \<open>Gdb_Stub\<close>, \<open>Gdb_Session\<close>: \<open>src/gdb_stub/gdb_rsp.cpp\<close> and the three
    \<open>GDBStub_*.cpp\<close> files with their headers: packet classification, framing, retries, the
    commands, the debug loop, and what whole packets do to the core and the bus.

  \<^bold>\<open>Conventions.\<close> Unsigned integers keep their width as words, so additions wrap as in the code.
  An operation that can end the emulator returns \<open>crash + 'a\<close>: a failed assertion, an access
  outside an array or through a null pointer (undefined in C++), a read of a local that no call has
  written, an uncaught exception, or an exit.
  A \<open>FuncReturnFeedback_e\<close> or fault code that the code returns is part of the ordinary result. A
  buffer that the callee may leave alone is an \<open>option\<close>. State that the code updates in place is
  passed and returned; aliasing between the bus list and the objects of the platform is kept by
  handles (\<open>devHeap\<close>). Bit-fields are pairs of offset and width read by \<open>bget\<close> and written by
  \<open>bput\<close>. Loops over arrays are recursions over their indices. Logging is omitted.

  \<^bold>\<open>What is shown.\<close>
  \<^item> Refinement (\<open>Sv39_Walk\<close>, \<open>Alu\<close>): loads, stores and fetches follow the walk of the manual
    while the translation buffer is coherent, the buffer is transparent, \<open>sfence.vma\<close> restores
    coherence; all operations of the integer unit compute the integers of the manual.
  \<^item> Traps (\<open>RV64_Core\<close>, \<open>RV64_Csr\<close>): which interrupt is taken, that a return undoes a trap, that
    registers keep their reserved bits and read back what the manual lets be written.
  \<^item> Instructions (\<open>RV64_Inst\<close>, \<open>RV64_Step\<close>, \<open>RV64_Expand\<close>, \<open>RV64_Total\<close>): immediates are read back as encoded, register
    instructions do what their function codes say in the manual, unknown opcodes trap, a compressed
    instruction is executed as its expansion; without translation, and on a bus that answers, a
    step always returns unless it accesses \<open>mtvec\<close>; with translation it has no undefined behaviour.
  \<^item> Programs (\<open>RV64_Isa\<close>, \<open>Board_Isa\<close>): with translation off and interrupts masked, a program in RAM runs
    on the core and its bus exactly as on the abstract machine, for as long as its accesses are aligned and
    stay in RAM. Two restrictions come from the code: indirect jumps start from an even base (\<open>jalr\<close>
    clears bit 0 of the offset, the manual that of the sum), and minima and maxima of words take a
    sign-extended source (the code compares whole registers).
  \<^item> Atomics (\<open>Sv39_Amo\<close>): read, combine and write in one step; the life of a reservation.
  \<^item> Devices and bus: interrupt priorities, claim and complete, timer registers, routing,
    equivalence of the cached lookup with a linear search, registration without overlap.
  \<^item> Start (\<open>Obj_Factory\<close>, \<open>Emulator\<close>): which library the factory takes; with the modules, the
    image, the port and the terminal there, the emulator passes its tests and runs a well-formed
    platform; how it ends when one of them is missing.
  \<^item> Protection (\<open>Board_Memory\<close>, \<open>Board_Secrecy\<close>): until its next trap a user program changes only RAM
    that its page tables let it write, whatever it executes, and what it computes does not depend
    on RAM outside its pages and tables; loads and stores through the tables act on the RAM at the
    translated addresses. Both speak of the steps of one core with the devices and the other core at
    rest between them.
  \<^item> Platform: every number of rounds keeps it well-formed, exactly which aligned accesses of a
    guest leave the arrays of a device or fail its assertion (\<open>Board_Access\<close>),
    RAM and the console are reached through the bus, timer interrupts arrive, the terminal is
    served at least every hundred rounds.
  \<^item> Debugging: packets are received however the socket splits them, the packet always lies in
    the buffer, at most ten retries are asked for, memory and registers are read back as
    written, a run stops at the first watchpoint and not before.

  \<^bold>\<open>Bounds and fuel.\<close> No definition has an artificial fuel. The run loop of the platform and the
  debug loop never end in the code: they are cut after as many rounds as there are terminal inputs
  and after a given number of packets, and the theorems hold of every number. Continuing under the
  debugger may run for ever, so it is a \<open>partial_function (option)\<close> whose value \<open>None\<close> is
  divergence; it returns exactly when a watchpoint is reached or the emulator ends. The receive
  buffer holds 1024 characters, a retry loop runs at most ten times and a page-table walk
  at most three levels, as in the code; these recursions are total functions.

  \<^bold>\<open>Assumptions.\<close> Bus accesses of the core are a parameter constrained by \<open>paddr_bus\<close>, which
  \<open>Platform\<close> discharges. Uninitialised RAM is an arbitrary parameter. The terminal is a list of
  optional inputs and a list of outputs. The GDB server accepts one client, with the first packet or not at
  all, and its connection is a list of the pieces that \<open>recv\<close> returns; each packet is read through a stdio stream of its own, and what that stream
  has read ahead is lost with it. \<open>strtoll\<close> saturates. An \<open>alloca\<close> or array of \<open>2 ^ 31\<close> or more
  bytes counts as an access outside the stack. The comparison of packet checksums is
  compiled out in the code, so checksums are read and dropped. The expressions of \<open>std::regex\<close>
  that the packet table uses are interpreted by backtracking over the remainders of the input.

  The dynamic loader and the file system are a parameter that says what each library of a directory
  exports, in the order of the directory iterator; environment, \<open>fopen\<close> and the results of the
  socket calls are parameters too, like the contents of memory that nothing initialises.

  \<^bold>\<open>Open.\<close> Which assertions of the translation unit a guest can reach (a non-canonical address, a
  page table outside memory, overlapping pages) is known only as an upper bound: no other crash
  occurs. Accesses that are not aligned, and writes to the PLIC of other lengths than a word, are
  values of the model that \<open>Board_Access\<close> does not classify.

  \<^bold>\<open>Not modelled.\<close> \<open>include/sdk/diff_test\<close> (declarations nothing implements), the logging,
  attribute and configuration headers, and what the code prints: the warnings of the factory and
  the names of the tests.
\<close>

end
